theory Spec2Isabelle
  imports Main "HOL-Library.Word"
begin

section \<open>JavaScript values used by the scripts\<close>

text \<open>
  The repository holds two zx scripts: the Geobuf exporter (the first script of
  \<^verbatim>\<open>table-to-geobuf.ts\<close>, lines 1 to 135) and the GeoJSON pipeline (the second script,
  lines 135 to 337, the one the Dockerfile runs). Both drive external programs
  (\<^verbatim>\<open>psql\<close>, \<^verbatim>\<open>ogr2ogr\<close>, \<^verbatim>\<open>ogrmerge.py\<close>, \<^verbatim>\<open>find\<close>, \<^verbatim>\<open>rm\<close>, \<^verbatim>\<open>json2geobuf\<close>,
  \<^verbatim>\<open>xxd\<close>) and keep no data of their own beyond a few numbers and strings.

  A JavaScript number that comes out of \<^verbatim>\<open>parseInt\<close> is an integer or \<^verbatim>\<open>NaN\<close>.
  Integers are modelled as unbounded \<open>int\<close> (exact below \<open>2^53\<close>, far above any row
  count); \<^verbatim>\<open>NaN\<close> is kept, because a comparison with it is false and an addition
  with it gives \<^verbatim>\<open>NaN\<close>.
\<close>

datatype jsnum = Num int | NaN

fun js_gt :: "jsnum \<Rightarrow> jsnum \<Rightarrow> bool" where
  "js_gt (Num a) (Num b) = (a > b)"
| "js_gt _ _ = False"

fun js_add :: "jsnum \<Rightarrow> jsnum \<Rightarrow> jsnum" where
  "js_add (Num a) (Num b) = Num (a + b)"
| "js_add _ _ = NaN"

definition digit_char :: "nat \<Rightarrow> char" where
  "digit_char d = ''0123456789abcdef'' ! d"

fun show_nat :: "nat \<Rightarrow> string" where
  "show_nat n = (if n < 10 then [digit_char n] else show_nat (n div 10) @ [digit_char (n mod 10)])"

declare show_nat.simps [simp del]

text \<open>\<^verbatim>\<open>`${n}`\<close> for a number: decimal digits, a minus sign, or \<^verbatim>\<open>NaN\<close>.\<close>

fun js_toString :: "jsnum \<Rightarrow> string" where
  "js_toString NaN = ''NaN''"
| "js_toString (Num i) = (if i < 0 then CHR ''-'' # show_nat (nat (- i)) else show_nat (nat i))"

text \<open>White space as \<^verbatim>\<open>trim\<close> and \<^verbatim>\<open>parseInt\<close> skip it (the ASCII part of it).\<close>

definition is_space :: "char \<Rightarrow> bool" where
  "is_space c = (c \<in> set [CHR '' '', CHR 0x09, CHR 0x0A, CHR 0x0B, CHR 0x0C, CHR 0x0D])"

definition trim :: "string \<Rightarrow> string" where
  "trim s = rev (dropWhile is_space (rev (dropWhile is_space s)))"

fun position :: "char \<Rightarrow> string \<Rightarrow> nat \<Rightarrow> nat option" where
  "position c [] i = None"
| "position c (d # ds) i = (if c = d then Some i else position c ds (Suc i))"

text \<open>The value of a digit, in either case of the letters.\<close>

definition digit_val :: "char \<Rightarrow> nat option" where
  "digit_val c =
     (case position c ''0123456789abcdef'' 0 of
        Some d \<Rightarrow> Some d
      | None \<Rightarrow> position c ''ABCDEF'' 10)"

definition is_digit :: "nat \<Rightarrow> char \<Rightarrow> bool" where
  "is_digit radix c = (case digit_val c of None \<Rightarrow> False | Some d \<Rightarrow> d < radix)"

definition digits_value :: "nat \<Rightarrow> string \<Rightarrow> nat" where
  "digits_value radix ds = foldl (\<lambda>a c. radix * a + the (digit_val c)) 0 ds"

text \<open>
  \<^verbatim>\<open>parseInt(str)\<close> with no radix: leading white space and a sign are skipped, a
  \<^verbatim>\<open>0x\<close> prefix selects base 16, the longest run of digits is read, and no digit at
  all gives \<^verbatim>\<open>NaN\<close>.
\<close>

definition parseInt :: "string \<Rightarrow> jsnum" where
  "parseInt str =
     (let s = dropWhile is_space str;
          neg = (take 1 s = ''-'');
          s1 = (if take 1 s = ''-'' \<or> take 1 s = ''+'' then drop 1 s else s);
          hex = (take 2 s1 = ''0x'' \<or> take 2 s1 = ''0X'');
          radix = (if hex then 16 else 10);
          s2 = (if hex then drop 2 s1 else s1);
          ds = takeWhile (is_digit radix) s2
      in if ds = [] then NaN
         else Num ((if neg then - 1 else 1) * int (digits_value radix ds)))"

text \<open>\<^verbatim>\<open>s.split(sep)[0]\<close>: what stands before the first occurrence of \<open>sep\<close>.\<close>

fun split_first :: "string \<Rightarrow> string \<Rightarrow> string" where
  "split_first sep [] = []"
| "split_first sep (c # cs) =
     (if take (length sep) (c # cs) = sep then [] else c # split_first sep cs)"

text \<open>\<^verbatim>\<open>s.split('\n')\<close>.\<close>

fun split_lines :: "string \<Rightarrow> string list" where
  "split_lines [] = [[]]"
| "split_lines (c # cs) =
     (if c = CHR 0x0A then [] # split_lines cs
      else (case split_lines cs of [] \<Rightarrow> [[c]] | l # ls \<Rightarrow> (c # l) # ls))"

text \<open>\<^verbatim>\<open>process.env.X || 'default'\<close>: an unset or empty variable gives the default.\<close>

definition or_default :: "string option \<Rightarrow> string \<Rightarrow> string" where
  "or_default v d = (case v of None \<Rightarrow> d | Some x \<Rightarrow> if x = [] then d else x)"

section \<open>The statements and commands the scripts issue\<close>

text \<open>
  The SQL text is built by template strings. Its structure is kept as a syntax tree, one
  constructor per template, so that where \<^verbatim>\<open>ORDER BY\<close>, \<^verbatim>\<open>LIMIT\<close> and \<^verbatim>\<open>OFFSET\<close>
  stand can be read off. Table and column names are taken to be plain identifiers.

  \<open>IdSubquery c t ob l off\<close> is
  \<^verbatim>\<open>SELECT c FROM t [ORDER BY ob] LIMIT l OFFSET off\<close>, and
  \<open>RowFetch t c sub ob\<close> is \<^verbatim>\<open>SELECT * FROM t WHERE c IN (sub) [ORDER BY ob]\<close>.
\<close>

datatype id_subquery = IdSubquery
  (sub_select: string) (sub_from: string) (sub_order_by: "string option")
  (sub_limit: jsnum) (sub_offset: jsnum)

datatype row_fetch = RowFetch
  (fetch_from: string) (fetch_where_col: string) (fetch_in: id_subquery)
  (fetch_order_by: "string option")

text \<open>The page of rows every exporter asks for (the same text in all three).\<close>

definition page_query :: "string \<Rightarrow> string \<Rightarrow> jsnum \<Rightarrow> jsnum \<Rightarrow> row_fetch" where
  "page_query tableName idColumn chunkSize offset =
     RowFetch tableName idColumn
       (IdSubquery idColumn tableName (Some idColumn) chunkSize offset) None"

text \<open>
  An item of a select list: \<open>Transformed g\<close> is
  \<^verbatim>\<open>ST_Transform(g, 4326) as g\<close>, \<open>Column c\<close> is the column \<open>c\<close>.
\<close>

datatype select_item = Transformed string | Column string

fun item_name :: "select_item \<Rightarrow> string" where
  "item_name (Transformed g) = g"
| "item_name (Column c) = c"

text \<open>
  \<^item> \<open>CountRows t\<close>: \<^verbatim>\<open>SELECT count(*) FROM t\<close>;
  \<^item> \<open>ColumnNames t\<close>: \<^verbatim>\<open>SELECT column_name FROM information_schema.columns WHERE table_name = 't'\<close>;
  \<^item> \<open>GeobufHex g items rows\<close>:
    \<^verbatim>\<open>SELECT encode(ST_AsGeobuf(features, 'g'), 'hex') FROM (SELECT items FROM (rows) AS sq) AS features\<close>;
  \<^item> \<open>GeojsonCollection g rows\<close>: the \<^verbatim>\<open>jsonb_build_object\<close> feature collection whose
    features have the geometry \<^verbatim>\<open>ST_AsGeoJSON(ST_Transform(g, 4326))\<close> and the properties
    \<^verbatim>\<open>to_jsonb(properties) - 'g'\<close>, over \<^verbatim>\<open>(rows) AS properties\<close>.
\<close>

datatype query =
    CountRows string
  | ColumnNames string
  | GeobufHex string "select_item list" row_fetch
  | GeojsonCollection string row_fetch

text \<open>
  One constructor per command line:
  \<^item> \<open>Psql q\<close>: \<^verbatim>\<open>psql ... -t -c q\<close>, output captured;
  \<^item> \<open>PsqlToFile q f\<close>: \<^verbatim>\<open>psql ... -t -c q >f 2>/dev/null\<close> (second script);
  \<^item> \<open>PsqlXxdToFile q f\<close>: \<^verbatim>\<open>psql ... -t -c q | xxd -p -r > f\<close> (first script);
  \<^item> \<open>RmRf f\<close>: \<^verbatim>\<open>rm -rf f\<close>;
  \<^item> \<open>Ogr2ogr f rows\<close>: \<^verbatim>\<open>ogr2ogr -t_srs EPSG:4326 -f GeoJSON f PG:... -sql 'rows'\<close>;
  \<^item> \<open>Ogrmerge out pat\<close>: \<^verbatim>\<open>ogrmerge.py -overwrite_ds -single -f GeoJSON -o out pat\<close>;
  \<^item> \<open>FindDelete pat\<close>: \<^verbatim>\<open>find . -name pat -delete\<close>;
  \<^item> \<open>Json2geobuf f out\<close>: \<^verbatim>\<open>json2geobuf f > out\<close>.
\<close>

datatype command =
    Psql query
  | PsqlToFile query string
  | PsqlXxdToFile query string
  | RmRf string
  | Ogr2ogr string row_fetch
  | Ogrmerge string string
  | FindDelete string
  | Json2geobuf string string

text \<open>
  What zx gives back for a finished process: the exit code, the standard output, and
  the whole output, which is what \<^verbatim>\<open>`${e}`\<close> prints for a rejected process.
\<close>

record proc_output =
  exitCode :: nat
  stdout :: string
  combined :: string

text \<open>
  The external programs are a parameter: \<open>exec c w\<close> runs command \<open>c\<close> in the world
  \<open>w\<close> (database, file system) and gives its output and the world it leaves.
\<close>

type_synonym 'w tools = "command \<Rightarrow> 'w \<Rightarrow> proc_output \<times> 'w"

text \<open>The functions of the scripts, as they tag their console lines.\<close>

datatype fn =
    QueryPostgres
  | TableToGeobufChunks
  | TableToGeojsonChunks
  | TableToGeojsonChunksOgr2ogr
  | MergeGeojson
  | GeojsonToGeobuf

text \<open>
  The labels of \<^verbatim>\<open>console.time\<close>:
  \<open>Executed q\<close> is \<^verbatim>\<open>[queryPostgres] Executed query: q\<close>,
  \<open>Exported f q\<close> is \<^verbatim>\<open>[queryPostgres] Exported query to file f: q\<close>,
  \<open>Created fn t f\<close> is \<^verbatim>\<open>[fn] Created t in f\<close>,
  \<open>Processed n\<close> is \<^verbatim>\<open>[tableToGeojsonChunksOgr2ogr] Processed n\<close>,
  \<open>Merged f\<close> is \<^verbatim>\<open>[mergeGeojson] Merged chunks to f\<close>,
  \<open>Converted f g\<close> is \<^verbatim>\<open>[geojsonToGeobuf] Converted f to g\<close>.
\<close>

datatype label =
    Executed query
  | Exported string query
  | Created fn string string
  | Processed jsnum
  | Merged string
  | Converted string string

text \<open>
  The lines written to the console: \<open>TimeEnd l\<close> by \<^verbatim>\<open>console.timeEnd(l)\<close>,
  \<open>Processing n\<close> by \<^verbatim>\<open>console.log(`Processing ${offset}`)\<close>, and \<open>Error fn e\<close> by
  \<^verbatim>\<open>console.log(`[fn] Error: ${e}`)\<close>. \<^verbatim>\<open>console.time\<close> prints nothing.
\<close>

datatype console_line =
    TimeEnd label
  | Processing jsnum
  | Error fn string

text \<open>
  The state of a run: the world, the commands run so far with their exit codes, and
  the console.
\<close>

record 'w state =
  world :: 'w
  trace :: "(command \<times> nat) list"
  console :: "console_line list"

definition init :: "'w \<Rightarrow> 'w state" where
  "init w = \<lparr>world = w, trace = [], console = []\<rparr>"

definition say :: "console_line \<Rightarrow> 'w state \<Rightarrow> 'w state" where
  "say l s = s\<lparr>console := console s @ [l]\<rparr>"

text \<open>
  How a piece of script ends: it returns a value, it throws the output of a rejected
  process, or it has called \<^verbatim>\<open>process.exit\<close>.
\<close>

datatype ('a, 's) outcome = Return 'a 's | Throw proc_output 's | Exit nat 's

text \<open>\<^verbatim>\<open>await $`c`\<close>: the promise is rejected when the exit code is not 0.\<close>

definition dollar :: "'w tools \<Rightarrow> command \<Rightarrow> 'w state \<Rightarrow> (proc_output, 'w state) outcome" where
  "dollar exec c s =
     (let r = exec c (world s);
          s' = s\<lparr>world := snd r, trace := trace s @ [(c, exitCode (fst r))]\<rparr>
      in if exitCode (fst r) = 0 then Return (fst r) s' else Throw (fst r) s')"

text \<open>
  The \<^verbatim>\<open>catch\<close> block every function ends with:
  \<^verbatim>\<open>console.timeEnd(l); console.log(`[fn] Error: ${e}`); process.exit(1)\<close>.
\<close>

definition catch_exit :: "fn \<Rightarrow> label \<Rightarrow> ('a, 'w state) outcome \<Rightarrow> ('a, 'w state) outcome" where
  "catch_exit f l r =
     (case r of
        Throw e s \<Rightarrow> Exit 1 (say (Error f (combined e)) (say (TimeEnd l) s))
      | _ \<Rightarrow> r)"

text \<open>Sequencing of awaited steps: a throw or an exit skips what follows.\<close>

definition then_do ::
  "('a, 's) outcome \<Rightarrow> ('a \<Rightarrow> 's \<Rightarrow> ('b, 's) outcome) \<Rightarrow> ('b, 's) outcome" where
  "then_do r f =
     (case r of Return a s \<Rightarrow> f a s | Throw e s \<Rightarrow> Throw e s | Exit n s \<Rightarrow> Exit n s)"

section \<open>The loop over chunk offsets\<close>

text \<open>
  The three exporters share one loop, word for word:
  \<^verbatim>\<open>let offset = 0; while (true) { if (offset > count) break; BODY; offset += chunkSize; }\<close>.
  Nothing bounds it when \<open>chunkSize\<close> is not positive or a number is \<^verbatim>\<open>NaN\<close>, so it
  is a partial function: \<open>None\<close> is the run that never ends.
\<close>

partial_function (option) chunk_loop ::
  "(jsnum \<Rightarrow> 's \<Rightarrow> (unit, 's) outcome) \<Rightarrow> jsnum \<Rightarrow> jsnum \<Rightarrow> jsnum \<Rightarrow> 's
     \<Rightarrow> (unit, 's) outcome option" where
  "chunk_loop body count chunkSize offset s =
     (if js_gt offset count then Some (Return () s)
      else (case body offset s of
              Return u s' \<Rightarrow> chunk_loop body count chunkSize (js_add offset chunkSize) s'
            | Throw e s' \<Rightarrow> Some (Throw e s')
            | Exit n s' \<Rightarrow> Some (Exit n s')))"

section \<open>The GeoJSON pipeline (second script)\<close>

text \<open>
  \<open>queryPostgres\<close> runs a statement, into a file when a path is given. A rejected
  process is caught on the spot: the label (which holds the statement) and the error are
  printed and the program exits with status 1.
\<close>

definition queryPostgres ::
  "'w tools \<Rightarrow> query \<Rightarrow> string \<Rightarrow> 'w state \<Rightarrow> (proc_output, 'w state) outcome" where
  "queryPostgres exec query filePath s =
     (if length filePath = 0 then
        catch_exit QueryPostgres (Executed query)
          (then_do (dollar exec (Psql query) s)
             (\<lambda>output s'. Return output (say (TimeEnd (Executed query)) s')))
      else
        catch_exit QueryPostgres (Exported filePath query)
          (then_do (dollar exec (PsqlToFile query filePath) s)
             (\<lambda>output s'. Return output (say (TimeEnd (Exported filePath query)) s'))))"

text \<open>The name of the chunk file at an offset: \<^verbatim>\<open>`${baseFilePath}_${offset}.geojson`\<close>.\<close>

definition chunk_path :: "string \<Rightarrow> jsnum \<Rightarrow> string \<Rightarrow> string" where
  "chunk_path baseFilePath offset ext = baseFilePath @ ''_'' @ js_toString offset @ ext"

text \<open>The body of the loop of \<open>tableToGeojsonChunks\<close> (lines 207 to 231).\<close>

definition geojson_chunk ::
  "'w tools \<Rightarrow> string \<Rightarrow> string \<Rightarrow> string \<Rightarrow> jsnum \<Rightarrow> string \<Rightarrow> jsnum \<Rightarrow> 'w state
     \<Rightarrow> (unit, 'w state) outcome" where
  "geojson_chunk exec tableName geomColumn idColumn chunkSize baseFilePath offset s =
     (let partFilePath = chunk_path baseFilePath offset ''.geojson'' in
      then_do (dollar exec (RmRf partFilePath) s)
        (\<lambda>_ s1. then_do
           (queryPostgres exec
              (GeojsonCollection geomColumn (page_query tableName idColumn chunkSize offset))
              partFilePath s1)
           (\<lambda>_ s2. Return () s2)))"

definition tableToGeojsonChunks ::
  "'w tools \<Rightarrow> string \<Rightarrow> string \<Rightarrow> string \<Rightarrow> jsnum \<Rightarrow> string \<Rightarrow> 'w state
     \<Rightarrow> (string, 'w state) outcome option" where
  "tableToGeojsonChunks exec tableName geomColumn idColumn chunkSize filePath s =
     (let baseFilePath = split_first ''.geojson'' filePath;
          l = Created TableToGeojsonChunks tableName filePath
      in map_option (catch_exit TableToGeojsonChunks l)
           (case queryPostgres exec (CountRows tableName) [] s of
              Return countStr s1 \<Rightarrow>
                (let count = parseInt (trim (stdout countStr)) in
                 case chunk_loop
                        (geojson_chunk exec tableName geomColumn idColumn chunkSize baseFilePath)
                        count chunkSize (Num 0) s1 of
                   None \<Rightarrow> None
                 | Some r \<Rightarrow> Some (then_do r (\<lambda>_ s2. Return filePath (say (TimeEnd l) s2))))
            | Throw e s1 \<Rightarrow> Some (Throw e s1)
            | Exit n s1 \<Rightarrow> Some (Exit n s1)))"

text \<open>The body of the loop of \<open>tableToGeojsonChunksOgr2ogr\<close> (lines 261 to 278).\<close>

definition ogr2ogr_chunk ::
  "'w tools \<Rightarrow> string \<Rightarrow> string \<Rightarrow> jsnum \<Rightarrow> string \<Rightarrow> jsnum \<Rightarrow> 'w state
     \<Rightarrow> (unit, 'w state) outcome" where
  "ogr2ogr_chunk exec tableName idColumn chunkSize baseFilePath offset s =
     (let partFilePath = chunk_path baseFilePath offset ''.geojson'' in
      then_do (dollar exec (RmRf partFilePath) s)
        (\<lambda>_ s1. then_do
           (dollar exec (Ogr2ogr partFilePath (page_query tableName idColumn chunkSize offset))
              (say (Processing offset) s1))
           (\<lambda>_ s2. Return () (say (TimeEnd (Processed offset)) s2))))"

definition tableToGeojsonChunksOgr2ogr ::
  "'w tools \<Rightarrow> string \<Rightarrow> string \<Rightarrow> jsnum \<Rightarrow> string \<Rightarrow> 'w state
     \<Rightarrow> (string, 'w state) outcome option" where
  "tableToGeojsonChunksOgr2ogr exec tableName idColumn chunkSize filePath s =
     (let baseFilePath = split_first ''.geojson'' filePath;
          l = Created TableToGeojsonChunksOgr2ogr tableName filePath
      in map_option (catch_exit TableToGeojsonChunksOgr2ogr l)
           (case queryPostgres exec (CountRows tableName) [] s of
              Return countStr s1 \<Rightarrow>
                (let count = parseInt (trim (stdout countStr)) in
                 case chunk_loop (ogr2ogr_chunk exec tableName idColumn chunkSize baseFilePath)
                        count chunkSize (Num 0) s1 of
                   None \<Rightarrow> None
                 | Some r \<Rightarrow> Some (then_do r (\<lambda>_ s2. Return filePath (say (TimeEnd l) s2))))
            | Throw e s1 \<Rightarrow> Some (Throw e s1)
            | Exit n s1 \<Rightarrow> Some (Exit n s1)))"

text \<open>
  \<open>mergeGeojson\<close>: the merge command, then the deletion by name pattern. Nothing stands
  between the two, and nothing is printed when both succeed.
\<close>

definition mergeGeojson ::
  "'w tools \<Rightarrow> string \<Rightarrow> 'w state \<Rightarrow> (string, 'w state) outcome" where
  "mergeGeojson exec filePath s =
     (let baseFilePath = split_first ''.geojson'' filePath;
          chunksPattern = baseFilePath @ ''_*.geojson''
      in catch_exit MergeGeojson (Merged filePath)
           (then_do (dollar exec (Ogrmerge filePath chunksPattern) s)
              (\<lambda>_ s1. then_do (dollar exec (FindDelete chunksPattern) s1)
                 (\<lambda>_ s2. Return filePath s2))))"

definition geojsonToGeobuf ::
  "'w tools \<Rightarrow> string \<Rightarrow> 'w state \<Rightarrow> (string, 'w state) outcome" where
  "geojsonToGeobuf exec filePath s =
     (let baseFilePath = split_first ''.geojson'' filePath;
          outputPath = baseFilePath @ ''.gbf''
      in catch_exit GeojsonToGeobuf (Converted filePath outputPath)
           (then_do (dollar exec (Json2geobuf filePath outputPath) s)
              (\<lambda>_ s1. Return outputPath s1)))"

text \<open>
  The exit status of the process: 0 when the script runs to its end, the argument of
  \<^verbatim>\<open>process.exit\<close> otherwise, and 1 for a rejection nobody caught.
\<close>

fun exit_status :: "('a, 's) outcome \<Rightarrow> nat \<times> 's" where
  "exit_status (Return a s) = (0, s)"
| "exit_status (Throw e s) = (1, s)"
| "exit_status (Exit n s) = (n, s)"

text \<open>
  The constants of the top level (lines 329 to 333), read from \<^verbatim>\<open>process.env\<close>
  (\<open>env\<close> here). The geometry column is read too, but only the exporter that is
  commented out takes it.
\<close>

definition table_name :: "(string \<Rightarrow> string option) \<Rightarrow> string" where
  "table_name env = or_default (env ''TABLE_NAME'') ''table''"

definition geom_column :: "(string \<Rightarrow> string option) \<Rightarrow> string" where
  "geom_column env = or_default (env ''GEOM_COLUMN'') ''geom''"

definition id_column :: "(string \<Rightarrow> string option) \<Rightarrow> string" where
  "id_column env = or_default (env ''ID_COLUMN'') ''id''"

definition chunk_size :: "(string \<Rightarrow> string option) \<Rightarrow> jsnum" where
  "chunk_size env = parseInt (or_default (env ''CHUNK_SIZE'') ''1000000'')"

text \<open>The three awaited calls of lines 335 to 337, on \<^verbatim>\<open>'layer.geojson'\<close>.\<close>

definition main :: "'w tools \<Rightarrow> (string \<Rightarrow> string option) \<Rightarrow> 'w \<Rightarrow> (nat \<times> 'w state) option" where
  "main exec env w =
     (let filePath = ''layer.geojson'' in
      case tableToGeojsonChunksOgr2ogr exec (table_name env) (id_column env) (chunk_size env)
             filePath (init w) of
        None \<Rightarrow> None
      | Some r \<Rightarrow>
          Some (exit_status
            (then_do r (\<lambda>_ s1. then_do (mergeGeojson exec filePath s1)
               (\<lambda>_ s2. geojsonToGeobuf exec filePath s2)))))"

section \<open>The Geobuf exporter (first script)\<close>

text \<open>
  Its \<open>queryPostgres\<close> differs in one place: the output of \<^verbatim>\<open>psql\<close> goes through
  \<^verbatim>\<open>xxd -p -r\<close> before it reaches the file.
\<close>

definition queryPostgres_gbf ::
  "'w tools \<Rightarrow> query \<Rightarrow> string \<Rightarrow> 'w state \<Rightarrow> (proc_output, 'w state) outcome" where
  "queryPostgres_gbf exec query filePath s =
     (if length filePath = 0 then
        catch_exit QueryPostgres (Executed query)
          (then_do (dollar exec (Psql query) s)
             (\<lambda>output s'. Return output (say (TimeEnd (Executed query)) s')))
      else
        catch_exit QueryPostgres (Exported filePath query)
          (then_do (dollar exec (PsqlXxdToFile query filePath) s)
             (\<lambda>output s'. Return output (say (TimeEnd (Exported filePath query)) s'))))"

text \<open>
  \<^verbatim>\<open>columns.stdout.trim().split('\n').map(p => p.trim()).filter(p => ![idColumn, geomColumn].includes(p))\<close>
\<close>

definition properties_of :: "string \<Rightarrow> string \<Rightarrow> string \<Rightarrow> string list" where
  "properties_of idColumn geomColumn out =
     filter (\<lambda>property. \<not> (property \<in> set [idColumn, geomColumn]))
       (map trim (split_lines (trim out)))"

text \<open>
  The select list of the inner query (lines 89 to 91): the transformed geometry, the
  identifier, and the properties when there are any.
\<close>

definition geobuf_items :: "string \<Rightarrow> string \<Rightarrow> string list \<Rightarrow> select_item list" where
  "geobuf_items idColumn geomColumn properties =
     [Transformed geomColumn, Column idColumn]
       @ (if length properties > 0 then map Column properties else [])"

definition geobuf_chunk ::
  "'w tools \<Rightarrow> string \<Rightarrow> string \<Rightarrow> string \<Rightarrow> jsnum \<Rightarrow> string \<Rightarrow> string list \<Rightarrow> jsnum
     \<Rightarrow> 'w state \<Rightarrow> (unit, 'w state) outcome" where
  "geobuf_chunk exec tableName idColumn geomColumn chunkSize baseFilePath properties offset s =
     (let partFilePath = chunk_path baseFilePath offset ''.gbf'' in
      then_do
        (queryPostgres_gbf exec
           (GeobufHex geomColumn (geobuf_items idColumn geomColumn properties)
              (page_query tableName idColumn chunkSize offset))
           partFilePath s)
        (\<lambda>_ s1. Return () s1))"

definition tableToGeobufChunks ::
  "'w tools \<Rightarrow> string \<Rightarrow> string \<Rightarrow> string \<Rightarrow> jsnum \<Rightarrow> string \<Rightarrow> 'w state
     \<Rightarrow> (string, 'w state) outcome option" where
  "tableToGeobufChunks exec tableName idColumn geomColumn chunkSize filePath s =
     (let baseFilePath = split_first ''.gbf'' filePath;
          l = Created TableToGeobufChunks tableName filePath
      in map_option (catch_exit TableToGeobufChunks l)
           (case queryPostgres_gbf exec (CountRows tableName) [] s of
              Return countStr s1 \<Rightarrow>
                (let count = parseInt (trim (stdout countStr)) in
                 case queryPostgres_gbf exec (ColumnNames tableName) [] s1 of
                   Return columns s2 \<Rightarrow>
                     (let properties = properties_of idColumn geomColumn (stdout columns) in
                      case chunk_loop
                             (geobuf_chunk exec tableName idColumn geomColumn chunkSize
                                baseFilePath properties)
                             count chunkSize (Num 0) s2 of
                        None \<Rightarrow> None
                      | Some r \<Rightarrow>
                          Some (then_do r (\<lambda>_ s3. Return filePath (say (TimeEnd l) s3))))
                 | Throw e s2 \<Rightarrow> Some (Throw e s2)
                 | Exit n s2 \<Rightarrow> Some (Exit n s2))
            | Throw e s1 \<Rightarrow> Some (Throw e s1)
            | Exit n s1 \<Rightarrow> Some (Exit n s1)))"

section \<open>What the SQL and the tools are taken to do\<close>

text \<open>
  The attributes a feature gets from a chunk statement, given the columns of the table.
  \<^verbatim>\<open>ST_AsGeobuf(row, g)\<close> makes a property of every column of the row but \<open>g\<close>;
  \<^verbatim>\<open>to_jsonb(row) - 'g'\<close> is the whole row without the key \<open>g\<close>.
\<close>

fun feature_properties :: "string list \<Rightarrow> query \<Rightarrow> string list" where
  "feature_properties cols (GeobufHex g items rows) = filter (\<lambda>n. n \<noteq> g) (map item_name items)"
| "feature_properties cols (GeojsonCollection g rows) = filter (\<lambda>n. n \<noteq> g) cols"
| "feature_properties cols _ = []"

text \<open>
  The hexadecimal path of the first script: \<^verbatim>\<open>encode(bytes, 'hex')\<close> in the database,
  the value as \<^verbatim>\<open>psql -t\<close> prints it (a space before, a newline and an empty line
  after), and \<^verbatim>\<open>xxd -p -r\<close>, which reads pairs of hexadecimal digits and skips
  everything else.
\<close>

definition encode_hex :: "8 word list \<Rightarrow> string" where
  "encode_hex bs = concat (map (\<lambda>b. [digit_char (unat b div 16), digit_char (unat b mod 16)]) bs)"

definition psql_t :: "string \<Rightarrow> string" where
  "psql_t v = CHR '' '' # v @ [CHR 0x0A, CHR 0x0A]"

fun pair_up :: "nat list \<Rightarrow> 8 word list" where
  "pair_up (h # l # r) = of_nat (16 * h + l) # pair_up r"
| "pair_up _ = []"

definition xxd_p_r :: "string \<Rightarrow> 8 word list" where
  "xxd_p_r s = pair_up (map (\<lambda>c. the (digit_val c)) (filter (is_digit 16) s))"

text \<open>
  \<^verbatim>\<open>find . -name pat\<close> compares the last component of a path with the pattern, where
  \<^verbatim>\<open>*\<close> stands for any run of characters and \<^verbatim>\<open>?\<close> for one (bracket expressions
  and escapes are left out; the pattern of the pipeline has none).
\<close>

definition basename :: "string \<Rightarrow> string" where
  "basename p = rev (takeWhile (\<lambda>c. c \<noteq> CHR ''/'') (rev p))"

fun glob_match :: "string \<Rightarrow> string \<Rightarrow> bool" where
  "glob_match [] s = (s = [])"
| "glob_match (p # ps) [] = (p = CHR ''*'' \<and> glob_match ps [])"
| "glob_match (p # ps) (c # cs) =
     (if p = CHR ''*'' then glob_match ps (c # cs) \<or> glob_match (p # ps) cs
      else if p = CHR ''?'' then glob_match ps cs
      else p = c \<and> glob_match ps cs)"

text \<open>
  Assumptions on the tools, for the claims about files. \<open>present w f\<close> says that the
  path \<open>f\<close> (relative to the working directory) exists in the world \<open>w\<close>.
  \<^item> \<^verbatim>\<open>rm -rf f\<close> and \<^verbatim>\<open>ogr2ogr ... f\<close> leave every other path as it is;
  \<^item> \<^verbatim>\<open>ogr2ogr\<close> that exits with 0 has written its output file;
  \<^item> \<^verbatim>\<open>ogr2ogr\<close> that fails leaves what it had written of its output file;
  \<^item> \<^verbatim>\<open>find . -name pat -delete\<close> that exits with 0 has removed the paths whose last
    component matches, and no other.
\<close>

definition touches_only_target :: "('w \<Rightarrow> string \<Rightarrow> bool) \<Rightarrow> 'w tools \<Rightarrow> bool" where
  "touches_only_target present exec \<longleftrightarrow>
     (\<forall>f w g. g \<noteq> f \<longrightarrow> present (snd (exec (RmRf f) w)) g = present w g) \<and>
     (\<forall>f q w g. g \<noteq> f \<longrightarrow> present (snd (exec (Ogr2ogr f q) w)) g = present w g)"

definition ogr2ogr_writes :: "('w \<Rightarrow> string \<Rightarrow> bool) \<Rightarrow> 'w tools \<Rightarrow> bool" where
  "ogr2ogr_writes present exec \<longleftrightarrow>
     (\<forall>f q w. exitCode (fst (exec (Ogr2ogr f q) w)) = 0 \<longrightarrow> present (snd (exec (Ogr2ogr f q) w)) f)"

definition ogr2ogr_leaves_partial :: "('w \<Rightarrow> string \<Rightarrow> bool) \<Rightarrow> 'w tools \<Rightarrow> bool" where
  "ogr2ogr_leaves_partial present exec \<longleftrightarrow>
     (\<forall>f q w. exitCode (fst (exec (Ogr2ogr f q) w)) \<noteq> 0 \<longrightarrow> present (snd (exec (Ogr2ogr f q) w)) f)"

definition find_deletes_by_name :: "('w \<Rightarrow> string \<Rightarrow> bool) \<Rightarrow> 'w tools \<Rightarrow> bool" where
  "find_deletes_by_name present exec \<longleftrightarrow>
     (\<forall>pat w. exitCode (fst (exec (FindDelete pat) w)) = 0 \<longrightarrow>
        (\<forall>f. present (snd (exec (FindDelete pat) w)) f
              = (present w f \<and> \<not> glob_match pat (basename f))))"

text \<open>
  Assumptions on the tools, for the claim about what a chunk file of the first script
  holds. \<open>content w f\<close> is what the file at path \<open>f\<close> holds in the world \<open>w\<close>, as
  bytes; \<open>geobuf w g items rows\<close> is the value of \<^verbatim>\<open>ST_AsGeobuf(features, 'g')\<close> in
  the world \<open>w\<close>, where \<open>features\<close> are the rows \<open>rows\<close> with the items \<open>items\<close>.
  \<^item> \<^verbatim>\<open>psql -t -c q | xxd -p -r > f\<close> exits with 0 only when \<^verbatim>\<open>psql\<close> does (the
    shell of \<^verbatim>\<open>zx\<close> runs with \<^verbatim>\<open>pipefail\<close>), and then \<open>f\<close> holds what
    \<^verbatim>\<open>xxd -p -r\<close> makes of what \<^verbatim>\<open>psql -t -c q\<close> prints in that world; whether it
    succeeds or not, it leaves every other file as it is;
  \<^item> \<^verbatim>\<open>psql -t\<close> that exits with 0 on a statement
    \<^verbatim>\<open>SELECT encode(ST_AsGeobuf(features, 'g'), 'hex') ...\<close> prints the one value of the
    statement: the bytes in hexadecimal.
  \<open>text_bytes\<close> is a text as the bytes of its characters.
\<close>

definition xxd_pipe_writes :: "('w \<Rightarrow> string \<Rightarrow> 8 word list option) \<Rightarrow> 'w tools \<Rightarrow> bool" where
  "xxd_pipe_writes content exec \<longleftrightarrow>
     (\<forall>q f w. exitCode (fst (exec (PsqlXxdToFile q f) w)) = 0 \<longrightarrow>
        exitCode (fst (exec (Psql q) w)) = 0 \<and>
        content (snd (exec (PsqlXxdToFile q f) w)) f
          = Some (xxd_p_r (stdout (fst (exec (Psql q) w))))) \<and>
     (\<forall>q f w g. g \<noteq> f \<longrightarrow> content (snd (exec (PsqlXxdToFile q f) w)) g = content w g)"

definition psql_prints_hex ::
  "('w \<Rightarrow> string \<Rightarrow> select_item list \<Rightarrow> row_fetch \<Rightarrow> 8 word list) \<Rightarrow> 'w tools \<Rightarrow> bool" where
  "psql_prints_hex geobuf exec \<longleftrightarrow>
     (\<forall>g items rows w. exitCode (fst (exec (Psql (GeobufHex g items rows)) w)) = 0 \<longrightarrow>
        stdout (fst (exec (Psql (GeobufHex g items rows)) w))
          = psql_t (encode_hex (geobuf w g items rows)))"

definition text_bytes :: "string \<Rightarrow> 8 word list" where
  "text_bytes s = map of_char s"

section \<open>A simulated set of tools\<close>

text \<open>
  A small world to run the scripts in: the list of the paths that exist. The table has
  \<open>rows\<close> rows and the columns \<open>cols\<close>; the commands in \<open>fails\<close> exit with 1, every
  other with 0. A failing command that writes its output through the shell or on its own
  leaves the file behind.
\<close>

definition succeeded :: "string \<Rightarrow> proc_output" where
  "succeeded out = \<lparr>exitCode = 0, stdout = out, combined = out\<rparr>"

definition failed :: "string \<Rightarrow> proc_output" where
  "failed msg = \<lparr>exitCode = 1, stdout = [], combined = msg\<rparr>"

fun sim_stdout :: "nat \<Rightarrow> string list \<Rightarrow> command \<Rightarrow> string" where
  "sim_stdout rows cols (Psql (CountRows t)) = psql_t (show_nat rows)"
| "sim_stdout rows cols (Psql (ColumnNames t)) =
     concat (map (\<lambda>c. CHR '' '' # c @ [CHR 0x0A]) cols) @ [CHR 0x0A]"
| "sim_stdout rows cols c = []"

fun sim_effect :: "command \<Rightarrow> string list \<Rightarrow> string list" where
  "sim_effect (Psql q) fs = fs"
| "sim_effect (PsqlToFile q f) fs = List.insert f fs"
| "sim_effect (PsqlXxdToFile q f) fs = List.insert f fs"
| "sim_effect (RmRf f) fs = removeAll f fs"
| "sim_effect (Ogr2ogr f q) fs = List.insert f fs"
| "sim_effect (Ogrmerge out pat) fs = List.insert out fs"
| "sim_effect (FindDelete pat) fs = filter (\<lambda>f. \<not> glob_match pat (basename f)) fs"
| "sim_effect (Json2geobuf f out) fs = List.insert out fs"

fun sim_leftover :: "command \<Rightarrow> string list \<Rightarrow> string list" where
  "sim_leftover (PsqlToFile q f) fs = List.insert f fs"
| "sim_leftover (PsqlXxdToFile q f) fs = List.insert f fs"
| "sim_leftover (Ogr2ogr f q) fs = List.insert f fs"
| "sim_leftover (Json2geobuf f out) fs = List.insert out fs"
| "sim_leftover c fs = fs"

definition sim :: "nat \<Rightarrow> string list \<Rightarrow> (command \<Rightarrow> bool) \<Rightarrow> string list tools" where
  "sim rows cols fails c fs =
     (if fails c then (failed ''error'', sim_leftover c fs)
      else (succeeded (sim_stdout rows cols c), sim_effect c fs))"

definition listed :: "string list \<Rightarrow> string \<Rightarrow> bool" where
  "listed fs f = (f \<in> set fs)"

text \<open>A merge tool that reports success and writes nothing; all else as in \<open>sim\<close>.\<close>

definition sim_silent_merge :: "string list tools" where
  "sim_silent_merge c fs =
     (case c of
        Ogrmerge out pat \<Rightarrow> (succeeded [], fs)
      | _ \<Rightarrow> sim 0 [] (\<lambda>_. False) c fs)"

text \<open>Which commands fail in the examples: the export of the chunk at one path.\<close>

fun fails_ogr2ogr_at :: "string \<Rightarrow> command \<Rightarrow> bool" where
  "fails_ogr2ogr_at f (Ogr2ogr g q) = (g = f)"
| "fails_ogr2ogr_at f c = False"

fun fails_merge :: "command \<Rightarrow> bool" where
  "fails_merge (Ogrmerge out pat) = True"
| "fails_merge c = False"

text \<open>No command fails.\<close>

definition no_failure :: "command \<Rightarrow> bool" where
  "no_failure = (\<lambda>_. False)"

definition env_chunk4 :: "string \<Rightarrow> string option" where
  "env_chunk4 = (\<lambda>_. None)(''CHUNK_SIZE'' := Some ''4'')"

text \<open>
  Tools that keep what the files hold: the world is a list of paths with their bytes, the
  first entry of a path counting. The Geobuf of every chunk is \<open>bytes_example\<close>; no
  command fails.
\<close>

definition bytes_example :: "8 word list" where
  "bytes_example = [0x00, 0x0A, 0xFF]"

definition geobuf_example ::
  "(string \<times> 8 word list) list \<Rightarrow> string \<Rightarrow> select_item list \<Rightarrow> row_fetch \<Rightarrow> 8 word list" where
  "geobuf_example w g items rows = bytes_example"

fun sim_store_stdout :: "nat \<Rightarrow> string list \<Rightarrow> query \<Rightarrow> string" where
  "sim_store_stdout rows cols (GeobufHex g items q) = psql_t (encode_hex bytes_example)"
| "sim_store_stdout rows cols q = sim_stdout rows cols (Psql q)"

fun sim_store :: "nat \<Rightarrow> string list \<Rightarrow> (string \<times> 8 word list) list tools" where
  "sim_store rows cols (Psql q) fs = (succeeded (sim_store_stdout rows cols q), fs)"
| "sim_store rows cols (PsqlXxdToFile q f) fs =
     (succeeded [], (f, xxd_p_r (sim_store_stdout rows cols q)) # fs)"
| "sim_store rows cols c fs = (succeeded [], fs)"

definition stored :: "(string \<times> 8 word list) list \<Rightarrow> string \<Rightarrow> 8 word list option" where
  "stored fs f = map_of fs f"

section \<open>Plans: the commands a run issues\<close>

text \<open>
  The loop unrolled over an explicit list of offsets, and the offsets the loop visits
  from \<open>off\<close> on when the count is \<open>r\<close> and the chunk size \<open>c\<close>.
\<close>

fun run_chunks :: "(jsnum \<Rightarrow> 's \<Rightarrow> (unit, 's) outcome) \<Rightarrow> jsnum list \<Rightarrow> 's \<Rightarrow> (unit, 's) outcome" where
  "run_chunks body [] s = Return () s"
| "run_chunks body (x # xs) s = then_do (body x s) (\<lambda>_ s'. run_chunks body xs s')"

definition offsets_from :: "int \<Rightarrow> int \<Rightarrow> int \<Rightarrow> jsnum list" where
  "offsets_from off r c = map (\<lambda>k. Num (off + int k * c)) [0..<nat ((r - off) div c + 1)]"

text \<open>
  \<open>replay\<close> runs commands one after the other whatever their exit codes;
  \<open>succeed\<close> says that each of them exits with 0 in the world it meets.
\<close>

definition replay :: "'w tools \<Rightarrow> 'w \<Rightarrow> command list \<Rightarrow> 'w" where
  "replay exec w cs = foldl (\<lambda>w c. snd (exec c w)) w cs"

fun succeed :: "'w tools \<Rightarrow> 'w \<Rightarrow> command list \<Rightarrow> bool" where
  "succeed exec w [] = True"
| "succeed exec w (c # cs) = (exitCode (fst (exec c w)) = 0 \<and> succeed exec (snd (exec c w)) cs)"

text \<open>
  A state is \<open>good\<close> for a list of commands when they are what has run so far, all with
  exit code 0; it is \<open>thrown\<close> when one more command has run and failed with output
  \<open>e\<close>; it is \<open>exited\<close> when, after that, the two lines of the \<^verbatim>\<open>catch\<close> block in
  charge (given by \<open>H\<close>) are the last of the console.
\<close>

definition good :: "'w tools \<Rightarrow> 'w \<Rightarrow> command list \<Rightarrow> 'w state \<Rightarrow> bool" where
  "good exec w0 cs s \<longleftrightarrow>
     succeed exec w0 cs \<and> trace s = map (\<lambda>c. (c, 0)) cs \<and> world s = replay exec w0 cs"

definition thrown ::
  "'w tools \<Rightarrow> 'w \<Rightarrow> command list \<Rightarrow> command \<Rightarrow> proc_output \<Rightarrow> 'w state \<Rightarrow> bool" where
  "thrown exec w0 cs c e s \<longleftrightarrow>
     succeed exec w0 cs \<and> e = fst (exec c (replay exec w0 cs)) \<and> exitCode e \<noteq> 0 \<and>
     trace s = map (\<lambda>c. (c, 0)) cs @ [(c, exitCode e)] \<and>
     world s = replay exec w0 (cs @ [c])"

definition exited ::
  "'w tools \<Rightarrow> (command \<Rightarrow> label \<times> fn) \<Rightarrow> 'w \<Rightarrow> command list \<Rightarrow> command \<Rightarrow> 'w state \<Rightarrow> bool" where
  "exited exec H w0 cs c s \<longleftrightarrow>
     (\<exists>e. thrown exec w0 cs c e s \<and>
        (\<exists>pre. console s = pre @ [TimeEnd (fst (H c)), Error (snd (H c)) (combined e)]))"

text \<open>
  An outcome \<open>follows\<close> the plan \<open>cmds\<close> after \<open>pre\<close> when it returns with all of the
  plan run, or stops at the first command of the plan that fails.
\<close>

definition follows ::
  "'w tools \<Rightarrow> (command \<Rightarrow> label \<times> fn) \<Rightarrow> (command \<Rightarrow> bool) \<Rightarrow> 'w \<Rightarrow> command list
     \<Rightarrow> command list \<Rightarrow> ('a, 'w state) outcome \<Rightarrow> bool" where
  "follows exec H P w0 pre cmds r \<longleftrightarrow>
     (case r of
        Return a s \<Rightarrow> good exec w0 (pre @ cmds) s
      | Throw e s \<Rightarrow> (\<exists>ys c zs. cmds = ys @ c # zs \<and> P c \<and> thrown exec w0 (pre @ ys) c e s)
      | Exit n s \<Rightarrow> n = 1 \<and> (\<exists>ys c zs. cmds = ys @ c # zs \<and> exited exec H w0 (pre @ ys) c s))"

text \<open>
  The label and the tag of the two lines printed when a command fails, for the exporter
  \<open>F\<close> working on table \<open>t\<close> and file \<open>fp\<close>: statements are caught inside
  \<open>queryPostgres\<close>, every other command by the function that issued it.
\<close>

fun diagnostic :: "fn \<Rightarrow> string \<Rightarrow> string \<Rightarrow> command \<Rightarrow> label \<times> fn" where
  "diagnostic F t fp (Psql q) = (Executed q, QueryPostgres)"
| "diagnostic F t fp (PsqlToFile q f) = (Exported f q, QueryPostgres)"
| "diagnostic F t fp (PsqlXxdToFile q f) = (Exported f q, QueryPostgres)"
| "diagnostic F t fp (RmRf f) = (Created F t fp, F)"
| "diagnostic F t fp (Ogr2ogr f q) = (Created F t fp, F)"
| "diagnostic F t fp (Ogrmerge out pat) = (Merged out, MergeGeojson)"
| "diagnostic F t fp (FindDelete pat) = (Merged fp, MergeGeojson)"
| "diagnostic F t fp (Json2geobuf f out) = (Converted f out, GeojsonToGeobuf)"

text \<open>The commands of one chunk, per exporter, and of the whole pipeline.\<close>

definition ogr2ogr_cmds :: "string \<Rightarrow> string \<Rightarrow> jsnum \<Rightarrow> string \<Rightarrow> jsnum \<Rightarrow> command list" where
  "ogr2ogr_cmds tableName idColumn chunkSize baseFilePath offset =
     [RmRf (chunk_path baseFilePath offset ''.geojson''),
      Ogr2ogr (chunk_path baseFilePath offset ''.geojson'')
        (page_query tableName idColumn chunkSize offset)]"

definition geojson_cmds ::
  "string \<Rightarrow> string \<Rightarrow> string \<Rightarrow> jsnum \<Rightarrow> string \<Rightarrow> jsnum \<Rightarrow> command list" where
  "geojson_cmds tableName geomColumn idColumn chunkSize baseFilePath offset =
     [RmRf (chunk_path baseFilePath offset ''.geojson''),
      PsqlToFile (GeojsonCollection geomColumn (page_query tableName idColumn chunkSize offset))
        (chunk_path baseFilePath offset ''.geojson'')]"

definition geobuf_cmds ::
  "string \<Rightarrow> string \<Rightarrow> string \<Rightarrow> jsnum \<Rightarrow> string \<Rightarrow> string list \<Rightarrow> jsnum \<Rightarrow> command list" where
  "geobuf_cmds tableName idColumn geomColumn chunkSize baseFilePath properties offset =
     [PsqlXxdToFile
        (GeobufHex geomColumn (geobuf_items idColumn geomColumn properties)
           (page_query tableName idColumn chunkSize offset))
        (chunk_path baseFilePath offset ''.gbf'')]"

definition pipeline_cmds :: "string \<Rightarrow> string \<Rightarrow> int \<Rightarrow> int \<Rightarrow> command list" where
  "pipeline_cmds tableName idColumn C R =
     Psql (CountRows tableName) #
     concat (map (ogr2ogr_cmds tableName idColumn (Num C) ''layer'') (offsets_from 0 R C)) @
     [Ogrmerge ''layer.geojson'' ''layer_*.geojson'',
      FindDelete ''layer_*.geojson'',
      Json2geobuf ''layer.geojson'' ''layer.gbf'']"

text \<open>What the count statement gives in a world, as the exporters read it.\<close>

definition count_of :: "'w tools \<Rightarrow> string \<Rightarrow> 'w \<Rightarrow> jsnum" where
  "count_of exec tableName w =
     parseInt (trim (stdout (fst (exec (Psql (CountRows tableName)) w))))"

text \<open>
  Reading a trace: the chunk a command exports (its file and its page of rows), the
  chunks of a trace with their offsets, and the file a command writes.
\<close>

fun chunk_of :: "command \<Rightarrow> (string \<times> row_fetch) option" where
  "chunk_of (Ogr2ogr f q) = Some (f, q)"
| "chunk_of (PsqlToFile (GeojsonCollection g q) f) = Some (f, q)"
| "chunk_of (PsqlXxdToFile (GeobufHex g items q) f) = Some (f, q)"
| "chunk_of c = None"

definition chunks_written :: "(command \<times> nat) list \<Rightarrow> (string \<times> jsnum) list" where
  "chunks_written tr =
     map (\<lambda>(f, q). (f, sub_offset (fetch_in q))) (List.map_filter (\<lambda>x. chunk_of (fst x)) tr)"

fun written_file :: "command \<Rightarrow> string option" where
  "written_file (PsqlToFile q f) = Some f"
| "written_file (PsqlXxdToFile q f) = Some f"
| "written_file (Ogr2ogr f q) = Some f"
| "written_file (Ogrmerge out pat) = Some out"
| "written_file (Json2geobuf f out) = Some out"
| "written_file c = None"

fun state_of :: "('a, 's) outcome \<Rightarrow> 's" where
  "state_of (Return a s) = s"
| "state_of (Throw e s) = s"
| "state_of (Exit n s) = s"

fun merger_or_converter :: "command \<Rightarrow> bool" where
  "merger_or_converter (Ogrmerge out pat) = True"
| "merger_or_converter (FindDelete pat) = True"
| "merger_or_converter (Json2geobuf f out) = True"
| "merger_or_converter c = False"

text \<open>
  For the pipeline with chunk size \<open>C\<close>: the file of the chunk number \<open>k\<close> (counted
  from 0), the commands of the chunks before it, the commands run before its export, and
  its export.
\<close>

definition chunk_file :: "int \<Rightarrow> nat \<Rightarrow> string" where
  "chunk_file C k = chunk_path ''layer'' (Num (int k * C)) ''.geojson''"

definition chunks_before :: "string \<Rightarrow> string \<Rightarrow> int \<Rightarrow> nat \<Rightarrow> command list" where
  "chunks_before tableName idColumn C k =
     concat (map (\<lambda>j. ogr2ogr_cmds tableName idColumn (Num C) ''layer'' (Num (int j * C))) [0..<k])"

definition before_export :: "string \<Rightarrow> string \<Rightarrow> int \<Rightarrow> nat \<Rightarrow> command list" where
  "before_export tableName idColumn C k =
     Psql (CountRows tableName) # chunks_before tableName idColumn C k @ [RmRf (chunk_file C k)]"

definition export_of :: "string \<Rightarrow> string \<Rightarrow> int \<Rightarrow> nat \<Rightarrow> command" where
  "export_of tableName idColumn C k =
     Ogr2ogr (chunk_file C k) (page_query tableName idColumn (Num C) (Num (int k * C)))"

text \<open>What the column statement prints in a world.\<close>

definition columns_of :: "'w tools \<Rightarrow> string \<Rightarrow> 'w \<Rightarrow> string" where
  "columns_of exec tableName w = stdout (fst (exec (Psql (ColumnNames tableName)) w))"

text \<open>
  The shape of a page of rows: no \<^verbatim>\<open>ORDER BY\<close> on the outer fetch, the rows chosen
  by the identifier, and a subquery that selects the identifier, orders by it and carries
  \<^verbatim>\<open>LIMIT C\<close> and an \<^verbatim>\<open>OFFSET\<close> that is a multiple of \<open>C\<close>.
\<close>

definition ordered_page :: "string \<Rightarrow> int \<Rightarrow> row_fetch \<Rightarrow> bool" where
  "ordered_page idColumn C q \<longleftrightarrow>
     fetch_order_by q = None \<and> fetch_where_col q = idColumn \<and>
     sub_select (fetch_in q) = idColumn \<and> sub_order_by (fetch_in q) = Some idColumn \<and>
     sub_limit (fetch_in q) = Num C \<and> (\<exists>k. sub_offset (fetch_in q) = Num (int k * C))"

text \<open>The pattern of the chunk files of \<open>mergeGeojson\<close>: \<^verbatim>\<open>`${baseFilePath}_*.geojson`\<close>.\<close>

definition chunks_pattern :: "string \<Rightarrow> string" where
  "chunks_pattern filePath = split_first ''.geojson'' filePath @ ''_*.geojson''"

text \<open>Files for the examples: two chunks, an older file in a subdirectory, and a bystander.\<close>

definition files_example :: "string list" where
  "files_example = [''layer_0.geojson'', ''layer_4.geojson'', ''old/layer_7.geojson'', ''notes.txt'']"

text \<open>
  The property list of a run of the Geobuf exporter: computed from what the column
  statement prints, in the world the count statement left.
\<close>

definition run_properties :: "'w tools \<Rightarrow> string \<Rightarrow> string \<Rightarrow> string \<Rightarrow> 'w \<Rightarrow> string list" where
  "run_properties exec tableName idColumn geomColumn w =
     properties_of idColumn geomColumn
       (columns_of exec tableName (snd (exec (Psql (CountRows tableName)) w)))"

text \<open>A table with an identifier, a geometry and one more column.\<close>

definition cols_example :: "string list" where
  "cols_example = [''id'', ''geom'', ''name'']"

text \<open>
  For the Geobuf exporter with chunk size \<open>C\<close>, file \<open>fp\<close> and property list
  \<open>props\<close>: the file of the chunk number \<open>k\<close> (counted from 0), its statement, its
  export, and the commands run before its export.
\<close>

definition geobuf_file :: "string \<Rightarrow> int \<Rightarrow> nat \<Rightarrow> string" where
  "geobuf_file fp C k = chunk_path (split_first ''.gbf'' fp) (Num (int k * C)) ''.gbf''"

definition geobuf_statement ::
  "string \<Rightarrow> string \<Rightarrow> string \<Rightarrow> int \<Rightarrow> string list \<Rightarrow> nat \<Rightarrow> query" where
  "geobuf_statement tableName idColumn geomColumn C props k =
     GeobufHex geomColumn (geobuf_items idColumn geomColumn props)
       (page_query tableName idColumn (Num C) (Num (int k * C)))"

definition geobuf_export ::
  "string \<Rightarrow> string \<Rightarrow> string \<Rightarrow> int \<Rightarrow> string \<Rightarrow> string list \<Rightarrow> nat \<Rightarrow> command" where
  "geobuf_export tableName idColumn geomColumn C fp props k =
     PsqlXxdToFile (geobuf_statement tableName idColumn geomColumn C props k) (geobuf_file fp C k)"

definition geobuf_before ::
  "string \<Rightarrow> string \<Rightarrow> string \<Rightarrow> int \<Rightarrow> string \<Rightarrow> string list \<Rightarrow> nat \<Rightarrow> command list" where
  "geobuf_before tableName idColumn geomColumn C fp props k =
     Psql (CountRows tableName) # Psql (ColumnNames tableName) #
     map (geobuf_export tableName idColumn geomColumn C fp props) [0..<k]"

section \<open>The loop and the plans: lemmas\<close>

lemma chunk_loop_unroll:
  "0 < c \<Longrightarrow> n = nat ((r - off) div c + 1) \<Longrightarrow>
   chunk_loop body (Num r) (Num c) (Num off) s = Some (run_chunks body (offsets_from off r c) s)"
proof (induction n arbitrary: off s)
  case 0
  then have "(r - off) div c < 0" by simp
  with \<open>0 < c\<close> have "off > r"
    by (simp add: div_neg_pos_less0 pos_imp_zdiv_neg_iff)
  then show ?case using 0
    by (subst chunk_loop.simps) (simp add: offsets_from_def)
next
  case (Suc n)
  then have nonneg: "0 \<le> (r - off) div c" by simp
  with \<open>0 < c\<close> have le: "off \<le> r"
    by (simp add: pos_imp_zdiv_nonneg_iff)
  have step: "(r - (off + c)) div c + 1 = (r - off) div c"
  proof -
    have "(r - off) div c = ((r - (off + c)) + c) div c" by simp
    also have "\<dots> = (r - (off + c)) div c + 1"
      using \<open>0 < c\<close> by (subst div_add_self2) simp_all
    finally show ?thesis by simp
  qed
  have n: "n = nat ((r - (off + c)) div c + 1)"
    using Suc.prems step by simp
  have list: "offsets_from off r c = Num off # offsets_from (off + c) r c"
  proof -
    have "nat ((r - off) div c + 1) = Suc (nat ((r - (off + c)) div c + 1))"
      using step nonneg by simp
    then show ?thesis
      by (simp add: offsets_from_def upt_conv_Cons map_Suc_upt [symmetric] algebra_simps
          del: upt_Suc)
  qed
  show ?case
    using le Suc.IH [OF \<open>0 < c\<close> n]
    by (subst chunk_loop.simps) (simp add: list then_do_def split: outcome.splits)
qed

lemma replay_snoc: "replay exec w (cs @ [c]) = snd (exec c (replay exec w cs))"
  by (simp add: replay_def)

lemma replay_append: "replay exec w (xs @ ys) = replay exec (replay exec w xs) ys"
  by (simp add: replay_def)

lemma succeed_append:
  "succeed exec w (xs @ ys) \<longleftrightarrow> succeed exec w xs \<and> succeed exec (replay exec w xs) ys"
  by (induction xs arbitrary: w) (auto simp: replay_def)

lemma good_say: "good exec w0 cs (say l s) = good exec w0 cs s"
  by (simp add: good_def say_def)

lemma thrown_say: "thrown exec w0 cs c e (say l s) = thrown exec w0 cs c e s"
  by (simp add: thrown_def say_def)

lemma good_init: "good exec w [] (init w)"
  by (simp add: good_def init_def replay_def)

lemma dollar_cases:
  assumes "good exec w0 pre s"
  shows "(exitCode (fst (exec c (replay exec w0 pre))) = 0 \<and>
          (\<exists>s'. dollar exec c s = Return (fst (exec c (replay exec w0 pre))) s' \<and>
                good exec w0 (pre @ [c]) s' \<and> console s' = console s))
       \<or> (\<exists>s'. dollar exec c s = Throw (fst (exec c (replay exec w0 pre))) s' \<and>
                thrown exec w0 pre c (fst (exec c (replay exec w0 pre))) s' \<and> console s' = console s)"
  using assms by (auto simp: dollar_def good_def thrown_def replay_snoc Let_def succeed_append)

lemma follows_dollar:
  assumes "good exec w0 pre s" and "P c"
  shows "follows exec H P w0 pre [c] (dollar exec c s)"
proof -
  let ?e = "fst (exec c (replay exec w0 pre))"
  from dollar_cases [OF assms(1), of c]
  consider s' where "dollar exec c s = Return ?e s'" "good exec w0 (pre @ [c]) s'"
    | s' where "dollar exec c s = Throw ?e s'" "thrown exec w0 pre c ?e s'"
    by blast
  then show ?thesis
  proof cases
    case 1
    then show ?thesis by (simp add: follows_def)
  next
    case 2
    then have "[c] = [] @ c # [] \<and> P c \<and> thrown exec w0 (pre @ []) c ?e s'"
      using assms(2) by simp
    with 2(1) show ?thesis unfolding follows_def by (simp only: outcome.case) blast
  qed
qed

lemma follows_Return: "good exec w0 pre s \<Longrightarrow> follows exec H P w0 pre [] (Return a s)"
  by (simp add: follows_def)

lemma follows_shift:
  assumes "follows exec H P w0 (pre @ cs1) cs2 r"
  shows "follows exec H P w0 pre (cs1 @ cs2) r"
proof (cases r)
  case (Return a s)
  with assms show ?thesis by (simp add: follows_def)
next
  case (Throw e s)
  with assms obtain ys c zs where "cs2 = ys @ c # zs" "P c" "thrown exec w0 (pre @ cs1 @ ys) c e s"
    by (auto simp: follows_def)
  then have "cs1 @ cs2 = (cs1 @ ys) @ c # zs \<and> P c \<and> thrown exec w0 (pre @ (cs1 @ ys)) c e s"
    by simp
  with Throw show ?thesis unfolding follows_def by (simp only: outcome.case) blast
next
  case (Exit n s)
  with assms obtain ys c zs where "n = 1" "cs2 = ys @ c # zs" "exited exec H w0 (pre @ cs1 @ ys) c s"
    by (auto simp: follows_def)
  then have "cs1 @ cs2 = (cs1 @ ys) @ c # zs \<and> exited exec H w0 (pre @ (cs1 @ ys)) c s"
    by simp
  with Exit \<open>n = 1\<close> show ?thesis unfolding follows_def by (simp only: outcome.case) blast
qed

lemma follows_then_do:
  assumes r: "follows exec H P w0 pre cs1 r"
    and f: "\<And>a s. r = Return a s \<Longrightarrow> good exec w0 (pre @ cs1) s
              \<Longrightarrow> follows exec H P w0 (pre @ cs1) cs2 (f a s)"
  shows "follows exec H P w0 pre (cs1 @ cs2) (then_do r f)"
proof (cases r)
  case (Return a s)
  with r have "good exec w0 (pre @ cs1) s" by (simp add: follows_def)
  from f [OF Return this] have "follows exec H P w0 pre (cs1 @ cs2) (f a s)"
    by (rule follows_shift)
  with Return show ?thesis by (simp add: then_do_def)
next
  case (Throw e s)
  with r obtain ys c zs where "cs1 = ys @ c # zs" "P c" "thrown exec w0 (pre @ ys) c e s"
    by (auto simp: follows_def)
  then have "cs1 @ cs2 = ys @ c # (zs @ cs2) \<and> P c \<and> thrown exec w0 (pre @ ys) c e s"
    by simp
  with Throw show ?thesis unfolding follows_def then_do_def by (simp only: outcome.case) blast
next
  case (Exit n s)
  with r obtain ys c zs where "n = 1" "cs1 = ys @ c # zs" "exited exec H w0 (pre @ ys) c s"
    by (auto simp: follows_def)
  then have "cs1 @ cs2 = ys @ c # (zs @ cs2) \<and> exited exec H w0 (pre @ ys) c s"
    by simp
  with Exit \<open>n = 1\<close> show ?thesis unfolding follows_def then_do_def by (simp only: outcome.case) blast
qed

lemma follows_catch_exit:
  assumes r: "follows exec H P w0 pre cs r"
    and h: "\<And>c. P c \<Longrightarrow> H c = (l, f)"
  shows "follows exec H P' w0 pre cs (catch_exit f l r)"
proof (cases r)
  case (Return a s)
  with r show ?thesis by (simp add: follows_def catch_exit_def)
next
  case (Throw e s)
  with r obtain ys c zs where c: "cs = ys @ c # zs" "P c" "thrown exec w0 (pre @ ys) c e s"
    by (auto simp: follows_def)
  let ?s = "say (Error f (combined e)) (say (TimeEnd l) s)"
  have "thrown exec w0 (pre @ ys) c e ?s"
    using c(3) by (simp add: thrown_say)
  moreover have "console ?s = console s @ [TimeEnd (fst (H c)), Error (snd (H c)) (combined e)]"
    using h [OF c(2)] by (simp add: say_def)
  ultimately have "exited exec H w0 (pre @ ys) c ?s"
    unfolding exited_def by blast
  with c(1) Throw show ?thesis
    unfolding follows_def catch_exit_def by (simp only: outcome.case) blast
next
  case (Exit n s)
  with r show ?thesis by (simp add: follows_def catch_exit_def)
qed

lemma follows_run_chunks:
  assumes "good exec w0 pre s"
    and "\<And>x pre' s'. good exec w0 pre' s' \<Longrightarrow> follows exec H P w0 pre' (cmds_of x) (body x s')"
  shows "follows exec H P w0 pre (concat (map cmds_of xs)) (run_chunks body xs s)"
  using assms(1)
proof (induction xs arbitrary: pre s)
  case Nil
  then show ?case by (simp add: follows_Return)
next
  case (Cons x xs)
  show ?case
    unfolding run_chunks.simps list.map concat.simps
    by (rule follows_then_do) (rule assms(2) [OF Cons.prems], rule Cons.IH)
qed

lemma follows_then_Return:
  assumes "follows exec H P w0 pre cs r"
    and "\<And>a s. good exec w0 (pre @ cs) s \<Longrightarrow> good exec w0 (pre @ cs) (g a s)"
  shows "follows exec H P w0 pre cs (then_do r (\<lambda>a s. Return (h a) (g a s)))"
proof -
  have "follows exec H P w0 pre (cs @ []) (then_do r (\<lambda>a s. Return (h a) (g a s)))"
    by (rule follows_then_do [OF assms(1)]) (rule follows_Return, rule assms(2))
  then show ?thesis by simp
qed

lemma follows_queryPostgres:
  assumes "good exec w0 pre s"
    and "H (Psql q) = (Executed q, QueryPostgres)"
  shows "follows exec H P w0 pre [Psql q] (queryPostgres exec q [] s)"
  unfolding queryPostgres_def
  apply simp
  apply (rule follows_catch_exit [where P = "\<lambda>c. c = Psql q"])
   apply (rule follows_then_Return)
    apply (rule follows_dollar [OF assms(1)])
    apply simp
   apply (simp add: good_say)
  apply (simp add: assms(2))
  done

lemma queryPostgres_Return:
  "queryPostgres exec q [] s = Return out s' \<Longrightarrow> out = fst (exec (Psql q) (world s))"
  by (auto simp: queryPostgres_def dollar_def Let_def then_do_def catch_exit_def split: if_splits)

lemma follows_ogr2ogr_chunk:
  assumes "good exec w0 pre s"
    and "\<And>p. P (RmRf p)" "\<And>p q. P (Ogr2ogr p q)"
  shows "follows exec H P w0 pre (ogr2ogr_cmds t idc cs base x) (ogr2ogr_chunk exec t idc cs base x s)"
proof -
  let ?p = "chunk_path base x ''.geojson''"
  have "follows exec H P w0 pre ([RmRf ?p] @ [Ogr2ogr ?p (page_query t idc cs x)])
          (ogr2ogr_chunk exec t idc cs base x s)"
    unfolding ogr2ogr_chunk_def Let_def
    apply (rule follows_then_do)
     apply (rule follows_dollar [OF assms(1)])
     apply (rule assms(2))
    apply (rule follows_then_Return)
     apply (rule follows_dollar)
      apply (simp add: good_say)
     apply (rule assms(3))
    apply (simp add: good_say)
    done
  then show ?thesis by (simp add: ogr2ogr_cmds_def)
qed

lemma follows_ogr2ogr_export:
  assumes g: "good exec w0 pre s"
    and c: "0 < C"
    and r: "exitCode (fst (exec (Psql (CountRows t)) (replay exec w0 pre))) = 0
              \<longrightarrow> count_of exec t (replay exec w0 pre) = Num R"
    and H: "H = diagnostic TableToGeojsonChunksOgr2ogr t fp"
  shows "\<exists>r. tableToGeojsonChunksOgr2ogr exec t idc (Num C) fp s = Some r \<and>
           follows exec H P w0 pre
             (Psql (CountRows t) #
                concat (map (ogr2ogr_cmds t idc (Num C) (split_first ''.geojson'' fp))
                  (offsets_from 0 R C))) r"
proof -
  let ?base = "split_first ''.geojson'' fp"
  let ?l = "Created TableToGeojsonChunksOgr2ogr t fp"
  let ?P = "\<lambda>c. H c = (?l, TableToGeojsonChunksOgr2ogr)"
  let ?chunks = "concat (map (ogr2ogr_cmds t idc (Num C) ?base) (offsets_from 0 R C))"
  let ?q = "queryPostgres exec (CountRows t) [] s"
  have q: "follows exec H ?P w0 pre [Psql (CountRows t)] ?q"
    by (rule follows_queryPostgres [OF g]) (simp add: H)
  have body: "\<And>x pre' s'. good exec w0 pre' s' \<Longrightarrow>
      follows exec H ?P w0 pre' (ogr2ogr_cmds t idc (Num C) ?base x)
        (ogr2ogr_chunk exec t idc (Num C) ?base x s')"
    by (rule follows_ogr2ogr_chunk) (simp_all add: H)
  show ?thesis
  proof (cases ?q)
    case (Return out s1)
    with q have g1: "good exec w0 (pre @ [Psql (CountRows t)]) s1"
      by (simp add: follows_def)
    from Return g have out: "out = fst (exec (Psql (CountRows t)) (replay exec w0 pre))"
      by (auto dest: queryPostgres_Return simp: good_def)
    from g1 have "exitCode out = 0"
      by (simp add: good_def succeed_append out)
    with r out have count: "parseInt (trim (stdout out)) = Num R"
      by (simp add: count_of_def)
    let ?loop = "run_chunks (ogr2ogr_chunk exec t idc (Num C) ?base) (offsets_from 0 R C) s1"
    have loop: "chunk_loop (ogr2ogr_chunk exec t idc (Num C) ?base) (Num R) (Num C) (Num 0) s1
                  = Some ?loop"
      by (rule chunk_loop_unroll [OF c refl])
    have "follows exec H ?P w0 (pre @ [Psql (CountRows t)]) ?chunks ?loop"
      by (rule follows_run_chunks [OF g1 body])
    then have "follows exec H ?P w0 (pre @ [Psql (CountRows t)]) ?chunks
                 (then_do ?loop (\<lambda>_ s2. Return fp (say (TimeEnd ?l) s2)))"
      by (rule follows_then_Return) (simp add: good_say)
    then have "follows exec H ?P w0 pre ([Psql (CountRows t)] @ ?chunks)
                 (then_do ?loop (\<lambda>_ s2. Return fp (say (TimeEnd ?l) s2)))"
      by (rule follows_shift)
    then have "follows exec H P w0 pre ([Psql (CountRows t)] @ ?chunks)
                 (catch_exit TableToGeojsonChunksOgr2ogr ?l
                    (then_do ?loop (\<lambda>_ s2. Return fp (say (TimeEnd ?l) s2))))"
      by (rule follows_catch_exit) simp
    then show ?thesis
      using Return count loop by (simp add: tableToGeojsonChunksOgr2ogr_def Let_def)
  next
    case (Throw e s1)
    have "follows exec H (\<lambda>_. False) w0 pre [Psql (CountRows t)] ?q"
      by (rule follows_queryPostgres [OF g]) (simp add: H)
    with Throw show ?thesis by (simp add: follows_def)
  next
    case (Exit n s1)
    have "follows exec H P w0 pre ([Psql (CountRows t)] @ ?chunks) (then_do ?q (\<lambda>_ s. Return fp s))"
      by (rule follows_then_do, rule follows_queryPostgres [OF g]) (simp_all add: H Exit)
    with Exit show ?thesis
      by (simp add: tableToGeojsonChunksOgr2ogr_def Let_def then_do_def catch_exit_def)
  qed
qed

lemma follows_mergeGeojson:
  assumes "good exec w0 pre s"
    and "\<And>out pat. H (Ogrmerge fp pat) = (Merged fp, MergeGeojson)"
    and "\<And>pat. H (FindDelete pat) = (Merged fp, MergeGeojson)"
  shows "follows exec H P w0 pre
           [Ogrmerge fp (split_first ''.geojson'' fp @ ''_*.geojson''),
            FindDelete (split_first ''.geojson'' fp @ ''_*.geojson'')]
           (mergeGeojson exec fp s)"
proof -
  let ?pat = "split_first ''.geojson'' fp @ ''_*.geojson''"
  let ?P = "\<lambda>c. H c = (Merged fp, MergeGeojson)"
  have "follows exec H ?P w0 pre ([Ogrmerge fp ?pat] @ [FindDelete ?pat])
          (then_do (dollar exec (Ogrmerge fp ?pat) s)
             (\<lambda>_ s1. then_do (dollar exec (FindDelete ?pat) s1) (\<lambda>_ s2. Return fp s2)))"
    apply (rule follows_then_do)
     apply (rule follows_dollar [OF assms(1)])
     apply (rule assms(2))
    apply (rule follows_then_Return)
     apply (rule follows_dollar)
      apply assumption
     apply (rule assms(3))
    apply assumption
    done
  then have "follows exec H P w0 pre ([Ogrmerge fp ?pat] @ [FindDelete ?pat])
          (catch_exit MergeGeojson (Merged fp) 
           (then_do (dollar exec (Ogrmerge fp ?pat) s)
             (\<lambda>_ s1. then_do (dollar exec (FindDelete ?pat) s1) (\<lambda>_ s2. Return fp s2))))"
    by (rule follows_catch_exit) simp
  then show ?thesis by (simp add: mergeGeojson_def Let_def)
qed

lemma follows_geojsonToGeobuf:
  assumes "good exec w0 pre s"
    and "\<And>a b. H (Json2geobuf a b) = (Converted a b, GeojsonToGeobuf)"
  shows "follows exec H P w0 pre
           [Json2geobuf fp (split_first ''.geojson'' fp @ ''.gbf'')]
           (geojsonToGeobuf exec fp s)"
proof -
  let ?out = "split_first ''.geojson'' fp @ ''.gbf''"
  let ?P = "\<lambda>c. H c = (Converted fp ?out, GeojsonToGeobuf)"
  have "follows exec H ?P w0 pre [Json2geobuf fp ?out]
          (then_do (dollar exec (Json2geobuf fp ?out) s) (\<lambda>_ s1. Return ?out s1))"
    apply (rule follows_then_Return)
     apply (rule follows_dollar [OF assms(1)])
     apply (rule assms(2))
    apply assumption
    done
  then have "follows exec H P w0 pre [Json2geobuf fp ?out]
          (catch_exit GeojsonToGeobuf (Converted fp ?out)
            (then_do (dollar exec (Json2geobuf fp ?out) s) (\<lambda>_ s1. Return ?out s1)))"
    by (rule follows_catch_exit) simp
  then show ?thesis by (simp add: geojsonToGeobuf_def Let_def)
qed

lemma split_first_layer: "split_first ''.geojson'' ''layer.geojson'' = ''layer''"
  by simp

lemma follows_main:
  assumes c: "chunk_size env = Num C" "0 < C"
    and r: "exitCode (fst (exec (Psql (CountRows (table_name env))) w)) = 0
              \<longrightarrow> count_of exec (table_name env) w = Num R"
    and H: "H = diagnostic TableToGeojsonChunksOgr2ogr (table_name env) ''layer.geojson''"
  shows "\<exists>r :: (string, 'w state) outcome. main exec env w = Some (exit_status r) \<and>
           follows exec H (\<lambda>_. False) w []
             (pipeline_cmds (table_name env) (id_column env) C R) r"
proof -
  let ?t = "table_name env" and ?i = "id_column env"
  let ?chunks = "concat (map (ogr2ogr_cmds ?t ?i (Num C) ''layer'') (offsets_from 0 R C))"
  have r': "exitCode (fst (exec (Psql (CountRows ?t)) (replay exec w []))) = 0
              \<longrightarrow> count_of exec ?t (replay exec w []) = Num R"
    using r by (simp add: replay_def)
  from follows_ogr2ogr_export [OF good_init c(2) r' H, of ?i "\<lambda>_. False"]
  obtain r1 where r1: "tableToGeojsonChunksOgr2ogr exec ?t ?i (Num C) ''layer.geojson'' (init w) = Some r1"
    and f1: "follows exec H (\<lambda>_. False) w [] (Psql (CountRows ?t) # ?chunks) r1"
    by (auto simp: split_first_layer)
  let ?r = "then_do r1 (\<lambda>_ s1. then_do (mergeGeojson exec ''layer.geojson'' s1)
              (\<lambda>_ s2. geojsonToGeobuf exec ''layer.geojson'' s2))"
  have "follows exec H (\<lambda>_. False) w []
          ((Psql (CountRows ?t) # ?chunks) @
             ([Ogrmerge ''layer.geojson'' ''layer_*.geojson'', FindDelete ''layer_*.geojson''] @
              [Json2geobuf ''layer.geojson'' ''layer.gbf''])) ?r"
  proof (rule follows_then_do [OF f1], rule follows_then_do)
    fix pre :: "command list" and s :: "'w state"
    assume g: "good exec w pre s"
    have "follows exec H (\<lambda>_. False) w pre
            [Ogrmerge ''layer.geojson'' (split_first ''.geojson'' ''layer.geojson'' @ ''_*.geojson''),
             FindDelete (split_first ''.geojson'' ''layer.geojson'' @ ''_*.geojson'')]
            (mergeGeojson exec ''layer.geojson'' s)"
      by (rule follows_mergeGeojson [OF g]) (simp_all add: H)
    then show "follows exec H (\<lambda>_. False) w pre
            [Ogrmerge ''layer.geojson'' ''layer_*.geojson'', FindDelete ''layer_*.geojson'']
            (mergeGeojson exec ''layer.geojson'' s)"
      by (simp only: split_first_layer) simp
  next
    fix pre :: "command list" and s :: "'w state"
    assume g: "good exec w pre s"
    have "follows exec H (\<lambda>_. False) w pre
            [Json2geobuf ''layer.geojson'' (split_first ''.geojson'' ''layer.geojson'' @ ''.gbf'')]
            (geojsonToGeobuf exec ''layer.geojson'' s)"
      by (rule follows_geojsonToGeobuf [OF g]) (simp add: H)
    then show "follows exec H (\<lambda>_. False) w pre [Json2geobuf ''layer.geojson'' ''layer.gbf'']
            (geojsonToGeobuf exec ''layer.geojson'' s)"
      by (simp only: split_first_layer) simp
  qed
  then have "follows exec H (\<lambda>_. False) w [] (pipeline_cmds ?t ?i C R) ?r"
    by (simp add: pipeline_cmds_def)
  moreover have "main exec env w = Some (exit_status ?r)"
    using r1 c(1) by (simp add: main_def Let_def)
  ultimately show ?thesis by blast
qed

section \<open>The pipeline as a whole\<close>

lemma main_cases:
  assumes c: "chunk_size env = Num C" "0 < C"
    and r: "exitCode (fst (exec (Psql (CountRows (table_name env))) w)) = 0
              \<longrightarrow> count_of exec (table_name env) w = Num R"
    and D: "D = diagnostic TableToGeojsonChunksOgr2ogr (table_name env) ''layer.geojson''"
    and plan: "plan = pipeline_cmds (table_name env) (id_column env) C R"
  shows "(succeed exec w plan \<and>
          (\<exists>s'. main exec env w = Some (0, s') \<and> trace s' = map (\<lambda>c. (c, 0)) plan \<and>
                world s' = replay exec w plan))
       \<or> (\<exists>ys c zs e s'. plan = ys @ c # zs \<and> succeed exec w ys \<and>
             e = fst (exec c (replay exec w ys)) \<and> exitCode e \<noteq> 0 \<and>
             main exec env w = Some (1, s') \<and>
             trace s' = map (\<lambda>c. (c, 0)) ys @ [(c, exitCode e)] \<and>
             world s' = replay exec w (ys @ [c]) \<and>
             (\<exists>pre. console s' = pre @ [TimeEnd (fst (D c)), Error (snd (D c)) (combined e)]))"
proof -
  from follows_main [OF c r D]
  obtain r1 :: "(string, 'a state) outcome" where m: "main exec env w = Some (exit_status r1)"
    and f: "follows exec D (\<lambda>_. False) w [] plan r1"
    unfolding plan by blast
  show ?thesis
  proof (cases r1)
    case (Return a s)
    with f m show ?thesis by (auto simp: follows_def good_def)
  next
    case (Throw e s)
    with f show ?thesis by (simp add: follows_def)
  next
    case (Exit n s)
    with f obtain ys c zs e pre where "n = 1" "plan = ys @ c # zs" "thrown exec w ys c e s"
      "console s = pre @ [TimeEnd (fst (D c)), Error (snd (D c)) (combined e)]"
      by (auto simp: follows_def exited_def)
    with m Exit show ?thesis
      unfolding thrown_def by (intro disjI2 exI [of _ ys] exI [of _ c] exI [of _ zs] exI [of _ e] exI [of _ s]) auto
  qed
qed

lemma failing_plan_not_succeed:
  "plan = ys @ c # zs \<Longrightarrow> exitCode (fst (exec c (replay exec w ys))) \<noteq> 0 \<Longrightarrow> \<not> succeed exec w plan"
  by (simp add: succeed_append)

text \<open>
  Claim C7. Let the chunk size be a positive number and let the count statement, when it
  succeeds, print a number. Then the pipeline ends, and its exit status is 0 exactly
  when every command of every stage (row count, the two commands of each chunk, merge,
  deletion, conversion) exits with 0, in which case all of them have run. Otherwise the
  status is 1: the commands before the first failing one have run once each and
  succeeded, the failing one is the last that ran (nothing is tried again, nothing runs
  after it), and the last two lines of the console are the label of the function in charge
  (for a statement, the label holds its text) and the error line with that function's tag
  and the output of the failed process.
\<close>

theorem exit_status_reports_first_failure:
  assumes "chunk_size env = Num C" and "0 < C"
    and "exitCode (fst (exec (Psql (CountRows (table_name env))) w)) = 0
           \<longrightarrow> count_of exec (table_name env) w = Num R"
  shows "\<exists>code s'. main exec env w = Some (code, s') \<and>
      (code = 0 \<longleftrightarrow> succeed exec w (pipeline_cmds (table_name env) (id_column env) C R)) \<and>
      (code = 0 \<longrightarrow> trace s' = map (\<lambda>c. (c, 0)) (pipeline_cmds (table_name env) (id_column env) C R)) \<and>
      (code \<noteq> 0 \<longrightarrow> code = 1 \<and>
         (\<exists>ys c zs e. pipeline_cmds (table_name env) (id_column env) C R = ys @ c # zs \<and>
            succeed exec w ys \<and> e = fst (exec c (replay exec w ys)) \<and> exitCode e \<noteq> 0 \<and>
            trace s' = map (\<lambda>c. (c, 0)) ys @ [(c, exitCode e)] \<and>
            (\<exists>pre. console s' = pre @
               [TimeEnd (fst (diagnostic TableToGeojsonChunksOgr2ogr (table_name env) ''layer.geojson'' c)),
                Error (snd (diagnostic TableToGeojsonChunksOgr2ogr (table_name env) ''layer.geojson'' c))
                  (combined e)])))"
proof -
  let ?plan = "pipeline_cmds (table_name env) (id_column env) C R"
  let ?D = "diagnostic TableToGeojsonChunksOgr2ogr (table_name env) ''layer.geojson''"
  from main_cases [OF assms refl refl]
  consider s' where "succeed exec w ?plan" "main exec env w = Some (0, s')"
      "trace s' = map (\<lambda>c. (c, 0)) ?plan"
    | ys c zs e s' where "?plan = ys @ c # zs" "succeed exec w ys"
      "e = fst (exec c (replay exec w ys))" "exitCode e \<noteq> 0"
      "main exec env w = Some (1, s')"
      "trace s' = map (\<lambda>c. (c, 0)) ys @ [(c, exitCode e)]"
      "\<exists>pre. console s' = pre @ [TimeEnd (fst (?D c)), Error (snd (?D c)) (combined e)]"
    by blast
  then show ?thesis
  proof cases
    case 1
    then show ?thesis by simp
  next
    case 2
    from 2(1,3,4) have "\<not> succeed exec w ?plan"
      by (simp add: failing_plan_not_succeed)
    with 2 show ?thesis
      by (intro exI [of _ 1] exI [of _ s']) (simp, blast)
  qed
qed

lemma chunk_size_env_chunk4: "chunk_size env_chunk4 = Num 4"
  by (simp add: chunk_size_def env_chunk4_def or_default_def parseInt_def is_space_def
      is_digit_def digits_value_def digit_val_def)

lemma count_of_sim_10: "count_of (sim 10 cols (fails_ogr2ogr_at f)) t w = Num 10"
  by (simp add: count_of_def sim_def succeeded_def psql_t_def trim_def show_nat.simps
      digit_char_def parseInt_def is_space_def is_digit_def digits_value_def digit_val_def)

theorem exit_status_reports_first_failure_witness:
  "\<exists>code s'. main (sim 10 [] (fails_ogr2ogr_at ''layer_4.geojson'')) env_chunk4 [] = Some (code, s') \<and>
      (code = 0 \<longleftrightarrow> succeed (sim 10 [] (fails_ogr2ogr_at ''layer_4.geojson'')) []
         (pipeline_cmds (table_name env_chunk4) (id_column env_chunk4) 4 10)) \<and>
      (code = 0 \<longrightarrow> trace s' = map (\<lambda>c. (c, 0))
         (pipeline_cmds (table_name env_chunk4) (id_column env_chunk4) 4 10)) \<and>
      (code \<noteq> 0 \<longrightarrow> code = 1 \<and>
         (\<exists>ys c zs e. pipeline_cmds (table_name env_chunk4) (id_column env_chunk4) 4 10 = ys @ c # zs \<and>
            succeed (sim 10 [] (fails_ogr2ogr_at ''layer_4.geojson'')) [] ys \<and>
            e = fst (sim 10 [] (fails_ogr2ogr_at ''layer_4.geojson'') c
                  (replay (sim 10 [] (fails_ogr2ogr_at ''layer_4.geojson'')) [] ys)) \<and>
            exitCode e \<noteq> 0 \<and>
            trace s' = map (\<lambda>c. (c, 0)) ys @ [(c, exitCode e)] \<and>
            (\<exists>pre. console s' = pre @
               [TimeEnd (fst (diagnostic TableToGeojsonChunksOgr2ogr (table_name env_chunk4)
                                ''layer.geojson'' c)),
                Error (snd (diagnostic TableToGeojsonChunksOgr2ogr (table_name env_chunk4)
                              ''layer.geojson'' c))
                  (combined e)])))"
  by (rule exit_status_reports_first_failure
        [where exec = "sim 10 [] (fails_ogr2ogr_at ''layer_4.geojson'')" and w = "[]" and R = 10,
         OF chunk_size_env_chunk4])
     (simp_all add: count_of_sim_10)

section \<open>A failure while a chunk is exported\<close>

lemma digit_val_digit_char: "d < 10 \<Longrightarrow> digit_val (digit_char d) = Some d"
proof -
  assume "d < 10"
  then have "d = 0 \<or> d = 1 \<or> d = 2 \<or> d = 3 \<or> d = 4 \<or> d = 5 \<or> d = 6 \<or> d = 7 \<or> d = 8 \<or> d = 9"
    by arith
  then show ?thesis
    by (elim disjE) (simp_all add: digit_val_def digit_char_def)
qed

lemma digits_value_show_nat: "digits_value 10 (show_nat n) = n"
proof (induction n rule: show_nat.induct)
  case (1 n)
  show ?case
  proof (cases "n < 10")
    case True
    then show ?thesis
      by (subst show_nat.simps) (simp add: digits_value_def digit_val_digit_char)
  next
    case False
    with 1 have "digits_value 10 (show_nat (n div 10)) = n div 10" by simp
    then show ?thesis
      using False
      by (subst show_nat.simps) (simp add: digits_value_def digit_val_digit_char)
  qed
qed

lemma show_nat_inj: "show_nat a = show_nat b \<Longrightarrow> a = b"
  by (metis digits_value_show_nat)

lemma chunk_path_inj:
  assumes "chunk_path base (Num a) ext = chunk_path base (Num b) ext" "0 \<le> a" "0 \<le> b"
  shows "a = b"
proof -
  from assms have "show_nat (nat a) = show_nat (nat b)"
    by (simp add: chunk_path_def)
  then have "nat a = nat b" by (rule show_nat_inj)
  with assms(2,3) show ?thesis by simp
qed

lemma first_failure_unique:
  assumes eq: "ys @ c # zs = ys' @ c' # zs'"
    and "succeed exec w ys" "exitCode (fst (exec c (replay exec w ys))) \<noteq> 0"
    and "succeed exec w ys'" "exitCode (fst (exec c' (replay exec w ys'))) \<noteq> 0"
  shows "ys = ys' \<and> c = c'"
proof -
  from eq consider us where "ys = ys' @ us" "us @ c # zs = c' # zs'"
    | us where "ys @ us = ys'" "c # zs = us @ c' # zs'"
    by (auto simp: append_eq_append_conv2)
  then show ?thesis
  proof cases
    case 1
    show ?thesis
    proof (cases us)
      case Nil
      with 1 show ?thesis by simp
    next
      case (Cons u us')
      with 1 have "ys = ys' @ c' # us'" by simp
      with assms(2,5) show ?thesis by (simp add: succeed_append)
    qed
  next
    case 2
    show ?thesis
    proof (cases us)
      case Nil
      with 2 show ?thesis by simp
    next
      case (Cons u us')
      with 2 have "ys' = ys @ c # us'" by auto
      with assms(3,4) show ?thesis by (simp add: succeed_append)
    qed
  qed
qed

lemma offsets_from_0: "offsets_from 0 R C = map (\<lambda>k. Num (int k * C)) [0..<nat (R div C + 1)]"
  by (simp add: offsets_from_def)

lemma chunks_before_Suc:
  "chunks_before t i C (Suc k) =
     chunks_before t i C k @ ogr2ogr_cmds t i (Num C) ''layer'' (Num (int k * C))"
  by (simp add: chunks_before_def)

lemma pipeline_cmds_split:
  assumes "0 < C" "int k * C \<le> R"
  shows "\<exists>zs. pipeline_cmds t i C R =
           (Psql (CountRows t) # chunks_before t i C k @ [RmRf (chunk_file C k)]) @
           Ogr2ogr (chunk_file C k) (page_query t i (Num C) (Num (int k * C))) # zs"
proof -
  let ?n = "nat (R div C + 1)"
  have "(int k * C) div C \<le> R div C"
    using assms by (intro zdiv_mono1) simp_all
  then have "int k \<le> R div C"
    using assms(1) by simp
  then have kn: "k < ?n" by simp
  have "[0..<?n] = [0..<k] @ [k..<?n]"
    using kn by (metis le_add_diff_inverse less_imp_le_nat upt_add_eq_append zero_le)
  also have "[k..<?n] = k # [Suc k..<?n]"
    using kn by (rule upt_conv_Cons)
  finally have "[0..<?n] = [0..<k] @ k # [Suc k..<?n]" .
  then have "concat (map (ogr2ogr_cmds t i (Num C) ''layer'') (offsets_from 0 R C)) =
      chunks_before t i C k @ ogr2ogr_cmds t i (Num C) ''layer'' (Num (int k * C)) @
      concat (map (\<lambda>j. ogr2ogr_cmds t i (Num C) ''layer'' (Num (int j * C))) [Suc k..<?n])"
    by (simp add: offsets_from_0 chunks_before_def comp_def)
  then show ?thesis
    by (simp add: pipeline_cmds_def ogr2ogr_cmds_def chunk_file_def)
qed

lemma chunk_file_inj: "0 < C \<Longrightarrow> chunk_file C j = chunk_file C k \<Longrightarrow> j = k"
  unfolding chunk_file_def by (drule chunk_path_inj) simp_all

lemma rm_keeps:
  "touches_only_target present exec \<Longrightarrow> g \<noteq> f
     \<Longrightarrow> present (snd (exec (RmRf f) w)) g = present w g"
  by (simp add: touches_only_target_def)

lemma ogr2ogr_keeps:
  "touches_only_target present exec \<Longrightarrow> g \<noteq> f
     \<Longrightarrow> present (snd (exec (Ogr2ogr f q) w)) g = present w g"
  by (simp add: touches_only_target_def)

lemma chunks_present:
  assumes frame: "touches_only_target present exec"
    and writes: "ogr2ogr_writes present exec"
    and C: "0 < C"
  shows "succeed exec w0 (chunks_before t i C k)
           \<Longrightarrow> j < k \<Longrightarrow> present (replay exec w0 (chunks_before t i C k)) (chunk_file C j)"
proof (induction k arbitrary: j)
  case 0
  then show ?case by simp
next
  case (Suc k)
  let ?w1 = "replay exec w0 (chunks_before t i C k)"
  let ?f = "chunk_file C k"
  let ?q = "page_query t i (Num C) (Num (int k * C))"
  let ?w2 = "snd (exec (RmRf ?f) ?w1)"
  let ?w3 = "snd (exec (Ogr2ogr ?f ?q) ?w2)"
  from Suc.prems(1) have s1: "succeed exec w0 (chunks_before t i C k)"
    and ok: "exitCode (fst (exec (Ogr2ogr ?f ?q) ?w2)) = 0"
    by (simp_all add: chunks_before_Suc succeed_append ogr2ogr_cmds_def chunk_file_def)
  have w3: "replay exec w0 (chunks_before t i C (Suc k)) = ?w3"
    by (simp add: chunks_before_Suc replay_append ogr2ogr_cmds_def chunk_file_def)
       (simp add: replay_def)
  show ?case
  proof (cases "j = k")
    case True
    from writes ok have "present ?w3 ?f" by (simp add: ogr2ogr_writes_def)
    with True w3 show ?thesis by simp
  next
    case False
    with Suc.prems(2) have "j < k" by simp
    from Suc.IH [OF s1 this] have "present ?w1 (chunk_file C j)" .
    moreover have ne: "chunk_file C j \<noteq> ?f"
      using False chunk_file_inj [OF C] by blast
    ultimately have "present ?w3 (chunk_file C j)"
      using frame by (simp add: rm_keeps ogr2ogr_keeps)
    with w3 show ?thesis by simp
  qed
qed

lemma no_merger_before_export:
  "c \<in> set (before_export t i C k @ [export_of t i C k]) \<Longrightarrow> \<not> merger_or_converter c"
  by (auto simp: before_export_def export_of_def chunks_before_def ogr2ogr_cmds_def)

text \<open>
  Claim C4. Let the chunk size \<open>C\<close> be positive and the count be \<open>R\<close>, and let the
  export of the chunk number \<open>k\<close> (counted from 0, so any chunk, the first included)
  be the first command to fail. Then the pipeline exits with status 1; the failing
  export is the last command it ran, so neither the merger, nor the deletion, nor the
  converter is ever invoked and nothing touches the files after the failure; if
  \<^verbatim>\<open>rm\<close> and \<^verbatim>\<open>ogr2ogr\<close> touch no path but their target and a successful
  \<^verbatim>\<open>ogr2ogr\<close> writes its file, the files of all earlier chunks are on disk at the
  end, and so is the partial file of chunk \<open>k\<close> when the failing \<^verbatim>\<open>ogr2ogr\<close> left one.
\<close>

theorem failed_chunk_leaves_earlier_chunks:
  assumes "chunk_size env = Num C" and "0 < C"
    and "count_of exec (table_name env) w = Num R"
    and "int k * C \<le> R"
    and "succeed exec w (before_export (table_name env) (id_column env) C k)"
    and "exitCode (fst (exec (export_of (table_name env) (id_column env) C k)
            (replay exec w (before_export (table_name env) (id_column env) C k)))) \<noteq> 0"
    and "touches_only_target present exec" and "ogr2ogr_writes present exec"
  shows "\<exists>s'. main exec env w = Some (1, s') \<and>
      map fst (trace s') = before_export (table_name env) (id_column env) C k
                             @ [export_of (table_name env) (id_column env) C k] \<and>
      world s' = replay exec w (before_export (table_name env) (id_column env) C k
                             @ [export_of (table_name env) (id_column env) C k]) \<and>
      (\<forall>x \<in> set (trace s'). \<not> merger_or_converter (fst x)) \<and>
      (\<forall>j<k. present (world s') (chunk_file C j)) \<and>
      (ogr2ogr_leaves_partial present exec \<longrightarrow> present (world s') (chunk_file C k))"
proof -
  let ?t = "table_name env" and ?i = "id_column env"
  let ?ys = "before_export ?t ?i C k" and ?c = "export_of ?t ?i C k"
  let ?plan = "pipeline_cmds ?t ?i C R"
  from pipeline_cmds_split [OF assms(2,4)] obtain zs where plan: "?plan = ?ys @ ?c # zs"
    unfolding before_export_def export_of_def by blast
  have nosucc: "\<not> succeed exec w ?plan"
    using plan assms(6) by (rule failing_plan_not_succeed)
  have cnt: "exitCode (fst (exec (Psql (CountRows ?t)) w)) = 0 \<longrightarrow> count_of exec ?t w = Num R"
    using assms(3) by simp
  from main_cases [OF assms(1,2) cnt refl refl] nosucc
  obtain ys c zs' e s' where *: "?plan = ys @ c # zs'" "succeed exec w ys"
      "e = fst (exec c (replay exec w ys))" "exitCode e \<noteq> 0"
      "main exec env w = Some (1, s')"
      "trace s' = map (\<lambda>c. (c, 0)) ys @ [(c, exitCode e)]"
      "world s' = replay exec w (ys @ [c])"
    by blast
  from *(1) plan have "ys @ c # zs' = ?ys @ ?c # zs" by simp
  from first_failure_unique [OF this *(2) _ assms(5,6)] *(3,4)
  have same: "ys = ?ys" "c = ?c" by simp_all
  have tr: "map fst (trace s') = ?ys @ [?c]"
    using *(6) same by (simp add: comp_def)
  have nomerge: "\<forall>x \<in> set (trace s'). \<not> merger_or_converter (fst x)"
  proof
    fix x assume "x \<in> set (trace s')"
    then have "fst x \<in> set (map fst (trace s'))" by simp
    then show "\<not> merger_or_converter (fst x)"
      unfolding tr by (rule no_merger_before_export)
  qed
  let ?w0 = "snd (exec (Psql (CountRows ?t)) w)"
  let ?w1 = "replay exec ?w0 (chunks_before ?t ?i C k)"
  let ?w2 = "snd (exec (RmRf (chunk_file C k)) ?w1)"
  have wfinal: "world s' = snd (exec ?c ?w2)"
    using *(7) same by (simp add: before_export_def replay_append replay_snoc) (simp add: replay_def)
  have s1: "succeed exec ?w0 (chunks_before ?t ?i C k)"
    using assms(5) by (simp add: before_export_def succeed_append)
  have earlier: "\<forall>j<k. present (world s') (chunk_file C j)"
  proof (intro allI impI)
    fix j assume "j < k"
    from chunks_present [OF assms(7,8,2) s1 this]
    have "present ?w1 (chunk_file C j)" .
    moreover have "chunk_file C j \<noteq> chunk_file C k"
      using \<open>j < k\<close> chunk_file_inj [OF assms(2)] by blast
    ultimately show "present (world s') (chunk_file C j)"
      using assms(7) unfolding wfinal export_of_def by (simp add: rm_keeps ogr2ogr_keeps)
  qed
  have partial: "ogr2ogr_leaves_partial present exec \<longrightarrow> present (world s') (chunk_file C k)"
  proof
    assume "ogr2ogr_leaves_partial present exec"
    moreover have "exitCode (fst (exec ?c ?w2)) \<noteq> 0"
      using assms(6) by (simp add: before_export_def replay_append replay_snoc) (simp add: replay_def)
    ultimately show "present (world s') (chunk_file C k)"
      unfolding wfinal export_of_def ogr2ogr_leaves_partial_def by simp
  qed
  from *(5) tr *(7) same nomerge earlier partial show ?thesis by blast
qed

lemma sim_touches_only_target: "touches_only_target listed (sim rows cols fails)"
  by (auto simp: touches_only_target_def listed_def sim_def)

lemma sim_ogr2ogr_writes: "ogr2ogr_writes listed (sim rows cols fails)"
  by (auto simp: ogr2ogr_writes_def listed_def sim_def)

lemma sim_ogr2ogr_leaves_partial: "ogr2ogr_leaves_partial listed (sim rows cols fails)"
  by (auto simp: ogr2ogr_leaves_partial_def listed_def sim_def)

lemma table_name_env_chunk4: "table_name env_chunk4 = ''table''"
  by (simp add: table_name_def env_chunk4_def or_default_def)

lemma id_column_env_chunk4: "id_column env_chunk4 = ''id''"
  by (simp add: id_column_def env_chunk4_def or_default_def)

lemma chunk_file_4_1: "chunk_file 4 (Suc 0) = ''layer_4.geojson''"
  by (simp add: chunk_file_def chunk_path_def show_nat.simps digit_char_def)

lemma chunk_file_4_0: "chunk_file 4 0 = ''layer_0.geojson''"
  by (simp add: chunk_file_def chunk_path_def show_nat.simps digit_char_def)

theorem failed_chunk_leaves_earlier_chunks_witness:
  "\<exists>s'. main (sim 10 [] (fails_ogr2ogr_at ''layer_4.geojson'')) env_chunk4 [] = Some (1, s') \<and>
      map fst (trace s') = before_export (table_name env_chunk4) (id_column env_chunk4) 4 1
                             @ [export_of (table_name env_chunk4) (id_column env_chunk4) 4 1] \<and>
      world s' = replay (sim 10 [] (fails_ogr2ogr_at ''layer_4.geojson'')) []
                   (before_export (table_name env_chunk4) (id_column env_chunk4) 4 1
                      @ [export_of (table_name env_chunk4) (id_column env_chunk4) 4 1]) \<and>
      (\<forall>x \<in> set (trace s'). \<not> merger_or_converter (fst x)) \<and>
      (\<forall>j<1. listed (world s') (chunk_file 4 j)) \<and>
      (ogr2ogr_leaves_partial listed (sim 10 [] (fails_ogr2ogr_at ''layer_4.geojson''))
         \<longrightarrow> listed (world s') (chunk_file 4 1))"
proof (rule failed_chunk_leaves_earlier_chunks
    [OF chunk_size_env_chunk4 _ count_of_sim_10 _ _ _ sim_touches_only_target sim_ogr2ogr_writes])
  show "(0::int) < 4" by simp
  show "int 1 * 4 \<le> 10" by simp
  show "succeed (sim 10 [] (fails_ogr2ogr_at ''layer_4.geojson'')) []
          (before_export (table_name env_chunk4) (id_column env_chunk4) 4 1)"
    by (simp add: before_export_def chunks_before_def ogr2ogr_cmds_def sim_def succeeded_def
        chunk_file_4_1 chunk_file_4_0 chunk_file_def [symmetric])
  show "exitCode (fst (sim 10 [] (fails_ogr2ogr_at ''layer_4.geojson'')
          (export_of (table_name env_chunk4) (id_column env_chunk4) 4 1)
          (replay (sim 10 [] (fails_ogr2ogr_at ''layer_4.geojson'')) []
             (before_export (table_name env_chunk4) (id_column env_chunk4) 4 1)))) \<noteq> 0"
    by (simp add: export_of_def sim_def failed_def chunk_file_4_1)
qed

section \<open>The names of the files\<close>

lemma pipeline_cmds_members:
  assumes "c \<in> set (pipeline_cmds t i C R)"
  shows "c = Psql (CountRows t) \<or> (\<exists>k. c = RmRf (chunk_file C k)) \<or> (\<exists>k. c = export_of t i C k)
       \<or> c = Ogrmerge ''layer.geojson'' ''layer_*.geojson'' \<or> c = FindDelete ''layer_*.geojson''
       \<or> c = Json2geobuf ''layer.geojson'' ''layer.gbf''"
  using assms
  by (auto simp: pipeline_cmds_def offsets_from_0 ogr2ogr_cmds_def chunk_file_def export_of_def)

lemma main_trace_in_plan:
  assumes "chunk_size env = Num C" and "0 < C"
    and "exitCode (fst (exec (Psql (CountRows (table_name env))) w)) = 0
           \<longrightarrow> count_of exec (table_name env) w = Num R"
  shows "\<exists>code s'. main exec env w = Some (code, s') \<and>
           fst ` set (trace s') \<subseteq> set (pipeline_cmds (table_name env) (id_column env) C R)"
proof -
  let ?plan = "pipeline_cmds (table_name env) (id_column env) C R"
  from main_cases [OF assms refl refl] show ?thesis
  proof (elim disjE exE conjE)
    fix s'
    assume m: "main exec env w = Some (0, s')" and t: "trace s' = map (\<lambda>c. (c, 0)) ?plan"
    from t have "fst ` set (trace s') \<subseteq> set ?plan" by (auto simp: image_iff)
    with m show ?thesis by blast
  next
    fix ys c zs e s'
    assume p: "?plan = ys @ c # zs" and m: "main exec env w = Some (1, s')"
      and t: "trace s' = map (\<lambda>c. (c, 0)) ys @ [(c, exitCode e)]"
    from t p have "fst ` set (trace s') \<subseteq> set ?plan" by (auto simp: image_iff)
    with m show ?thesis by blast
  qed
qed

text \<open>
  Claim C9. Let the chunk size \<open>C\<close> be positive and the count, when read, a number.
  In every run of the pipeline, each \<^verbatim>\<open>ogr2ogr\<close> command writes the file
  \<^verbatim>\<open>layer_<offset>.geojson\<close> for the very offset its statement asks for, a multiple
  of \<open>C\<close>; the merge command writes \<^verbatim>\<open>layer.geojson\<close>; the converter reads that
  file and writes \<^verbatim>\<open>layer.gbf\<close> beside it; and no command of the run writes a file
  of any other name.
\<close>

theorem pipeline_file_names:
  assumes "chunk_size env = Num C" and "0 < C"
    and "exitCode (fst (exec (Psql (CountRows (table_name env))) w)) = 0
           \<longrightarrow> count_of exec (table_name env) w = Num R"
  shows "\<exists>code s'. main exec env w = Some (code, s') \<and>
     (\<forall>f q e. (Ogr2ogr f q, e) \<in> set (trace s') \<longrightarrow>
        f = ''layer_'' @ js_toString (sub_offset (fetch_in q)) @ ''.geojson'' \<and>
        (\<exists>k. sub_offset (fetch_in q) = Num (int k * C))) \<and>
     (\<forall>out pat e. (Ogrmerge out pat, e) \<in> set (trace s') \<longrightarrow> out = ''layer.geojson'') \<and>
     (\<forall>f out e. (Json2geobuf f out, e) \<in> set (trace s') \<longrightarrow>
        f = ''layer.geojson'' \<and> out = ''layer.gbf'') \<and>
     (\<forall>x \<in> set (trace s'). \<forall>f. written_file (fst x) = Some f \<longrightarrow>
        f = ''layer.geojson'' \<or> f = ''layer.gbf'' \<or>
        (\<exists>k. f = ''layer_'' @ js_toString (Num (int k * C)) @ ''.geojson''))"
proof -
  let ?plan = "pipeline_cmds (table_name env) (id_column env) C R"
  from main_trace_in_plan [OF assms] obtain code s' where m: "main exec env w = Some (code, s')"
    and sub: "fst ` set (trace s') \<subseteq> set ?plan"
    by blast
  have mem: "\<And>c e. (c, e) \<in> set (trace s') \<Longrightarrow> c \<in> set ?plan"
    using sub by force
  have a: "\<forall>f q e. (Ogr2ogr f q, e) \<in> set (trace s') \<longrightarrow>
        f = ''layer_'' @ js_toString (sub_offset (fetch_in q)) @ ''.geojson'' \<and>
        (\<exists>k. sub_offset (fetch_in q) = Num (int k * C))"
  proof (intro allI impI)
    fix f q e assume "(Ogr2ogr f q, e) \<in> set (trace s')"
    from pipeline_cmds_members [OF mem [OF this]]
    obtain k where "Ogr2ogr f q = export_of (table_name env) (id_column env) C k"
      by auto
    then show "f = ''layer_'' @ js_toString (sub_offset (fetch_in q)) @ ''.geojson'' \<and>
        (\<exists>k. sub_offset (fetch_in q) = Num (int k * C))"
      by (auto simp: export_of_def chunk_file_def chunk_path_def page_query_def
          simp del: js_toString.simps)
  qed
  have b: "\<forall>out pat e. (Ogrmerge out pat, e) \<in> set (trace s') \<longrightarrow> out = ''layer.geojson''"
  proof (intro allI impI)
    fix out pat e assume "(Ogrmerge out pat, e) \<in> set (trace s')"
    from pipeline_cmds_members [OF mem [OF this]]
    show "out = ''layer.geojson''" by (auto simp: export_of_def)
  qed
  have c: "\<forall>f out e. (Json2geobuf f out, e) \<in> set (trace s') \<longrightarrow>
        f = ''layer.geojson'' \<and> out = ''layer.gbf''"
  proof (intro allI impI)
    fix f out e assume "(Json2geobuf f out, e) \<in> set (trace s')"
    from pipeline_cmds_members [OF mem [OF this]]
    show "f = ''layer.geojson'' \<and> out = ''layer.gbf''" by (auto simp: export_of_def)
  qed
  have d: "\<forall>x \<in> set (trace s'). \<forall>f. written_file (fst x) = Some f \<longrightarrow>
        f = ''layer.geojson'' \<or> f = ''layer.gbf'' \<or>
        (\<exists>k. f = ''layer_'' @ js_toString (Num (int k * C)) @ ''.geojson'')"
  proof (intro ballI allI impI)
    fix x f assume x: "x \<in> set (trace s')" and wf: "written_file (fst x) = Some f"
    from x have "(fst x, snd x) \<in> set (trace s')" by simp
    from pipeline_cmds_members [OF mem [OF this]] wf
    show "f = ''layer.geojson'' \<or> f = ''layer.gbf'' \<or>
        (\<exists>k. f = ''layer_'' @ js_toString (Num (int k * C)) @ ''.geojson'')"
      by (auto simp: export_of_def chunk_file_def chunk_path_def simp del: js_toString.simps)
  qed
  from m a b c d show ?thesis by blast
qed

theorem pipeline_file_names_witness:
  "\<exists>code s'. main (sim 10 [] (fails_ogr2ogr_at ''layer_4.geojson'')) env_chunk4 [] = Some (code, s') \<and>
     (\<forall>f q e. (Ogr2ogr f q, e) \<in> set (trace s') \<longrightarrow>
        f = ''layer_'' @ js_toString (sub_offset (fetch_in q)) @ ''.geojson'' \<and>
        (\<exists>k. sub_offset (fetch_in q) = Num (int k * 4))) \<and>
     (\<forall>out pat e. (Ogrmerge out pat, e) \<in> set (trace s') \<longrightarrow> out = ''layer.geojson'') \<and>
     (\<forall>f out e. (Json2geobuf f out, e) \<in> set (trace s') \<longrightarrow>
        f = ''layer.geojson'' \<and> out = ''layer.gbf'') \<and>
     (\<forall>x \<in> set (trace s'). \<forall>f. written_file (fst x) = Some f \<longrightarrow>
        f = ''layer.geojson'' \<or> f = ''layer.gbf'' \<or>
        (\<exists>k. f = ''layer_'' @ js_toString (Num (int k * 4)) @ ''.geojson''))"
  by (rule pipeline_file_names
        [where exec = "sim 10 [] (fails_ogr2ogr_at ''layer_4.geojson'')" and w = "[]" and R = 10,
         OF chunk_size_env_chunk4])
     (simp_all add: count_of_sim_10)

section \<open>The three exporters\<close>

lemma succeed_all: "\<forall>c w. exitCode (fst (exec c w)) = 0 \<Longrightarrow> succeed exec w cs"
  by (induction cs arbitrary: w) simp_all

lemma follows_all_succeed:
  assumes "follows exec H (\<lambda>_. False) w0 pre cmds r"
    and "\<forall>c w. exitCode (fst (exec c w)) = 0"
  shows "\<exists>a s. r = Return a s \<and> trace s = map (\<lambda>c. (c, 0)) (pre @ cmds)"
proof (cases r)
  case (Return a s)
  with assms(1) show ?thesis by (simp add: follows_def good_def)
next
  case (Throw e s)
  with assms(1) show ?thesis by (simp add: follows_def)
next
  case (Exit n s)
  with assms show ?thesis by (auto simp: follows_def exited_def thrown_def)
qed

lemma follows_trace_subset:
  assumes "follows exec H P w0 pre cmds r"
  shows "fst ` set (trace (state_of r)) \<subseteq> set (pre @ cmds)"
proof (cases r)
  case (Return a s)
  with assms show ?thesis by (auto simp: follows_def good_def image_iff)
next
  case (Throw e s)
  with assms show ?thesis by (auto simp: follows_def thrown_def image_iff)
next
  case (Exit n s)
  with assms show ?thesis by (auto simp: follows_def exited_def thrown_def image_iff)
qed

lemma chunk_path_nonempty: "chunk_path base x ext \<noteq> []"
  by (simp add: chunk_path_def)

lemma follows_queryPostgres_file:
  assumes "good exec w0 pre s" and "fp \<noteq> []"
    and "H (PsqlToFile q fp) = (Exported fp q, QueryPostgres)"
  shows "follows exec H P w0 pre [PsqlToFile q fp] (queryPostgres exec q fp s)"
proof -
  have "follows exec H P w0 pre [PsqlToFile q fp]
          (catch_exit QueryPostgres (Exported fp q)
             (then_do (dollar exec (PsqlToFile q fp) s)
                (\<lambda>output s'. Return output (say (TimeEnd (Exported fp q)) s'))))"
    apply (rule follows_catch_exit [where P = "\<lambda>c. c = PsqlToFile q fp"])
     apply (rule follows_then_Return)
      apply (rule follows_dollar [OF assms(1)])
      apply simp
     apply (simp add: good_say)
    apply (simp add: assms(3))
    done
  with assms(2) show ?thesis by (simp add: queryPostgres_def)
qed

lemma follows_queryPostgres_gbf:
  assumes "good exec w0 pre s"
    and "H (Psql q) = (Executed q, QueryPostgres)"
  shows "follows exec H P w0 pre [Psql q] (queryPostgres_gbf exec q [] s)"
proof -
  have "follows exec H P w0 pre [Psql q]
          (catch_exit QueryPostgres (Executed q)
             (then_do (dollar exec (Psql q) s)
                (\<lambda>output s'. Return output (say (TimeEnd (Executed q)) s'))))"
    apply (rule follows_catch_exit [where P = "\<lambda>c. c = Psql q"])
     apply (rule follows_then_Return)
      apply (rule follows_dollar [OF assms(1)])
      apply simp
     apply (simp add: good_say)
    apply (simp add: assms(2))
    done
  then show ?thesis by (simp add: queryPostgres_gbf_def)
qed

lemma follows_queryPostgres_gbf_file:
  assumes "good exec w0 pre s" and "fp \<noteq> []"
    and "H (PsqlXxdToFile q fp) = (Exported fp q, QueryPostgres)"
  shows "follows exec H P w0 pre [PsqlXxdToFile q fp] (queryPostgres_gbf exec q fp s)"
proof -
  have "follows exec H P w0 pre [PsqlXxdToFile q fp]
          (catch_exit QueryPostgres (Exported fp q)
             (then_do (dollar exec (PsqlXxdToFile q fp) s)
                (\<lambda>output s'. Return output (say (TimeEnd (Exported fp q)) s'))))"
    apply (rule follows_catch_exit [where P = "\<lambda>c. c = PsqlXxdToFile q fp"])
     apply (rule follows_then_Return)
      apply (rule follows_dollar [OF assms(1)])
      apply simp
     apply (simp add: good_say)
    apply (simp add: assms(3))
    done
  with assms(2) show ?thesis by (simp add: queryPostgres_gbf_def)
qed

lemma queryPostgres_gbf_Return:
  "queryPostgres_gbf exec q [] s = Return out s' \<Longrightarrow> out = fst (exec (Psql q) (world s))"
  by (auto simp: queryPostgres_gbf_def dollar_def Let_def then_do_def catch_exit_def
      split: if_splits)

lemma follows_geojson_chunk:
  assumes "good exec w0 pre s"
    and "\<And>f. P (RmRf f)"
    and "\<And>q f. H (PsqlToFile q f) = (Exported f q, QueryPostgres)"
  shows "follows exec H P w0 pre (geojson_cmds t g idc cs base x)
           (geojson_chunk exec t g idc cs base x s)"
proof -
  let ?f = "chunk_path base x ''.geojson''"
  let ?q = "GeojsonCollection g (page_query t idc cs x)"
  have "follows exec H P w0 pre ([RmRf ?f] @ [PsqlToFile ?q ?f])
          (geojson_chunk exec t g idc cs base x s)"
    unfolding geojson_chunk_def Let_def
    apply (rule follows_then_do)
     apply (rule follows_dollar [OF assms(1)])
     apply (rule assms(2))
    apply (rule follows_then_Return)
     apply (rule follows_queryPostgres_file)
       apply assumption
      apply (rule chunk_path_nonempty)
     apply (rule assms(3))
    apply assumption
    done
  then show ?thesis by (simp add: geojson_cmds_def)
qed

lemma follows_geobuf_chunk:
  assumes "good exec w0 pre s"
    and "\<And>q f. H (PsqlXxdToFile q f) = (Exported f q, QueryPostgres)"
  shows "follows exec H P w0 pre (geobuf_cmds t idc g cs base props x)
           (geobuf_chunk exec t idc g cs base props x s)"
  unfolding geobuf_chunk_def geobuf_cmds_def Let_def
  apply (rule follows_then_Return)
   apply (rule follows_queryPostgres_gbf_file [OF assms(1)])
    apply (rule chunk_path_nonempty)
   apply (rule assms(2))
  apply assumption
  done

lemma follows_geojson_export:
  assumes g: "good exec w0 pre s"
    and c: "0 < C"
    and r: "exitCode (fst (exec (Psql (CountRows t)) (replay exec w0 pre))) = 0
              \<longrightarrow> count_of exec t (replay exec w0 pre) = Num R"
    and H: "H = diagnostic TableToGeojsonChunks t fp"
  shows "\<exists>r. tableToGeojsonChunks exec t gc idc (Num C) fp s = Some r \<and>
           follows exec H P w0 pre
             (Psql (CountRows t) #
                concat (map (geojson_cmds t gc idc (Num C) (split_first ''.geojson'' fp))
                  (offsets_from 0 R C))) r"
proof -
  let ?base = "split_first ''.geojson'' fp"
  let ?l = "Created TableToGeojsonChunks t fp"
  let ?P = "\<lambda>c. H c = (?l, TableToGeojsonChunks)"
  let ?chunks = "concat (map (geojson_cmds t gc idc (Num C) ?base) (offsets_from 0 R C))"
  let ?q = "queryPostgres exec (CountRows t) [] s"
  let ?body = "geojson_chunk exec t gc idc (Num C) ?base"
  have q: "follows exec H ?P w0 pre [Psql (CountRows t)] ?q"
    by (rule follows_queryPostgres [OF g]) (simp add: H)
  have body: "\<And>x pre' s'. good exec w0 pre' s' \<Longrightarrow>
      follows exec H ?P w0 pre' (geojson_cmds t gc idc (Num C) ?base x) (?body x s')"
    by (rule follows_geojson_chunk) (simp_all add: H)
  show ?thesis
  proof (cases ?q)
    case (Return out s1)
    with q have g1: "good exec w0 (pre @ [Psql (CountRows t)]) s1"
      by (simp add: follows_def)
    from Return g have out: "out = fst (exec (Psql (CountRows t)) (replay exec w0 pre))"
      by (auto dest: queryPostgres_Return simp: good_def)
    from g1 have "exitCode out = 0"
      by (simp add: good_def succeed_append out)
    with r out have count: "parseInt (trim (stdout out)) = Num R"
      by (simp add: count_of_def)
    let ?loop = "run_chunks ?body (offsets_from 0 R C) s1"
    have loop: "chunk_loop ?body (Num R) (Num C) (Num 0) s1 = Some ?loop"
      by (rule chunk_loop_unroll [OF c refl])
    have "follows exec H ?P w0 (pre @ [Psql (CountRows t)]) ?chunks ?loop"
      by (rule follows_run_chunks [OF g1 body])
    then have "follows exec H ?P w0 (pre @ [Psql (CountRows t)]) ?chunks
                 (then_do ?loop (\<lambda>_ s2. Return fp (say (TimeEnd ?l) s2)))"
      by (rule follows_then_Return) (simp add: good_say)
    then have "follows exec H ?P w0 pre ([Psql (CountRows t)] @ ?chunks)
                 (then_do ?loop (\<lambda>_ s2. Return fp (say (TimeEnd ?l) s2)))"
      by (rule follows_shift)
    then have "follows exec H P w0 pre ([Psql (CountRows t)] @ ?chunks)
                 (catch_exit TableToGeojsonChunks ?l
                    (then_do ?loop (\<lambda>_ s2. Return fp (say (TimeEnd ?l) s2))))"
      by (rule follows_catch_exit) simp
    then show ?thesis
      using Return count loop by (simp add: tableToGeojsonChunks_def Let_def)
  next
    case (Throw e s1)
    have "follows exec H (\<lambda>_. False) w0 pre [Psql (CountRows t)] ?q"
      by (rule follows_queryPostgres [OF g]) (simp add: H)
    with Throw show ?thesis by (simp add: follows_def)
  next
    case (Exit n s1)
    have "follows exec H P w0 pre ([Psql (CountRows t)] @ ?chunks) (then_do ?q (\<lambda>_ s. Return fp s))"
      by (rule follows_then_do, rule follows_queryPostgres [OF g]) (simp_all add: H Exit)
    with Exit show ?thesis
      by (simp add: tableToGeojsonChunks_def Let_def then_do_def catch_exit_def)
  qed
qed

lemma follows_geobuf_export:
  assumes g: "good exec w0 pre s"
    and c: "0 < C"
    and r: "exitCode (fst (exec (Psql (CountRows t)) (replay exec w0 pre))) = 0
              \<longrightarrow> count_of exec t (replay exec w0 pre) = Num R"
    and H: "H = diagnostic TableToGeobufChunks t fp"
    and props: "props = properties_of idc gc
                  (columns_of exec t (replay exec w0 (pre @ [Psql (CountRows t)])))"
  shows "\<exists>r. tableToGeobufChunks exec t idc gc (Num C) fp s = Some r \<and>
           follows exec H P w0 pre
             (Psql (CountRows t) # Psql (ColumnNames t) #
                concat (map (geobuf_cmds t idc gc (Num C) (split_first ''.gbf'' fp) props)
                  (offsets_from 0 R C))) r"
proof -
  let ?base = "split_first ''.gbf'' fp"
  let ?l = "Created TableToGeobufChunks t fp"
  let ?P = "\<lambda>c. H c = (?l, TableToGeobufChunks)"
  let ?chunks = "concat (map (geobuf_cmds t idc gc (Num C) ?base props) (offsets_from 0 R C))"
  let ?q = "queryPostgres_gbf exec (CountRows t) [] s"
  let ?body = "geobuf_chunk exec t idc gc (Num C) ?base props"
  let ?plan = "[Psql (CountRows t)] @ [Psql (ColumnNames t)] @ ?chunks"
  have q: "follows exec H ?P w0 pre [Psql (CountRows t)] ?q"
    by (rule follows_queryPostgres_gbf [OF g]) (simp add: H)
  have body: "\<And>x pre' s'. good exec w0 pre' s' \<Longrightarrow>
      follows exec H ?P w0 pre' (geobuf_cmds t idc gc (Num C) ?base props x) (?body x s')"
    by (rule follows_geobuf_chunk) (simp_all add: H)
  show ?thesis
  proof (cases ?q)
    case (Return out s1)
    with q have g1: "good exec w0 (pre @ [Psql (CountRows t)]) s1"
      by (simp add: follows_def)
    from Return g have out: "out = fst (exec (Psql (CountRows t)) (replay exec w0 pre))"
      by (auto dest: queryPostgres_gbf_Return simp: good_def)
    from g1 have "exitCode out = 0"
      by (simp add: good_def succeed_append out)
    with r out have count: "parseInt (trim (stdout out)) = Num R"
      by (simp add: count_of_def)
    let ?q2 = "queryPostgres_gbf exec (ColumnNames t) [] s1"
    have q2: "follows exec H ?P w0 (pre @ [Psql (CountRows t)]) [Psql (ColumnNames t)] ?q2"
      by (rule follows_queryPostgres_gbf [OF g1]) (simp add: H)
    show ?thesis
    proof (cases ?q2)
      case (Return cols s2)
      note Return2 = this
      with q2 have g2: "good exec w0 ((pre @ [Psql (CountRows t)]) @ [Psql (ColumnNames t)]) s2"
        by (simp add: follows_def)
      from Return2 g1 have cols: "properties_of idc gc (stdout cols) = props"
        by (auto dest: queryPostgres_gbf_Return simp: good_def props columns_of_def)
      let ?loop = "run_chunks ?body (offsets_from 0 R C) s2"
      have loop: "chunk_loop ?body (Num R) (Num C) (Num 0) s2 = Some ?loop"
        by (rule chunk_loop_unroll [OF c refl])
      have "follows exec H ?P w0 ((pre @ [Psql (CountRows t)]) @ [Psql (ColumnNames t)]) ?chunks ?loop"
        by (rule follows_run_chunks [OF g2 body])
      then have "follows exec H ?P w0 ((pre @ [Psql (CountRows t)]) @ [Psql (ColumnNames t)]) ?chunks
                   (then_do ?loop (\<lambda>_ s3. Return fp (say (TimeEnd ?l) s3)))"
        by (rule follows_then_Return) (simp add: good_say)
      then have "follows exec H ?P w0 (pre @ [Psql (CountRows t)]) ([Psql (ColumnNames t)] @ ?chunks)
                   (then_do ?loop (\<lambda>_ s3. Return fp (say (TimeEnd ?l) s3)))"
        by (rule follows_shift)
      then have "follows exec H ?P w0 pre ?plan
                   (then_do ?loop (\<lambda>_ s3. Return fp (say (TimeEnd ?l) s3)))"
        by (rule follows_shift)
      then have "follows exec H P w0 pre ?plan
                   (catch_exit TableToGeobufChunks ?l
                      (then_do ?loop (\<lambda>_ s3. Return fp (say (TimeEnd ?l) s3))))"
        by (rule follows_catch_exit) simp
      then show ?thesis
        using \<open>?q = Return out s1\<close> Return2 count cols loop
        by (simp add: tableToGeobufChunks_def Let_def)
    next
      case (Throw e s2)
      have "follows exec H (\<lambda>_. False) w0 (pre @ [Psql (CountRows t)]) [Psql (ColumnNames t)] ?q2"
        by (rule follows_queryPostgres_gbf [OF g1]) (simp add: H)
      with Throw show ?thesis by (simp add: follows_def)
    next
      case (Exit n s2)
      have "follows exec H P w0 (pre @ [Psql (CountRows t)]) ([Psql (ColumnNames t)] @ ?chunks)
              (then_do ?q2 (\<lambda>_ s. Return fp s))"
        by (rule follows_then_do, rule follows_queryPostgres_gbf [OF g1]) (simp_all add: H Exit)
      then have "follows exec H P w0 pre ?plan (then_do ?q2 (\<lambda>_ s. Return fp s))"
        by (rule follows_shift)
      with Exit \<open>?q = Return out s1\<close> show ?thesis
        by (simp add: tableToGeobufChunks_def Let_def then_do_def catch_exit_def)
    qed
  next
    case (Throw e s1)
    have "follows exec H (\<lambda>_. False) w0 pre [Psql (CountRows t)] ?q"
      by (rule follows_queryPostgres_gbf [OF g]) (simp add: H)
    with Throw show ?thesis by (simp add: follows_def)
  next
    case (Exit n s1)
    have "follows exec H P w0 pre ?plan (then_do ?q (\<lambda>_ s. Return fp s))"
      by (rule follows_then_do, rule follows_queryPostgres_gbf [OF g]) (simp_all add: H Exit)
    with Exit show ?thesis
      by (simp add: tableToGeobufChunks_def Let_def then_do_def catch_exit_def)
  qed
qed

lemma chunks_written_good:
  "chunks_written (map (\<lambda>c. (c, 0)) cs)
     = map (\<lambda>(f, q). (f, sub_offset (fetch_in q))) (List.map_filter chunk_of cs)"
  by (induction cs) (simp_all add: chunks_written_def List.map_filter_simps split: option.splits)

lemma map_filter_append: "List.map_filter f (xs @ ys) = List.map_filter f xs @ List.map_filter f ys"
  by (simp add: List.map_filter_def)

lemma chunks_of_ogr2ogr_cmds:
  "map (\<lambda>(f, q). (f, sub_offset (fetch_in q)))
     (List.map_filter chunk_of (concat (map (ogr2ogr_cmds t idc cs base) xs)))
   = map (\<lambda>x. (chunk_path base x ''.geojson'', x)) xs"
  by (induction xs)
     (simp_all add: List.map_filter_simps map_filter_append ogr2ogr_cmds_def page_query_def)

lemma chunks_of_geojson_cmds:
  "map (\<lambda>(f, q). (f, sub_offset (fetch_in q)))
     (List.map_filter chunk_of (concat (map (geojson_cmds t gc idc cs base) xs)))
   = map (\<lambda>x. (chunk_path base x ''.geojson'', x)) xs"
  by (induction xs)
     (simp_all add: List.map_filter_simps map_filter_append geojson_cmds_def page_query_def)

lemma chunks_of_geobuf_cmds:
  "map (\<lambda>(f, q). (f, sub_offset (fetch_in q)))
     (List.map_filter chunk_of (concat (map (geobuf_cmds t idc gc cs base props) xs)))
   = map (\<lambda>x. (chunk_path base x ''.gbf'', x)) xs"
  by (induction xs)
     (simp_all add: List.map_filter_simps map_filter_append geobuf_cmds_def page_query_def)

lemma offsets_from_0_nonneg:
  "0 \<le> R \<Longrightarrow> 0 < C \<Longrightarrow> offsets_from 0 R C = map (\<lambda>k. Num (int k * C)) [0..<Suc (nat (R div C))]"
  by (simp add: offsets_from_0 nat_add_distrib pos_imp_zdiv_nonneg_iff)

lemma catch_exit_Return: "catch_exit f l r = Return a s \<longleftrightarrow> r = Return a s"
  by (cases r) (simp_all add: catch_exit_def)

lemma then_do_Return_const:
  "then_do r (\<lambda>_ s2. Return fp (g s2)) = Return a s \<Longrightarrow> a = fp"
  by (cases r) (simp_all add: then_do_def)

lemma ogr2ogr_export_Return:
  "tableToGeojsonChunksOgr2ogr exec t idc cs fp s = Some (Return a s') \<Longrightarrow> a = fp"
  by (auto simp: tableToGeojsonChunksOgr2ogr_def Let_def catch_exit_Return
      split: outcome.splits option.splits dest: then_do_Return_const)

lemma geojson_export_Return:
  "tableToGeojsonChunks exec t gc idc cs fp s = Some (Return a s') \<Longrightarrow> a = fp"
  by (auto simp: tableToGeojsonChunks_def Let_def catch_exit_Return
      split: outcome.splits option.splits dest: then_do_Return_const)

lemma geobuf_export_Return:
  "tableToGeobufChunks exec t idc gc cs fp s = Some (Return a s') \<Longrightarrow> a = fp"
  by (auto simp: tableToGeobufChunks_def Let_def catch_exit_Return
      split: outcome.splits option.splits dest: then_do_Return_const)

lemma ogr2ogr_export_all_succeed:
  assumes "0 \<le> R" "0 < C"
    and ok: "\<forall>c w. exitCode (fst (exec c w)) = 0"
    and cnt: "count_of exec t w = Num R"
  shows "\<exists>s'. tableToGeojsonChunksOgr2ogr exec t idc (Num C) fp (init w) = Some (Return fp s') \<and>
           chunks_written (trace s')
             = map (\<lambda>k. (chunk_path (split_first ''.geojson'' fp) (Num (int k * C)) ''.geojson'',
                          Num (int k * C))) [0..<Suc (nat (R div C))]"
proof -
  let ?H = "diagnostic TableToGeojsonChunksOgr2ogr t fp"
  have cnt': "exitCode (fst (exec (Psql (CountRows t)) (replay exec w []))) = 0
                \<longrightarrow> count_of exec t (replay exec w []) = Num R"
    using cnt by (simp add: replay_def)
  from follows_ogr2ogr_export [OF good_init assms(2) cnt' refl, where P = "\<lambda>_. False"]
  obtain r where r: "tableToGeojsonChunksOgr2ogr exec t idc (Num C) fp (init w) = Some r"
    and f: "follows exec ?H (\<lambda>_. False) w []
              (Psql (CountRows t) #
                 concat (map (ogr2ogr_cmds t idc (Num C) (split_first ''.geojson'' fp))
                   (offsets_from 0 R C))) r"
    by blast
  from follows_all_succeed [OF f ok] obtain a s' where a: "r = Return a s'"
    and tr: "trace s' = map (\<lambda>c. (c, 0)) ([] @ Psql (CountRows t) #
                 concat (map (ogr2ogr_cmds t idc (Num C) (split_first ''.geojson'' fp))
                   (offsets_from 0 R C)))"
    by blast
  from r a have "a = fp" by (auto dest: ogr2ogr_export_Return)
  moreover have "chunks_written (trace s')
             = map (\<lambda>x. (chunk_path (split_first ''.geojson'' fp) x ''.geojson'', x))
                 (offsets_from 0 R C)"
    unfolding tr chunks_written_good
    by (simp add: List.map_filter_simps chunks_of_ogr2ogr_cmds)
  then have "chunks_written (trace s')
             = map (\<lambda>k. (chunk_path (split_first ''.geojson'' fp) (Num (int k * C)) ''.geojson'',
                          Num (int k * C))) [0..<Suc (nat (R div C))]"
    by (simp only: offsets_from_0_nonneg [OF assms(1,2)] map_map comp_def)
  ultimately show ?thesis using r a by simp
qed

lemma geojson_export_all_succeed:
  assumes "0 \<le> R" "0 < C"
    and ok: "\<forall>c w. exitCode (fst (exec c w)) = 0"
    and cnt: "count_of exec t w = Num R"
  shows "\<exists>s'. tableToGeojsonChunks exec t gc idc (Num C) fp (init w) = Some (Return fp s') \<and>
           chunks_written (trace s')
             = map (\<lambda>k. (chunk_path (split_first ''.geojson'' fp) (Num (int k * C)) ''.geojson'',
                          Num (int k * C))) [0..<Suc (nat (R div C))]"
proof -
  let ?H = "diagnostic TableToGeojsonChunks t fp"
  let ?plan = "Psql (CountRows t) #
                 concat (map (geojson_cmds t gc idc (Num C) (split_first ''.geojson'' fp))
                   (offsets_from 0 R C))"
  have cnt': "exitCode (fst (exec (Psql (CountRows t)) (replay exec w []))) = 0
                \<longrightarrow> count_of exec t (replay exec w []) = Num R"
    using cnt by (simp add: replay_def)
  from follows_geojson_export [OF good_init assms(2) cnt' refl, where P = "\<lambda>_. False"]
  obtain r where r: "tableToGeojsonChunks exec t gc idc (Num C) fp (init w) = Some r"
    and f: "follows exec ?H (\<lambda>_. False) w [] ?plan r"
    by blast
  from follows_all_succeed [OF f ok] obtain a s' where a: "r = Return a s'"
    and tr: "trace s' = map (\<lambda>c. (c, 0)) ([] @ ?plan)"
    by blast
  from r a have "a = fp" by (auto dest: geojson_export_Return)
  moreover have "chunks_written (trace s')
             = map (\<lambda>x. (chunk_path (split_first ''.geojson'' fp) x ''.geojson'', x))
                 (offsets_from 0 R C)"
    unfolding tr chunks_written_good
    by (simp add: List.map_filter_simps chunks_of_geojson_cmds)
  then have "chunks_written (trace s')
             = map (\<lambda>k. (chunk_path (split_first ''.geojson'' fp) (Num (int k * C)) ''.geojson'',
                          Num (int k * C))) [0..<Suc (nat (R div C))]"
    by (simp only: offsets_from_0_nonneg [OF assms(1,2)] map_map comp_def)
  ultimately show ?thesis using r a by simp
qed

lemma geobuf_export_all_succeed:
  assumes "0 \<le> R" "0 < C"
    and ok: "\<forall>c w. exitCode (fst (exec c w)) = 0"
    and cnt: "count_of exec t w = Num R"
  shows "\<exists>s'. tableToGeobufChunks exec t idc gc (Num C) fp (init w) = Some (Return fp s') \<and>
           chunks_written (trace s')
             = map (\<lambda>k. (chunk_path (split_first ''.gbf'' fp) (Num (int k * C)) ''.gbf'',
                          Num (int k * C))) [0..<Suc (nat (R div C))]"
proof -
  let ?H = "diagnostic TableToGeobufChunks t fp"
  let ?props = "properties_of idc gc (columns_of exec t (replay exec w ([] @ [Psql (CountRows t)])))"
  let ?plan = "Psql (CountRows t) # Psql (ColumnNames t) #
                 concat (map (geobuf_cmds t idc gc (Num C) (split_first ''.gbf'' fp) ?props)
                   (offsets_from 0 R C))"
  have cnt': "exitCode (fst (exec (Psql (CountRows t)) (replay exec w []))) = 0
                \<longrightarrow> count_of exec t (replay exec w []) = Num R"
    using cnt by (simp add: replay_def)
  from follows_geobuf_export [OF good_init assms(2) cnt' refl refl, where P = "\<lambda>_. False"]
  obtain r where r: "tableToGeobufChunks exec t idc gc (Num C) fp (init w) = Some r"
    and f: "follows exec ?H (\<lambda>_. False) w [] ?plan r"
    by blast
  from follows_all_succeed [OF f ok] obtain a s' where a: "r = Return a s'"
    and tr: "trace s' = map (\<lambda>c. (c, 0)) ([] @ ?plan)"
    by blast
  from r a have "a = fp" by (auto dest: geobuf_export_Return)
  moreover have "chunks_written (trace s')
             = map (\<lambda>x. (chunk_path (split_first ''.gbf'' fp) x ''.gbf'', x))
                 (offsets_from 0 R C)"
    unfolding tr chunks_written_good
    by (simp add: List.map_filter_simps chunks_of_geobuf_cmds)
  then have "chunks_written (trace s')
             = map (\<lambda>k. (chunk_path (split_first ''.gbf'' fp) (Num (int k * C)) ''.gbf'',
                          Num (int k * C))) [0..<Suc (nat (R div C))]"
    by (simp only: offsets_from_0_nonneg [OF assms(1,2)] map_map comp_def)
  ultimately show ?thesis using r a by simp
qed

lemma multiples_set:
  assumes "0 \<le> R" "0 < C"
  shows "set (map (\<lambda>k. Num (int k * C)) [0..<Suc (nat (R div C))])
           = {Num n | n. 0 \<le> n \<and> n \<le> R \<and> C dvd n}"
proof (intro set_eqI iffI)
  fix x assume "x \<in> set (map (\<lambda>k. Num (int k * C)) [0..<Suc (nat (R div C))])"
  then have "\<exists>k. x = Num (int k * C) \<and> k \<le> nat (R div C)"
    by (auto simp: less_Suc_eq_le simp del: upt_Suc)
  then obtain k where k: "x = Num (int k * C)" "k \<le> nat (R div C)"
    by blast
  from k(2) assms have "int k \<le> R div C"
    by (simp add: pos_imp_zdiv_nonneg_iff le_nat_iff)
  then have "int k * C \<le> (R div C) * C"
    using assms(2) by (simp add: mult_right_mono)
  also have "\<dots> \<le> R"
    using div_mult_mod_eq [of R C] pos_mod_sign [OF assms(2), of R] by linarith
  finally have "int k * C \<le> R" .
  with k(1) assms(2) show "x \<in> {Num n | n. 0 \<le> n \<and> n \<le> R \<and> C dvd n}" by simp
next
  fix x assume "x \<in> {Num n | n. 0 \<le> n \<and> n \<le> R \<and> C dvd n}"
  then obtain n where n: "x = Num n" "0 \<le> n" "n \<le> R" "C dvd n" by blast
  from n(4) obtain m where m: "n = m * C" by (auto simp: dvd_def mult.commute)
  with n(2) assms(2) have m0: "0 \<le> m"
    by (simp add: zero_le_mult_iff)
  have "m = n div C" using m assms(2) by simp
  also have "\<dots> \<le> R div C" using n(3) assms(2) by (simp add: zdiv_mono1)
  finally have "nat m \<le> nat (R div C)" by simp
  moreover have "x = Num (int (nat m) * C)" using n(1) m m0 by simp
  ultimately show "x \<in> set (map (\<lambda>k. Num (int k * C)) [0..<Suc (nat (R div C))])"
    by (auto simp: image_iff less_Suc_eq_le simp del: upt_Suc intro!: bexI [of _ "nat m"])
qed

lemma run_chunks_count:
  "run_chunks (\<lambda>_ n. Return () (Suc n)) xs n = Return () (n + length xs)"
  by (induction xs arbitrary: n) (simp_all add: then_do_def)

section \<open>The offsets of the chunks\<close>

text \<open>
  Claim C1. For a table of \<open>R \<ge> 0\<close> rows and a chunk size \<open>C \<ge> 1\<close>, when every
  command succeeds, the exporters (the \<^verbatim>\<open>ogr2ogr\<close> one and the Geobuf one) return, and
  the offsets of the chunks they export are, in this order and once each,
  \<open>0, C, 2C, \<dots>, \<lfloor>R/C\<rfloor>\<cdot>C\<close>: as a set, the multiples of \<open>C\<close> from 0 to \<open>R\<close>. So the
  offset \<open>R\<close> itself is among them when \<open>C\<close> divides \<open>R\<close>, and no offset above
  \<open>R\<close> is.
\<close>

theorem chunk_offsets_generated:
  assumes "0 \<le> R" and "1 \<le> C"
    and "\<forall>c w. exitCode (fst (exec c w)) = 0"
    and "count_of exec t w = Num R"
  shows "\<exists>s1 s2.
      tableToGeojsonChunksOgr2ogr exec t idc (Num C) fp (init w) = Some (Return fp s1) \<and>
      tableToGeobufChunks exec t idc gc (Num C) fp' (init w) = Some (Return fp' s2) \<and>
      map snd (chunks_written (trace s1)) = map (\<lambda>k. Num (int k * C)) [0..<Suc (nat (R div C))] \<and>
      map snd (chunks_written (trace s2)) = map (\<lambda>k. Num (int k * C)) [0..<Suc (nat (R div C))] \<and>
      set (map snd (chunks_written (trace s1))) = {Num n | n. 0 \<le> n \<and> n \<le> R \<and> C dvd n} \<and>
      set (map snd (chunks_written (trace s2))) = {Num n | n. 0 \<le> n \<and> n \<le> R \<and> C dvd n} \<and>
      (C dvd R \<longrightarrow> Num R \<in> set (map snd (chunks_written (trace s1)))
                 \<and> Num R \<in> set (map snd (chunks_written (trace s2)))) \<and>
      (\<forall>n. R < n \<longrightarrow> Num n \<notin> set (map snd (chunks_written (trace s1)))
                 \<and> Num n \<notin> set (map snd (chunks_written (trace s2))))"
proof -
  from assms(2) have C: "0 < C" by simp
  let ?offs = "map (\<lambda>k. Num (int k * C)) [0..<Suc (nat (R div C))]"
  from ogr2ogr_export_all_succeed [OF assms(1) C assms(3,4), of idc fp]
  obtain s1 where s1: "tableToGeojsonChunksOgr2ogr exec t idc (Num C) fp (init w) = Some (Return fp s1)"
    and c1: "chunks_written (trace s1)
             = map (\<lambda>k. (chunk_path (split_first ''.geojson'' fp) (Num (int k * C)) ''.geojson'',
                          Num (int k * C))) [0..<Suc (nat (R div C))]"
    by blast
  from geobuf_export_all_succeed [OF assms(1) C assms(3,4), of idc gc fp']
  obtain s2 where s2: "tableToGeobufChunks exec t idc gc (Num C) fp' (init w) = Some (Return fp' s2)"
    and c2: "chunks_written (trace s2)
             = map (\<lambda>k. (chunk_path (split_first ''.gbf'' fp') (Num (int k * C)) ''.gbf'',
                          Num (int k * C))) [0..<Suc (nat (R div C))]"
    by blast
  have o1: "map snd (chunks_written (trace s1)) = ?offs"
    by (simp only: c1 map_map comp_def snd_conv)
  have o2: "map snd (chunks_written (trace s2)) = ?offs"
    by (simp only: c2 map_map comp_def snd_conv)
  have set: "set ?offs = {Num n | n. 0 \<le> n \<and> n \<le> R \<and> C dvd n}"
    by (rule multiples_set [OF assms(1) C])
  have inR: "C dvd R \<longrightarrow> Num R \<in> set ?offs"
    unfolding set using assms(1) by simp
  have above: "\<forall>n. R < n \<longrightarrow> Num n \<notin> set ?offs"
    unfolding set by simp
  from s1 s2 o1 o2 set inR above show ?thesis
    by (intro exI [of _ s1] exI [of _ s2]) (simp only: simp_thms)
qed

lemma sim_never_fails: "\<forall>c w. exitCode (fst (sim rows cols (\<lambda>_. False) c w)) = 0"
  by (simp add: sim_def succeeded_def)

lemma count_of_sim_ok_10: "count_of (sim 10 cols (\<lambda>_. False)) t w = Num 10"
  by (simp add: count_of_def sim_def succeeded_def psql_t_def trim_def show_nat.simps
      digit_char_def parseInt_def is_space_def is_digit_def digits_value_def digit_val_def)

theorem chunk_offsets_generated_witness:
  "\<exists>s1 s2.
      tableToGeojsonChunksOgr2ogr (sim 10 [] (\<lambda>_. False)) ''table'' ''id'' (Num 4)
        ''layer.geojson'' (init []) = Some (Return ''layer.geojson'' s1) \<and>
      tableToGeobufChunks (sim 10 [] (\<lambda>_. False)) ''table'' ''id'' ''geom'' (Num 4)
        ''layer.gbf'' (init []) = Some (Return ''layer.gbf'' s2) \<and>
      map snd (chunks_written (trace s1)) = [Num 0, Num 4, Num 8] \<and>
      map snd (chunks_written (trace s2)) = [Num 0, Num 4, Num 8] \<and>
      Num 12 \<notin> set (map snd (chunks_written (trace s1))) \<and>
      Num 12 \<notin> set (map snd (chunks_written (trace s2)))"
proof -
  have le: "(0::int) \<le> 10" "(1::int) \<le> 4" by simp_all
  have list: "map (\<lambda>k. Num (int k * 4)) [0..<Suc (nat (10 div 4))] = [Num 0, Num 4, Num 8]"
    by (simp add: upt_rec)
  from chunk_offsets_generated [OF le sim_never_fails [of 10 "[]"]
      count_of_sim_ok_10 [of "[]" "''table''" "[]"],
      where idc = "''id''" and fp = "''layer.geojson''" and gc = "''geom''"
        and fp' = "''layer.gbf''"]
  obtain s1 s2 where
    "tableToGeojsonChunksOgr2ogr (sim 10 [] (\<lambda>_. False)) ''table'' ''id'' (Num 4)
        ''layer.geojson'' (init []) = Some (Return ''layer.geojson'' s1)"
    "tableToGeobufChunks (sim 10 [] (\<lambda>_. False)) ''table'' ''id'' ''geom'' (Num 4)
        ''layer.gbf'' (init []) = Some (Return ''layer.gbf'' s2)"
    "map snd (chunks_written (trace s1)) = map (\<lambda>k. Num (int k * 4)) [0..<Suc (nat (10 div 4))]"
    "map snd (chunks_written (trace s2)) = map (\<lambda>k. Num (int k * 4)) [0..<Suc (nat (10 div 4))]"
    by blast
  then show ?thesis
    unfolding list by (intro exI [of _ s1] exI [of _ s2]) simp
qed

text \<open>
  Claim C6. For a count \<open>R \<ge> 0\<close> and a chunk size \<open>C \<ge> 1\<close> the loop of the exporters
  ends whatever its body does; a body that only counts its runs ends with
  \<open>\<lfloor>R/C\<rfloor> + 1\<close>; and when every command succeeds, the \<^verbatim>\<open>ogr2ogr\<close> exporter and
  the SQL exporter return having exported exactly \<open>\<lfloor>R/C\<rfloor> + 1\<close> chunks, so at least
  one, also when \<open>R = 0\<close>.
\<close>

theorem loop_iterations:
  assumes "0 \<le> R" and "1 \<le> C"
  shows "(\<exists>r. chunk_loop body (Num R) (Num C) (Num 0) s = Some r) \<and>
     chunk_loop (\<lambda>_ n. Return () (Suc n)) (Num R) (Num C) (Num 0) 0
       = Some (Return () (Suc (nat (R div C)))) \<and>
     ((\<forall>c w. exitCode (fst (exec c w)) = 0) \<and> count_of exec t w = Num R \<longrightarrow>
        (\<exists>s1 s2.
           tableToGeojsonChunksOgr2ogr exec t idc (Num C) fp (init w) = Some (Return fp s1) \<and>
           tableToGeojsonChunks exec t gc idc (Num C) fp (init w) = Some (Return fp s2) \<and>
           length (chunks_written (trace s1)) = Suc (nat (R div C)) \<and>
           length (chunks_written (trace s2)) = Suc (nat (R div C)) \<and>
           1 \<le> length (chunks_written (trace s1)) \<and>
           1 \<le> length (chunks_written (trace s2))))"
proof (intro conjI impI)
  from assms(2) have C: "0 < C" by simp
  show "\<exists>r. chunk_loop body (Num R) (Num C) (Num 0) s = Some r"
    using chunk_loop_unroll [OF C refl, where r = R and off = 0 and body = body and s = s]
    by blast
  have len: "length (offsets_from 0 R C) = Suc (nat (R div C))"
    by (simp add: offsets_from_0_nonneg [OF assms(1) C] del: upt_Suc)
  show "chunk_loop (\<lambda>_ n. Return () (Suc n)) (Num R) (Num C) (Num 0) 0
          = Some (Return () (Suc (nat (R div C))))"
    using chunk_loop_unroll [OF C refl, where r = R and off = 0
        and body = "\<lambda>_ n. Return () (Suc n)" and s = "0::nat"]
    by (simp add: run_chunks_count len)
  assume h: "(\<forall>c w. exitCode (fst (exec c w)) = 0) \<and> count_of exec t w = Num R"
  from ogr2ogr_export_all_succeed [OF assms(1) C, where exec = exec and t = t and w = w
      and idc = idc and fp = fp] h
  obtain s1 where s1: "tableToGeojsonChunksOgr2ogr exec t idc (Num C) fp (init w) = Some (Return fp s1)"
    and l1: "length (chunks_written (trace s1)) = Suc (nat (R div C))"
    by (auto simp del: upt_Suc)
  from geojson_export_all_succeed [OF assms(1) C, where exec = exec and t = t and w = w
      and gc = gc and idc = idc and fp = fp] h
  obtain s2 where s2: "tableToGeojsonChunks exec t gc idc (Num C) fp (init w) = Some (Return fp s2)"
    and l2: "length (chunks_written (trace s2)) = Suc (nat (R div C))"
    by (auto simp del: upt_Suc)
  from s1 s2 l1 l2 show "\<exists>s1 s2.
           tableToGeojsonChunksOgr2ogr exec t idc (Num C) fp (init w) = Some (Return fp s1) \<and>
           tableToGeojsonChunks exec t gc idc (Num C) fp (init w) = Some (Return fp s2) \<and>
           length (chunks_written (trace s1)) = Suc (nat (R div C)) \<and>
           length (chunks_written (trace s2)) = Suc (nat (R div C)) \<and>
           1 \<le> length (chunks_written (trace s1)) \<and>
           1 \<le> length (chunks_written (trace s2))"
    by (intro exI [of _ s1] exI [of _ s2]) simp
qed

lemma count_of_sim_ok_0: "count_of (sim 0 cols (\<lambda>_. False)) t w = Num 0"
  by (simp add: count_of_def sim_def succeeded_def psql_t_def trim_def show_nat.simps
      digit_char_def parseInt_def is_space_def is_digit_def digits_value_def digit_val_def)

theorem loop_iterations_witness:
  "chunk_loop (\<lambda>_ n. Return () (Suc n)) (Num 0) (Num 4) (Num 0) (0::nat) = Some (Return () 1) \<and>
   (\<exists>s1 s2.
      tableToGeojsonChunksOgr2ogr (sim 0 [] (\<lambda>_. False)) ''table'' ''id'' (Num 4)
        ''layer.geojson'' (init []) = Some (Return ''layer.geojson'' s1) \<and>
      tableToGeojsonChunks (sim 0 [] (\<lambda>_. False)) ''table'' ''geom'' ''id'' (Num 4)
        ''layer.geojson'' (init []) = Some (Return ''layer.geojson'' s2) \<and>
      length (chunks_written (trace s1)) = 1 \<and>
      length (chunks_written (trace s2)) = 1)"
proof -
  have le: "(0::int) \<le> 0" "(1::int) \<le> 4" by simp_all
  have h: "(\<forall>c w. exitCode (fst (sim 0 [] (\<lambda>_. False) c w)) = 0) \<and>
           count_of (sim 0 [] (\<lambda>_. False)) ''table'' [] = Num 0"
    using sim_never_fails [of 0 "[]"] count_of_sim_ok_0 [of "[]" "''table''" "[]"] by simp
  from loop_iterations [OF le, where body = "\<lambda>_ n. Return () (Suc n)" and s = "0::nat"
      and exec = "sim 0 [] (\<lambda>_. False)" and t = "''table''" and w = "[]" and idc = "''id''"
      and gc = "''geom''" and fp = "''layer.geojson''"] h
  show ?thesis by auto
qed

section \<open>The page of rows of a chunk\<close>

lemma chunk_of_ogr2ogr_cmds:
  "c \<in> set (concat (map (ogr2ogr_cmds t idc cs base) xs)) \<Longrightarrow> chunk_of c = Some (f, q)
     \<Longrightarrow> \<exists>x \<in> set xs. q = page_query t idc cs x"
  by (auto simp: ogr2ogr_cmds_def)

lemma chunk_of_geojson_cmds:
  "c \<in> set (concat (map (geojson_cmds t gc idc cs base) xs)) \<Longrightarrow> chunk_of c = Some (f, q)
     \<Longrightarrow> \<exists>x \<in> set xs. q = page_query t idc cs x"
  by (auto simp: geojson_cmds_def)

lemma chunk_of_geobuf_cmds:
  "c \<in> set (concat (map (geobuf_cmds t idc gc cs base props) xs)) \<Longrightarrow> chunk_of c = Some (f, q)
     \<Longrightarrow> \<exists>x \<in> set xs. q = page_query t idc cs x"
  by (auto simp: geobuf_cmds_def)

lemma offsets_from_0_member: "x \<in> set (offsets_from 0 R C) \<Longrightarrow> \<exists>k. x = Num (int k * C)"
  by (auto simp: offsets_from_0)

lemma ordered_page_page_query: "ordered_page idc C (page_query t idc (Num C) (Num (int k * C)))"
  by (auto simp: ordered_page_def page_query_def)

lemma ogr2ogr_export_pages:
  assumes "0 < C"
    and "exitCode (fst (exec (Psql (CountRows t)) w)) = 0 \<longrightarrow> count_of exec t w = Num R"
  shows "\<exists>r. tableToGeojsonChunksOgr2ogr exec t idc (Num C) fp (init w) = Some r \<and>
           (\<forall>x \<in> set (trace (state_of r)). \<forall>f q. chunk_of (fst x) = Some (f, q)
               \<longrightarrow> ordered_page idc C q)"
proof -
  let ?plan = "Psql (CountRows t) #
                 concat (map (ogr2ogr_cmds t idc (Num C) (split_first ''.geojson'' fp))
                   (offsets_from 0 R C))"
  have cnt': "exitCode (fst (exec (Psql (CountRows t)) (replay exec w []))) = 0
                \<longrightarrow> count_of exec t (replay exec w []) = Num R"
    using assms(2) by (simp add: replay_def)
  from follows_ogr2ogr_export [OF good_init assms(1) cnt' refl, where P = "\<lambda>_. False"]
  obtain r where r: "tableToGeojsonChunksOgr2ogr exec t idc (Num C) fp (init w) = Some r"
    and f: "follows exec (diagnostic TableToGeojsonChunksOgr2ogr t fp) (\<lambda>_. False) w [] ?plan r"
    by blast
  have "\<forall>x \<in> set (trace (state_of r)). \<forall>f q. chunk_of (fst x) = Some (f, q)
               \<longrightarrow> ordered_page idc C q"
  proof (intro ballI allI impI)
    fix x f q assume x: "x \<in> set (trace (state_of r))" and c: "chunk_of (fst x) = Some (f, q)"
    from follows_trace_subset [OF f] x have "fst x \<in> set ?plan" by auto
    with c have "fst x \<in> set (concat (map (ogr2ogr_cmds t idc (Num C)
                   (split_first ''.geojson'' fp)) (offsets_from 0 R C)))"
      by auto
    from chunk_of_ogr2ogr_cmds [OF this c] offsets_from_0_member
    show "ordered_page idc C q" by (metis ordered_page_page_query)
  qed
  with r show ?thesis by blast
qed

lemma geojson_export_pages:
  assumes "0 < C"
    and "exitCode (fst (exec (Psql (CountRows t)) w)) = 0 \<longrightarrow> count_of exec t w = Num R"
  shows "\<exists>r. tableToGeojsonChunks exec t gc idc (Num C) fp (init w) = Some r \<and>
           (\<forall>x \<in> set (trace (state_of r)). \<forall>f q. chunk_of (fst x) = Some (f, q)
               \<longrightarrow> ordered_page idc C q)"
proof -
  let ?plan = "Psql (CountRows t) #
                 concat (map (geojson_cmds t gc idc (Num C) (split_first ''.geojson'' fp))
                   (offsets_from 0 R C))"
  have cnt': "exitCode (fst (exec (Psql (CountRows t)) (replay exec w []))) = 0
                \<longrightarrow> count_of exec t (replay exec w []) = Num R"
    using assms(2) by (simp add: replay_def)
  from follows_geojson_export [OF good_init assms(1) cnt' refl, where P = "\<lambda>_. False"]
  obtain r where r: "tableToGeojsonChunks exec t gc idc (Num C) fp (init w) = Some r"
    and f: "follows exec (diagnostic TableToGeojsonChunks t fp) (\<lambda>_. False) w [] ?plan r"
    by blast
  have "\<forall>x \<in> set (trace (state_of r)). \<forall>f q. chunk_of (fst x) = Some (f, q)
               \<longrightarrow> ordered_page idc C q"
  proof (intro ballI allI impI)
    fix x f q assume x: "x \<in> set (trace (state_of r))" and c: "chunk_of (fst x) = Some (f, q)"
    from follows_trace_subset [OF f] x have "fst x \<in> set ?plan" by auto
    with c have "fst x \<in> set (concat (map (geojson_cmds t gc idc (Num C)
                   (split_first ''.geojson'' fp)) (offsets_from 0 R C)))"
      by auto
    from chunk_of_geojson_cmds [OF this c] offsets_from_0_member
    show "ordered_page idc C q" by (metis ordered_page_page_query)
  qed
  with r show ?thesis by blast
qed

lemma geobuf_export_pages:
  assumes "0 < C"
    and "exitCode (fst (exec (Psql (CountRows t)) w)) = 0 \<longrightarrow> count_of exec t w = Num R"
  shows "\<exists>r. tableToGeobufChunks exec t idc gc (Num C) fp (init w) = Some r \<and>
           (\<forall>x \<in> set (trace (state_of r)). \<forall>f q. chunk_of (fst x) = Some (f, q)
               \<longrightarrow> ordered_page idc C q)"
proof -
  let ?props = "properties_of idc gc (columns_of exec t (replay exec w ([] @ [Psql (CountRows t)])))"
  let ?plan = "Psql (CountRows t) # Psql (ColumnNames t) #
                 concat (map (geobuf_cmds t idc gc (Num C) (split_first ''.gbf'' fp) ?props)
                   (offsets_from 0 R C))"
  have cnt': "exitCode (fst (exec (Psql (CountRows t)) (replay exec w []))) = 0
                \<longrightarrow> count_of exec t (replay exec w []) = Num R"
    using assms(2) by (simp add: replay_def)
  from follows_geobuf_export [OF good_init assms(1) cnt' refl refl, where P = "\<lambda>_. False"]
  obtain r where r: "tableToGeobufChunks exec t idc gc (Num C) fp (init w) = Some r"
    and f: "follows exec (diagnostic TableToGeobufChunks t fp) (\<lambda>_. False) w [] ?plan r"
    by blast
  have "\<forall>x \<in> set (trace (state_of r)). \<forall>f q. chunk_of (fst x) = Some (f, q)
               \<longrightarrow> ordered_page idc C q"
  proof (intro ballI allI impI)
    fix x f q assume x: "x \<in> set (trace (state_of r))" and c: "chunk_of (fst x) = Some (f, q)"
    from follows_trace_subset [OF f] x have "fst x \<in> set ?plan" by auto
    with c have "fst x \<in> set (concat (map (geobuf_cmds t idc gc (Num C)
                   (split_first ''.gbf'' fp) ?props) (offsets_from 0 R C)))"
      by auto
    from chunk_of_geobuf_cmds [OF this c] offsets_from_0_member
    show "ordered_page idc C q" by (metis ordered_page_page_query)
  qed
  with r show ?thesis by blast
qed

text \<open>
  Claim C5. Let the chunk size \<open>C\<close> be positive and the count, when read, a number.
  Whichever exporter runs (\<^verbatim>\<open>ogr2ogr\<close>, SQL to GeoJSON, Geobuf) and however the run
  ends, every statement that exports a chunk fetches its rows with
  \<^verbatim>\<open>WHERE id IN (SELECT id FROM t ORDER BY id LIMIT C OFFSET k*C)\<close>: the
  \<^verbatim>\<open>ORDER BY\<close> on the identifier stands in the subquery that carries \<^verbatim>\<open>LIMIT\<close> and
  \<^verbatim>\<open>OFFSET\<close>, and the outer fetch has none.
\<close>

theorem order_by_in_bounding_subquery:
  assumes "0 < C"
    and "exitCode (fst (exec (Psql (CountRows t)) w)) = 0 \<longrightarrow> count_of exec t w = Num R"
  shows "\<exists>r1 r2 r3.
      tableToGeojsonChunksOgr2ogr exec t idc (Num C) fp (init w) = Some r1 \<and>
      tableToGeojsonChunks exec t gc idc (Num C) fp (init w) = Some r2 \<and>
      tableToGeobufChunks exec t idc gc (Num C) fp' (init w) = Some r3 \<and>
      (\<forall>x \<in> set (trace (state_of r1)) \<union> set (trace (state_of r2)) \<union> set (trace (state_of r3)).
         \<forall>f q. chunk_of (fst x) = Some (f, q) \<longrightarrow>
           fetch_order_by q = None \<and> fetch_where_col q = idc \<and>
           sub_select (fetch_in q) = idc \<and> sub_order_by (fetch_in q) = Some idc \<and>
           sub_limit (fetch_in q) = Num C \<and> (\<exists>k. sub_offset (fetch_in q) = Num (int k * C)))"
proof -
  from ogr2ogr_export_pages [OF assms, where idc = idc and fp = fp]
  obtain r1 where r1: "tableToGeojsonChunksOgr2ogr exec t idc (Num C) fp (init w) = Some r1"
    and p1: "\<forall>x \<in> set (trace (state_of r1)). \<forall>f q. chunk_of (fst x) = Some (f, q)
               \<longrightarrow> ordered_page idc C q"
    by blast
  from geojson_export_pages [OF assms, where idc = idc and fp = fp and gc = gc]
  obtain r2 where r2: "tableToGeojsonChunks exec t gc idc (Num C) fp (init w) = Some r2"
    and p2: "\<forall>x \<in> set (trace (state_of r2)). \<forall>f q. chunk_of (fst x) = Some (f, q)
               \<longrightarrow> ordered_page idc C q"
    by blast
  from geobuf_export_pages [OF assms, where idc = idc and fp = fp' and gc = gc]
  obtain r3 where r3: "tableToGeobufChunks exec t idc gc (Num C) fp' (init w) = Some r3"
    and p3: "\<forall>x \<in> set (trace (state_of r3)). \<forall>f q. chunk_of (fst x) = Some (f, q)
               \<longrightarrow> ordered_page idc C q"
    by blast
  have "\<forall>x \<in> set (trace (state_of r1)) \<union> set (trace (state_of r2)) \<union> set (trace (state_of r3)).
         \<forall>f q. chunk_of (fst x) = Some (f, q) \<longrightarrow> ordered_page idc C q"
    using p1 p2 p3 by blast
  with r1 r2 r3 show ?thesis
    unfolding ordered_page_def by (intro exI [of _ r1] exI [of _ r2] exI [of _ r3]) simp
qed

theorem order_by_in_bounding_subquery_witness:
  "\<exists>r1 r2 r3.
      tableToGeojsonChunksOgr2ogr (sim 10 [] (fails_ogr2ogr_at ''layer_4.geojson'')) ''table'' ''id''
        (Num 4) ''layer.geojson'' (init []) = Some r1 \<and>
      tableToGeojsonChunks (sim 10 [] (fails_ogr2ogr_at ''layer_4.geojson'')) ''table'' ''geom''
        ''id'' (Num 4) ''layer.geojson'' (init []) = Some r2 \<and>
      tableToGeobufChunks (sim 10 [] (fails_ogr2ogr_at ''layer_4.geojson'')) ''table'' ''id''
        ''geom'' (Num 4) ''layer.gbf'' (init []) = Some r3 \<and>
      (\<forall>x \<in> set (trace (state_of r1)) \<union> set (trace (state_of r2)) \<union> set (trace (state_of r3)).
         \<forall>f q. chunk_of (fst x) = Some (f, q) \<longrightarrow>
           fetch_order_by q = None \<and> fetch_where_col q = ''id'' \<and>
           sub_select (fetch_in q) = ''id'' \<and> sub_order_by (fetch_in q) = Some ''id'' \<and>
           sub_limit (fetch_in q) = Num 4 \<and> (\<exists>k. sub_offset (fetch_in q) = Num (int k * 4)))"
  by (rule order_by_in_bounding_subquery
        [where exec = "sim 10 [] (fails_ogr2ogr_at ''layer_4.geojson'')" and w = "[]" and R = 10
           and t = "''table''"])
     (simp_all add: count_of_sim_10)

section \<open>Merging and cleaning up\<close>

lemma mergeGeojson_merge_fails:
  assumes "exitCode (fst (exec (Ogrmerge fp (chunks_pattern fp)) (world s))) \<noteq> 0"
  shows "mergeGeojson exec fp s =
           Exit 1 (s\<lparr>world := snd (exec (Ogrmerge fp (chunks_pattern fp)) (world s)),
                    trace := trace s @ [(Ogrmerge fp (chunks_pattern fp),
                               exitCode (fst (exec (Ogrmerge fp (chunks_pattern fp)) (world s))))],
                    console := console s @ [TimeEnd (Merged fp),
                               Error MergeGeojson
                                 (combined (fst (exec (Ogrmerge fp (chunks_pattern fp)) (world s))))]\<rparr>)"
  using assms
  by (simp add: mergeGeojson_def chunks_pattern_def Let_def dollar_def then_do_def catch_exit_def
      say_def)

lemma mergeGeojson_merge_succeeds:
  assumes "exitCode (fst (exec (Ogrmerge fp (chunks_pattern fp)) (world s))) = 0"
  shows "trace (state_of (mergeGeojson exec fp s)) =
           trace s @ [(Ogrmerge fp (chunks_pattern fp), 0),
                      (FindDelete (chunks_pattern fp),
                       exitCode (fst (exec (FindDelete (chunks_pattern fp))
                         (snd (exec (Ogrmerge fp (chunks_pattern fp)) (world s))))))]"
    and "world (state_of (mergeGeojson exec fp s)) =
           snd (exec (FindDelete (chunks_pattern fp))
                  (snd (exec (Ogrmerge fp (chunks_pattern fp)) (world s))))"
    and "exitCode (fst (exec (FindDelete (chunks_pattern fp))
                  (snd (exec (Ogrmerge fp (chunks_pattern fp)) (world s))))) = 0
         \<Longrightarrow> mergeGeojson exec fp s = Return fp (state_of (mergeGeojson exec fp s))"
    and "exitCode (fst (exec (FindDelete (chunks_pattern fp))
                  (snd (exec (Ogrmerge fp (chunks_pattern fp)) (world s))))) \<noteq> 0
         \<Longrightarrow> mergeGeojson exec fp s = Exit 1 (state_of (mergeGeojson exec fp s))"
  using assms
  by (simp_all add: mergeGeojson_def chunks_pattern_def Let_def dollar_def then_do_def
      catch_exit_def say_def)

text \<open>
  Claim C10. When the merge command and the deletion both succeed, and
  \<^verbatim>\<open>find . -name pat -delete\<close> removes the paths whose last component matches, the
  merger returns having issued exactly the merge and then
  \<^verbatim>\<open>find . -name <base>_*.geojson -delete\<close>: the deletion is given the pattern, not a
  list of files. Of the paths present after the merge, those whose last component matches
  the pattern are gone and all others are still there, wherever they lie below the working
  directory, whoever created them and whatever stands in place of the offset.
\<close>

theorem cleanup_deletes_by_pattern:
  assumes "find_deletes_by_name present exec"
    and "exitCode (fst (exec (Ogrmerge fp (chunks_pattern fp)) (world s))) = 0"
    and "exitCode (fst (exec (FindDelete (chunks_pattern fp))
           (snd (exec (Ogrmerge fp (chunks_pattern fp)) (world s))))) = 0"
  shows "\<exists>s'. mergeGeojson exec fp s = Return fp s' \<and>
      trace s' = trace s @ [(Ogrmerge fp (chunks_pattern fp), 0), (FindDelete (chunks_pattern fp), 0)] \<and>
      (\<forall>f. present (world s') f \<longleftrightarrow>
             present (snd (exec (Ogrmerge fp (chunks_pattern fp)) (world s))) f \<and>
             \<not> glob_match (chunks_pattern fp) (basename f)) \<and>
      (\<forall>f. glob_match (chunks_pattern fp) (basename f) \<longrightarrow> \<not> present (world s') f)"
proof -
  let ?pat = "chunks_pattern fp"
  let ?w1 = "snd (exec (Ogrmerge fp ?pat) (world s))"
  let ?s' = "state_of (mergeGeojson exec fp s)"
  have r: "mergeGeojson exec fp s = Return fp ?s'"
    by (rule mergeGeojson_merge_succeeds(3) [where exec = exec and fp = fp and s = s, OF assms(2,3)])
  have tr: "trace ?s' = trace s @ [(Ogrmerge fp ?pat, 0), (FindDelete ?pat, 0)]"
    using mergeGeojson_merge_succeeds(1) [where exec = exec and fp = fp and s = s, OF assms(2)]
      assms(3) by simp
  have w: "world ?s' = snd (exec (FindDelete ?pat) ?w1)"
    by (rule mergeGeojson_merge_succeeds(2) [where exec = exec and fp = fp and s = s, OF assms(2)])
  have del: "\<forall>f. present (world ?s') f \<longleftrightarrow> present ?w1 f \<and> \<not> glob_match ?pat (basename f)"
    using assms(1,3) unfolding w find_deletes_by_name_def by blast
  then have gone: "\<forall>f. glob_match ?pat (basename f) \<longrightarrow> \<not> present (world ?s') f"
    by blast
  from r tr del gone show ?thesis by blast
qed

lemma sim_find_deletes_by_name: "find_deletes_by_name listed (sim rows cols fails)"
  by (auto simp: find_deletes_by_name_def listed_def sim_def failed_def)

lemma chunks_pattern_layer: "chunks_pattern ''layer.geojson'' = ''layer_*.geojson''"
  by (simp add: chunks_pattern_def)

theorem cleanup_deletes_by_pattern_witness:
  "\<exists>s'. mergeGeojson (sim 0 [] (\<lambda>_. False)) ''layer.geojson'' (init files_example)
           = Return ''layer.geojson'' s' \<and>
      trace s' = [(Ogrmerge ''layer.geojson'' ''layer_*.geojson'', 0),
                  (FindDelete ''layer_*.geojson'', 0)] \<and>
      \<not> listed (world s') ''layer_0.geojson'' \<and>
      \<not> listed (world s') ''layer_4.geojson'' \<and>
      \<not> listed (world s') ''old/layer_7.geojson'' \<and>
      listed (world s') ''notes.txt'' \<and>
      listed (world s') ''layer.geojson''"
proof -
  let ?exec = "sim 0 [] (\<lambda>_. False) :: string list tools"
  have ok1: "exitCode (fst (?exec (Ogrmerge ''layer.geojson'' (chunks_pattern ''layer.geojson''))
               (world (init files_example)))) = 0"
    by (simp add: sim_def succeeded_def)
  have ok2: "exitCode (fst (?exec (FindDelete (chunks_pattern ''layer.geojson''))
               (snd (?exec (Ogrmerge ''layer.geojson'' (chunks_pattern ''layer.geojson''))
                  (world (init files_example)))))) = 0"
    by (simp add: sim_def succeeded_def)
  have w1: "snd (?exec (Ogrmerge ''layer.geojson'' (chunks_pattern ''layer.geojson''))
               (world (init files_example)))
            = ''layer.geojson'' # files_example"
    by (simp add: sim_def init_def files_example_def)
  from cleanup_deletes_by_pattern [where exec = ?exec and present = listed
      and fp = "''layer.geojson''" and s = "init files_example",
      OF sim_find_deletes_by_name ok1 ok2]
  obtain s' where r: "mergeGeojson ?exec ''layer.geojson'' (init files_example)
                        = Return ''layer.geojson'' s'"
    and tr: "trace s' = trace (init files_example) @
               [(Ogrmerge ''layer.geojson'' (chunks_pattern ''layer.geojson''), 0),
                (FindDelete (chunks_pattern ''layer.geojson''), 0)]"
    and del: "\<forall>f. listed (world s') f \<longleftrightarrow>
                listed (''layer.geojson'' # files_example) f \<and>
                \<not> glob_match (chunks_pattern ''layer.geojson'') (basename f)"
    unfolding w1 by blast
  have "\<not> listed (world s') ''layer_0.geojson''"
    using del by (simp add: chunks_pattern_layer basename_def)
  moreover have "\<not> listed (world s') ''layer_4.geojson''"
    using del by (simp add: chunks_pattern_layer basename_def)
  moreover have "\<not> listed (world s') ''old/layer_7.geojson''"
    using del by (simp add: chunks_pattern_layer basename_def)
  moreover have "listed (world s') ''notes.txt''"
    using del by (simp add: chunks_pattern_layer basename_def listed_def files_example_def)
  moreover have "listed (world s') ''layer.geojson''"
    using del by (simp add: chunks_pattern_layer basename_def listed_def files_example_def)
  ultimately show ?thesis
    using r tr by (simp add: chunks_pattern_layer init_def)
qed

text \<open>
  Claim C3 says that the merger checks that the merged file exists before it deletes the
  chunk files. It does not: with a merge tool that exits with 0 and writes nothing, the
  merged file is absent after the merge step, and still the deletion runs and removes the
  chunk file.
\<close>

theorem merge_output_not_checked_counterexample:
  "mergeGeojson sim_silent_merge ''layer.geojson'' (init [''layer_0.geojson''])
     = Return ''layer.geojson''
         \<lparr>world = [],
          trace = [(Ogrmerge ''layer.geojson'' ''layer_*.geojson'', 0),
                   (FindDelete ''layer_*.geojson'', 0)],
          console = []\<rparr> \<and>
   listed [''layer_0.geojson''] ''layer_0.geojson'' \<and>
   \<not> listed (snd (sim_silent_merge (Ogrmerge ''layer.geojson'' ''layer_*.geojson'')
                    [''layer_0.geojson''])) ''layer.geojson''"
  by (simp add: mergeGeojson_def Let_def dollar_def then_do_def catch_exit_def init_def
      sim_silent_merge_def sim_def succeeded_def listed_def basename_def)

text \<open>
  Claim C3, amended. The merger runs the merge command first. If that command fails, the
  program exits with status 1 and no deletion has been issued: the merge command is the
  only one the merger ran, and the world is as that command left it. If it exits with 0,
  the deletion by pattern is the next and last command, whether or not the merged file
  exists; when the deletion succeeds too (and \<^verbatim>\<open>find\<close> removes what matches), the merger
  returns and no path whose last component matches the pattern is left; when the deletion
  fails, the program exits with status 1.
\<close>

theorem merge_then_delete:
  assumes "find_deletes_by_name present exec"
  shows "(exitCode (fst (exec (Ogrmerge fp (chunks_pattern fp)) (world s))) \<noteq> 0 \<longrightarrow>
           (\<exists>s'. mergeGeojson exec fp s = Exit 1 s' \<and>
              trace s' = trace s @ [(Ogrmerge fp (chunks_pattern fp),
                           exitCode (fst (exec (Ogrmerge fp (chunks_pattern fp)) (world s))))] \<and>
              world s' = snd (exec (Ogrmerge fp (chunks_pattern fp)) (world s)))) \<and>
         (exitCode (fst (exec (Ogrmerge fp (chunks_pattern fp)) (world s))) = 0 \<longrightarrow>
           trace (state_of (mergeGeojson exec fp s)) =
             trace s @ [(Ogrmerge fp (chunks_pattern fp), 0),
                        (FindDelete (chunks_pattern fp),
                         exitCode (fst (exec (FindDelete (chunks_pattern fp))
                           (snd (exec (Ogrmerge fp (chunks_pattern fp)) (world s))))))] \<and>
           (exitCode (fst (exec (FindDelete (chunks_pattern fp))
                (snd (exec (Ogrmerge fp (chunks_pattern fp)) (world s))))) = 0 \<longrightarrow>
              mergeGeojson exec fp s = Return fp (state_of (mergeGeojson exec fp s)) \<and>
              (\<forall>f. glob_match (chunks_pattern fp) (basename f)
                    \<longrightarrow> \<not> present (world (state_of (mergeGeojson exec fp s))) f)) \<and>
           (exitCode (fst (exec (FindDelete (chunks_pattern fp))
                (snd (exec (Ogrmerge fp (chunks_pattern fp)) (world s))))) \<noteq> 0 \<longrightarrow>
              mergeGeojson exec fp s = Exit 1 (state_of (mergeGeojson exec fp s))))"
proof (intro conjI impI)
  let ?pat = "chunks_pattern fp"
  let ?m = "exec (Ogrmerge fp ?pat) (world s)"
  let ?d = "exec (FindDelete ?pat) (snd ?m)"
  let ?r = "mergeGeojson exec fp s"
  {
    assume "exitCode (fst ?m) \<noteq> 0"
    from mergeGeojson_merge_fails [where exec = exec and fp = fp and s = s, OF this]
    show "\<exists>s'. ?r = Exit 1 s' \<and> trace s' = trace s @ [(Ogrmerge fp ?pat, exitCode (fst ?m))] \<and>
              world s' = snd ?m"
      by simp
  }
  {
    assume ok: "exitCode (fst ?m) = 0"
    show "trace (state_of ?r) =
            trace s @ [(Ogrmerge fp ?pat, 0), (FindDelete ?pat, exitCode (fst ?d))]"
      by (rule mergeGeojson_merge_succeeds(1) [where exec = exec and fp = fp and s = s, OF ok])
    {
      assume ok2: "exitCode (fst ?d) = 0"
      show "?r = Return fp (state_of ?r)"
        by (rule mergeGeojson_merge_succeeds(3) [where exec = exec and fp = fp and s = s, OF ok ok2])
      have w: "world (state_of ?r) = snd ?d"
        by (rule mergeGeojson_merge_succeeds(2) [where exec = exec and fp = fp and s = s, OF ok])
      show "\<forall>f. glob_match ?pat (basename f) \<longrightarrow> \<not> present (world (state_of ?r)) f"
        using assms ok2 unfolding w find_deletes_by_name_def by blast
    }
    {
      assume bad: "exitCode (fst ?d) \<noteq> 0"
      show "?r = Exit 1 (state_of ?r)"
        by (rule mergeGeojson_merge_succeeds(4) [where exec = exec and fp = fp and s = s, OF ok bad])
    }
  }
qed

theorem merge_then_delete_witness:
  "(\<exists>s'. mergeGeojson (sim 0 [] fails_merge) ''layer.geojson'' (init files_example) = Exit 1 s' \<and>
      trace s' = [(Ogrmerge ''layer.geojson'' ''layer_*.geojson'', 1)] \<and>
      world s' = files_example) \<and>
   mergeGeojson (sim 0 [] (\<lambda>_. False)) ''layer.geojson'' (init files_example)
     = Return ''layer.geojson''
         (state_of (mergeGeojson (sim 0 [] (\<lambda>_. False)) ''layer.geojson'' (init files_example))) \<and>
   \<not> listed (world (state_of
        (mergeGeojson (sim 0 [] (\<lambda>_. False)) ''layer.geojson'' (init files_example))))
      ''old/layer_7.geojson''"
proof -
  have m: "glob_match (chunks_pattern ''layer.geojson'') (basename ''old/layer_7.geojson'')"
    by (simp add: chunks_pattern_layer basename_def)
  from merge_then_delete [where exec = "sim 0 [] fails_merge" and present = listed
      and fp = "''layer.geojson''" and s = "init files_example", OF sim_find_deletes_by_name]
  have a: "\<exists>s'. mergeGeojson (sim 0 [] fails_merge) ''layer.geojson'' (init files_example) = Exit 1 s' \<and>
      trace s' = [(Ogrmerge ''layer.geojson'' ''layer_*.geojson'', 1)] \<and>
      world s' = files_example"
    by (simp add: sim_def failed_def chunks_pattern_layer init_def)
  from merge_then_delete [where exec = "sim 0 [] (\<lambda>_. False)" and present = listed
      and fp = "''layer.geojson''" and s = "init files_example", OF sim_find_deletes_by_name] m
  have b: "mergeGeojson (sim 0 [] (\<lambda>_. False)) ''layer.geojson'' (init files_example)
     = Return ''layer.geojson''
         (state_of (mergeGeojson (sim 0 [] (\<lambda>_. False)) ''layer.geojson'' (init files_example))) \<and>
   \<not> listed (world (state_of
        (mergeGeojson (sim 0 [] (\<lambda>_. False)) ''layer.geojson'' (init files_example))))
      ''old/layer_7.geojson''"
    by (simp add: sim_def succeeded_def)
  from a b show ?thesis by blast
qed

section \<open>Binary chunks\<close>

lemma hex_digit_char:
  assumes "d < 16"
  shows "digit_val (digit_char d) = Some d" and "is_digit 16 (digit_char d)"
proof -
  from assms have "d = 0 \<or> d = 1 \<or> d = 2 \<or> d = 3 \<or> d = 4 \<or> d = 5 \<or> d = 6 \<or> d = 7 \<or> d = 8
      \<or> d = 9 \<or> d = 10 \<or> d = 11 \<or> d = 12 \<or> d = 13 \<or> d = 14 \<or> d = 15"
    by arith
  then show "digit_val (digit_char d) = Some d"
    by (elim disjE) (simp_all add: digit_val_def digit_char_def)
  with assms show "is_digit 16 (digit_char d)"
    by (simp add: is_digit_def)
qed

lemma byte_nibbles: "unat (b :: 8 word) div 16 < 16" "unat b mod 16 < 16"
proof -
  have "unat b < 2 ^ LENGTH(8)" by (rule unsigned_less)
  then have "unat b < 256" by simp
  then show "unat b div 16 < 16" by simp
  show "unat b mod 16 < 16" by simp
qed

lemma filter_encode_hex: "filter (is_digit 16) (encode_hex bs) = encode_hex bs"
  by (induction bs) (simp_all add: encode_hex_def hex_digit_char byte_nibbles)

lemma pair_up_encode_hex:
  "pair_up (map (\<lambda>c. the (digit_val c)) (encode_hex bs)) = bs"
proof (induction bs)
  case Nil
  show ?case by (simp add: encode_hex_def)
next
  case (Cons b bs)
  have "(of_nat (16 * (unat b div 16) + unat b mod 16) :: 8 word) = b"
    by simp
  with Cons show ?case
    by (simp add: encode_hex_def hex_digit_char byte_nibbles)
qed

lemma not_hex_space: "\<not> is_digit 16 (CHR '' '')" "\<not> is_digit 16 (CHR 0x0A)"
  by (simp_all add: is_digit_def digit_val_def)

lemma xxd_psql_encode: "xxd_p_r (psql_t (encode_hex bs)) = bs"
  by (simp add: xxd_p_r_def psql_t_def not_hex_space filter_encode_hex pair_up_encode_hex)

lemma written_file_geobuf_cmds:
  "c \<in> set (concat (map (geobuf_cmds t idc gc cs base props) xs)) \<Longrightarrow> written_file c = Some f
     \<Longrightarrow> \<exists>items rows. c = PsqlXxdToFile (GeobufHex gc items rows) f"
  by (auto simp: geobuf_cmds_def)

lemma geobuf_cmds_as_exports:
  "concat (map (geobuf_cmds t idc gc (Num C) (split_first ''.gbf'' fp) props)
            (map (\<lambda>k. Num (int k * C)) ns))
     = map (geobuf_export t idc gc C fp props) ns"
  by (induction ns)
    (simp_all add: geobuf_cmds_def geobuf_export_def geobuf_statement_def geobuf_file_def)

lemma chunk_number_bound:
  assumes "0 < C" "int k * C \<le> R"
  shows "0 \<le> R" and "k \<le> nat (R div C)"
proof -
  from assms have "0 \<le> int k * C" by simp
  with assms(2) show "0 \<le> R" by linarith
  from assms have "(int k * C) div C \<le> R div C" by (intro zdiv_mono1) simp_all
  with assms(1) have "int k \<le> R div C" by simp
  then show "k \<le> nat (R div C)" by linarith
qed

lemma geobuf_plan_split:
  assumes "0 < C" "int k * C \<le> R"
  shows "Psql (CountRows t) # Psql (ColumnNames t) #
           concat (map (geobuf_cmds t idc gc (Num C) (split_first ''.gbf'' fp) props)
             (offsets_from 0 R C))
         = (geobuf_before t idc gc C fp props k @ [geobuf_export t idc gc C fp props k])
             @ map (geobuf_export t idc gc C fp props) [Suc k..<Suc (nat (R div C))]"
proof -
  from chunk_number_bound [OF assms] have r: "0 \<le> R" and k: "k \<le> nat (R div C)" .
  from k obtain d where d: "Suc (nat (R div C)) = k + d"
    using le_Suc_ex [of k "Suc (nat (R div C))"] by auto
  have "[0..<k + d] = [0..<k] @ [k..<k + d]"
    by (rule upt_add_eq_append) simp
  moreover from k have "[k..<Suc (nat (R div C))] = k # [Suc k..<Suc (nat (R div C))]"
    by (intro upt_conv_Cons) simp
  ultimately have "[0..<Suc (nat (R div C))] = [0..<k] @ k # [Suc k..<Suc (nat (R div C))]"
    by (simp only: d)
  then have "map (geobuf_export t idc gc C fp props) [0..<Suc (nat (R div C))]
      = map (geobuf_export t idc gc C fp props) [0..<k] @ geobuf_export t idc gc C fp props k
          # map (geobuf_export t idc gc C fp props) [Suc k..<Suc (nat (R div C))]"
    by (simp only: map_append list.map)
  then show ?thesis
    by (simp only: offsets_from_0_nonneg [OF r assms(1)] geobuf_cmds_as_exports
        geobuf_before_def append.simps append_assoc)
qed

lemma run_stops_in_plan:
  assumes "follows exec H (\<lambda>_. False) w [] plan r"
  shows "\<exists>cs. world (state_of r) = replay exec w cs \<and>
           (cs = plan \<or>
            (\<exists>ys c zs. plan = ys @ c # zs \<and> cs = ys @ [c] \<and> succeed exec w ys \<and>
               exitCode (fst (exec c (replay exec w ys))) \<noteq> 0))"
proof (cases r)
  case (Return a s)
  with assms show ?thesis by (auto simp: follows_def good_def)
next
  case (Throw e s)
  with assms show ?thesis by (simp add: follows_def)
next
  case (Exit n s)
  with assms obtain ys c zs e where "plan = ys @ c # zs" "thrown exec w ys c e s"
    by (auto simp: follows_def exited_def)
  with Exit show ?thesis
    by (intro exI [of _ "ys @ [c]"]) (auto simp: thrown_def)
qed

lemma stops_after_success:
  assumes plan: "plan = A @ B" and a: "succeed exec w A"
    and cs: "cs = plan \<or>
            (\<exists>ys c zs. plan = ys @ c # zs \<and> cs = ys @ [c] \<and> succeed exec w ys \<and>
               exitCode (fst (exec c (replay exec w ys))) \<noteq> 0)"
  shows "\<exists>more. cs = A @ more \<and> set more \<subseteq> set B"
  using cs
proof (elim disjE exE conjE)
  assume "cs = plan"
  with plan show ?thesis by auto
next
  fix ys c zs
  assume p: "plan = ys @ c # zs" and c: "cs = ys @ [c]" and ys: "succeed exec w ys"
    and f: "exitCode (fst (exec c (replay exec w ys))) \<noteq> 0"
  from p plan have "ys @ c # zs = A @ B" by simp
  then consider us where "ys = A @ us" "us @ c # zs = B"
    | us where "ys @ us = A" "c # zs = us @ B"
    by (auto simp: append_eq_append_conv2)
  then show ?thesis
  proof cases
    case 1
    with c have "cs = A @ (us @ [c])" "set (us @ [c]) \<subseteq> set B" by auto
    then show ?thesis by blast
  next
    case 2
    show ?thesis
    proof (cases us)
      case Nil
      with 2 c have "cs = A @ [c]" "set [c] \<subseteq> set B" by auto
      then show ?thesis by blast
    next
      case (Cons u us')
      with 2 have "A = ys @ c # us'" by simp
      with a f show ?thesis by (simp add: succeed_append)
    qed
  qed
qed

lemma replay_keeps_content:
  assumes "xxd_pipe_writes content exec"
    and "\<forall>c \<in> set cs. \<exists>q g. c = PsqlXxdToFile q g \<and> g \<noteq> f"
  shows "content (replay exec w cs) f = content w f"
  using assms(2)
proof (induction cs arbitrary: w)
  case Nil
  show ?case by (simp add: replay_def)
next
  case (Cons c cs)
  then obtain q g where c: "c = PsqlXxdToFile q g" "g \<noteq> f" by auto
  from Cons have "content (replay exec (snd (exec c w)) cs) f = content (snd (exec c w)) f"
    by simp
  moreover from assms(1) c have "content (snd (exec c w)) f = content w f"
    by (simp add: xxd_pipe_writes_def)
  ultimately show ?case by (simp add: replay_def)
qed

lemma geobuf_file_inj:
  assumes "0 < C" "geobuf_file fp C j = geobuf_file fp C k"
  shows "j = k"
proof -
  from assms(1) have "0 \<le> int j * C" "0 \<le> int k * C" by simp_all
  with assms(2) have "int j * C = int k * C"
    unfolding geobuf_file_def by (rule chunk_path_inj)
  with assms(1) show ?thesis by simp
qed

lemma length_encode_hex: "length (encode_hex bs) = 2 * length bs"
  by (induction bs) (simp_all add: encode_hex_def)

lemma text_bytes_not_decoded: "text_bytes (psql_t (encode_hex bs)) \<noteq> bs"
proof
  assume "text_bytes (psql_t (encode_hex bs)) = bs"
  then have "length (text_bytes (psql_t (encode_hex bs))) = length bs" by simp
  then show False by (simp add: text_bytes_def psql_t_def length_encode_hex)
qed

lemma run_properties_replay:
  "properties_of idc gc (columns_of exec t (replay exec w ([] @ [Psql (CountRows t)])))
     = run_properties exec t idc gc w"
  by (simp add: run_properties_def replay_def)

lemma geobuf_export_written:
  "x \<in> set (trace (state_of r)) \<Longrightarrow> written_file (fst x) = Some f \<Longrightarrow>
   follows exec H P w []
     (Psql (CountRows t) # Psql (ColumnNames t) #
        concat (map (geobuf_cmds t idc gc cs base props) xs)) r \<Longrightarrow>
   \<exists>items rows. fst x = PsqlXxdToFile (GeobufHex gc items rows) f"
proof -
  assume x: "x \<in> set (trace (state_of r))" and wf: "written_file (fst x) = Some f"
    and f: "follows exec H P w []
     (Psql (CountRows t) # Psql (ColumnNames t) #
        concat (map (geobuf_cmds t idc gc cs base props) xs)) r"
  from follows_trace_subset [OF f] x
  have "fst x \<in> set (Psql (CountRows t) # Psql (ColumnNames t) #
        concat (map (geobuf_cmds t idc gc cs base props) xs))" by auto
  with wf have "fst x \<in> set (concat (map (geobuf_cmds t idc gc cs base props) xs))" by auto
  from written_file_geobuf_cmds [OF this wf] show ?thesis .
qed

lemma sim_store_never_fails: "\<forall>c w. exitCode (fst (sim_store rows cols c w)) = 0"
proof (intro allI)
  fix c w show "exitCode (fst (sim_store rows cols c w)) = 0"
    by (cases c) (simp_all add: succeeded_def)
qed

lemma count_of_sim_store_10: "count_of (sim_store 10 cols) t w = Num 10"
  by (simp add: count_of_def succeeded_def psql_t_def trim_def show_nat.simps
      digit_char_def parseInt_def is_space_def is_digit_def digits_value_def digit_val_def)

lemma sim_store_pipe: "xxd_pipe_writes stored (sim_store rows cols)"
  by (simp add: xxd_pipe_writes_def stored_def succeeded_def)

lemma sim_store_hex: "psql_prints_hex geobuf_example (sim_store rows cols)"
  by (simp add: psql_prints_hex_def geobuf_example_def succeeded_def)

lemma sim_store_prints:
  "stdout (fst (sim_store rows cols (Psql (GeobufHex g items q)) w))
     = psql_t (encode_hex bytes_example)"
  by (simp add: succeeded_def)

lemma geobuf_file_layer_4:
  "chunk_path (split_first ''.gbf'' ''layer.gbf'') (Num (int 1 * 4)) ''.gbf'' = ''layer_4.gbf''"
  by (simp add: chunk_path_def show_nat.simps digit_char_def)

text \<open>
  Claim C8. In the Geobuf exporter (chunk size positive), take the chunk number \<open>k\<close> of a
  table of \<open>R\<close> rows, and a run in which the commands up to and with the export of that
  chunk exit with 0. The tools are taken as follows:
  \<^verbatim>\<open>psql -t -c q | xxd -p -r > f\<close> that exits with 0 leaves in \<open>f\<close> what
  \<^verbatim>\<open>xxd -p -r\<close> makes of what \<^verbatim>\<open>psql -t -c q\<close> prints and touches no other file, and
  \<^verbatim>\<open>psql -t\<close> prints the value of \<^verbatim>\<open>encode(ST_AsGeobuf(...), 'hex')\<close> as it is, in
  hexadecimal. Then, when the run is over (returned, or stopped by a later failure), the
  file \<^verbatim>\<open>`${baseFilePath}_${k * C}.gbf`\<close> holds the bytes that \<^verbatim>\<open>ST_AsGeobuf\<close> gave for
  the page of rows at offset \<open>k * C\<close> of the table, with the identifier and the properties
  of the run, in the world the export met; it does not hold the text that
  \<^verbatim>\<open>psql\<close> printed for the statement. And in every run, each file written is written by
  that pipeline, on a statement that asks for the hexadecimal encoding.
\<close>

theorem geobuf_chunks_are_raw_bytes:
  assumes "0 < C" and "int k * C \<le> R"
    and "count_of exec t w = Num R"
    and "props = run_properties exec t idc gc w"
    and "succeed exec w
           (geobuf_before t idc gc C fp props k @ [geobuf_export t idc gc C fp props k])"
    and "xxd_pipe_writes content exec"
    and "psql_prints_hex geobuf exec"
  shows "\<exists>r. tableToGeobufChunks exec t idc gc (Num C) fp (init w) = Some r \<and>
           content (world (state_of r)) (chunk_path (split_first ''.gbf'' fp) (Num (int k * C)) ''.gbf'')
             = Some (geobuf (replay exec w (geobuf_before t idc gc C fp props k)) gc
                       (geobuf_items idc gc props) (page_query t idc (Num C) (Num (int k * C)))) \<and>
           content (world (state_of r)) (chunk_path (split_first ''.gbf'' fp) (Num (int k * C)) ''.gbf'')
             \<noteq> Some (text_bytes (stdout (fst (exec
                        (Psql (GeobufHex gc (geobuf_items idc gc props)
                                 (page_query t idc (Num C) (Num (int k * C)))))
                        (replay exec w (geobuf_before t idc gc C fp props k)))))) \<and>
           (\<forall>x \<in> set (trace (state_of r)). \<forall>f. written_file (fst x) = Some f \<longrightarrow>
              (\<exists>items rows. fst x = PsqlXxdToFile (GeobufHex gc items rows) f))"
proof -
  let ?before = "geobuf_before t idc gc C fp props k"
  let ?export = "geobuf_export t idc gc C fp props k"
  let ?rest = "map (geobuf_export t idc gc C fp props) [Suc k..<Suc (nat (R div C))]"
  let ?file = "chunk_path (split_first ''.gbf'' fp) (Num (int k * C)) ''.gbf''"
  let ?q = "GeobufHex gc (geobuf_items idc gc props) (page_query t idc (Num C) (Num (int k * C)))"
  let ?w = "replay exec w ?before"
  let ?plan = "Psql (CountRows t) # Psql (ColumnNames t) #
      concat (map (geobuf_cmds t idc gc (Num C) (split_first ''.gbf'' fp) props)
        (offsets_from 0 R C))"
  have export: "?export = PsqlXxdToFile ?q ?file"
    by (simp add: geobuf_export_def geobuf_statement_def geobuf_file_def)
  have cnt: "exitCode (fst (exec (Psql (CountRows t)) (replay exec w []))) = 0
                \<longrightarrow> count_of exec t (replay exec w []) = Num R"
    using assms(3) by (simp add: replay_def)
  have props: "props = properties_of idc gc
                  (columns_of exec t (replay exec w ([] @ [Psql (CountRows t)])))"
    using assms(4) by (simp only: run_properties_replay)
  from follows_geobuf_export [OF good_init assms(1) cnt refl props, where P = "\<lambda>_. False"]
  obtain r where r: "tableToGeobufChunks exec t idc gc (Num C) fp (init w) = Some r"
    and f: "follows exec (diagnostic TableToGeobufChunks t fp) (\<lambda>_. False) w [] ?plan r"
    by blast
  have split: "?plan = (?before @ [?export]) @ ?rest"
    by (rule geobuf_plan_split [OF assms(1,2)])
  from run_stops_in_plan [OF f] obtain cs where
    w: "world (state_of r) = replay exec w cs"
    and cs: "cs = ?plan \<or>
            (\<exists>ys c zs. ?plan = ys @ c # zs \<and> cs = ys @ [c] \<and> succeed exec w ys \<and>
               exitCode (fst (exec c (replay exec w ys))) \<noteq> 0)"
    by blast
  from stops_after_success [OF split assms(5) cs] obtain more where
    more: "cs = (?before @ [?export]) @ more" "set more \<subseteq> set ?rest"
    by blast
  have others: "\<forall>c \<in> set more. \<exists>q g. c = PsqlXxdToFile q g \<and> g \<noteq> ?file"
  proof
    fix c assume "c \<in> set more"
    with more(2) obtain j where j: "Suc k \<le> j" "c = geobuf_export t idc gc C fp props j"
      by auto
    from j(1) geobuf_file_inj [OF assms(1), of fp j k] have "geobuf_file fp C j \<noteq> geobuf_file fp C k"
      by auto
    with j(2) show "\<exists>q g. c = PsqlXxdToFile q g \<and> g \<noteq> ?file"
      by (simp add: geobuf_export_def geobuf_file_def)
  qed
  from assms(5) have ok: "exitCode (fst (exec (PsqlXxdToFile ?q ?file) ?w)) = 0"
    by (simp add: succeed_append export)
  with assms(6) have psql: "exitCode (fst (exec (Psql ?q) ?w)) = 0"
    and wrote: "content (snd (exec (PsqlXxdToFile ?q ?file) ?w)) ?file
                 = Some (xxd_p_r (stdout (fst (exec (Psql ?q) ?w))))"
    by (simp_all add: xxd_pipe_writes_def)
  from assms(7) psql have printed:
    "stdout (fst (exec (Psql ?q) ?w)) = psql_t (encode_hex (geobuf ?w gc (geobuf_items idc gc props)
        (page_query t idc (Num C) (Num (int k * C)))))"
    by (simp add: psql_prints_hex_def)
  have "content (world (state_of r)) ?file
          = content (replay exec (replay exec w (?before @ [?export])) more) ?file"
    by (simp only: w more(1) replay_append)
  also have "\<dots> = content (replay exec w (?before @ [?export])) ?file"
    by (rule replay_keeps_content [OF assms(6) others])
  also have "\<dots> = content (snd (exec (PsqlXxdToFile ?q ?file) ?w)) ?file"
    by (simp only: replay_snoc export)
  finally have held: "content (world (state_of r)) ?file
      = Some (geobuf ?w gc (geobuf_items idc gc props) (page_query t idc (Num C) (Num (int k * C))))"
    by (simp add: wrote printed xxd_psql_encode)
  have not_text: "content (world (state_of r)) ?file
      \<noteq> Some (text_bytes (stdout (fst (exec (Psql ?q) ?w))))"
    using text_bytes_not_decoded [of "geobuf ?w gc (geobuf_items idc gc props)
        (page_query t idc (Num C) (Num (int k * C)))"]
    by (simp add: held printed)
  have written: "\<forall>x \<in> set (trace (state_of r)). \<forall>f. written_file (fst x) = Some f \<longrightarrow>
              (\<exists>items rows. fst x = PsqlXxdToFile (GeobufHex gc items rows) f)"
    using geobuf_export_written [OF _ _ f] by blast
  from r held not_text written show ?thesis by blast
qed

theorem geobuf_chunks_are_raw_bytes_witness:
  "\<exists>r. tableToGeobufChunks (sim_store 10 cols_example) ''table'' ''id'' ''geom'' (Num 4)
          ''layer.gbf'' (init []) = Some r \<and>
       stored (world (state_of r)) ''layer_4.gbf'' = Some [0x00, 0x0A, 0xFF] \<and>
       stored (world (state_of r)) ''layer_4.gbf''
         \<noteq> Some (text_bytes (psql_t (encode_hex [0x00, 0x0A, 0xFF])))"
proof -
  have c: "(0::int) < 4" and k: "int 1 * 4 \<le> (10::int)" by simp_all
  note run = geobuf_chunks_are_raw_bytes [where exec = "sim_store 10 cols_example"
      and t = "''table''" and w = "[]" and R = 10 and C = 4 and k = 1 and idc = "''id''"
      and gc = "''geom''" and fp = "''layer.gbf''" and content = stored
      and geobuf = geobuf_example,
      OF c k count_of_sim_store_10 refl succeed_all [OF sim_store_never_fails]
        sim_store_pipe sim_store_hex]
  from run [unfolded geobuf_file_layer_4 geobuf_example_def sim_store_prints bytes_example_def]
  show ?thesis
    by (elim exE conjE) (intro exI conjI; assumption)
qed

section \<open>The attributes of a feature\<close>

lemma geobuf_cmds_shape:
  "c \<in> set (concat (map (geobuf_cmds t idc gc cs base props) xs))
     \<Longrightarrow> c = PsqlXxdToFile (GeobufHex g items rows) f
     \<Longrightarrow> g = gc \<and> items = geobuf_items idc gc props"
  by (auto simp: geobuf_cmds_def)

lemma geojson_cmds_shape:
  "c \<in> set (concat (map (geojson_cmds t gc idc cs base) xs))
     \<Longrightarrow> c = PsqlToFile (GeojsonCollection g rows) f \<Longrightarrow> g = gc"
  by (auto simp: geojson_cmds_def)

lemma feature_properties_geobuf:
  "feature_properties cols (GeobufHex gc (geobuf_items idc gc props) rows)
     = filter (\<lambda>n. n \<noteq> gc) (idc # props)"
  by (simp add: geobuf_items_def comp_def)

lemma set_properties_of:
  "set (properties_of idc gc out) = set (map trim (split_lines (trim out))) - {idc, gc}"
  by (auto simp: properties_of_def)

lemma geobuf_export_items:
  assumes "0 < C"
    and "exitCode (fst (exec (Psql (CountRows t)) w)) = 0 \<longrightarrow> count_of exec t w = Num R"
  shows "\<exists>r. tableToGeobufChunks exec t idc gc (Num C) fp (init w) = Some r \<and>
           (\<forall>x \<in> set (trace (state_of r)). \<forall>g items rows f.
              fst x = PsqlXxdToFile (GeobufHex g items rows) f \<longrightarrow>
                g = gc \<and> items = geobuf_items idc gc (run_properties exec t idc gc w))"
proof -
  let ?props = "properties_of idc gc (columns_of exec t (replay exec w ([] @ [Psql (CountRows t)])))"
  let ?chunks = "concat (map (geobuf_cmds t idc gc (Num C) (split_first ''.gbf'' fp) ?props)
                   (offsets_from 0 R C))"
  let ?plan = "Psql (CountRows t) # Psql (ColumnNames t) # ?chunks"
  have props: "?props = run_properties exec t idc gc w"
    by (simp add: run_properties_def replay_def)
  have cnt': "exitCode (fst (exec (Psql (CountRows t)) (replay exec w []))) = 0
                \<longrightarrow> count_of exec t (replay exec w []) = Num R"
    using assms(2) by (simp add: replay_def)
  from follows_geobuf_export [OF good_init assms(1) cnt' refl refl, where P = "\<lambda>_. False"]
  obtain r where r: "tableToGeobufChunks exec t idc gc (Num C) fp (init w) = Some r"
    and f: "follows exec (diagnostic TableToGeobufChunks t fp) (\<lambda>_. False) w [] ?plan r"
    by blast
  have "\<forall>x \<in> set (trace (state_of r)). \<forall>g items rows f.
              fst x = PsqlXxdToFile (GeobufHex g items rows) f \<longrightarrow>
                g = gc \<and> items = geobuf_items idc gc (run_properties exec t idc gc w)"
  proof (intro ballI allI impI)
    fix x g items rows f
    assume x: "x \<in> set (trace (state_of r))"
      and c: "fst x = PsqlXxdToFile (GeobufHex g items rows) f"
    from follows_trace_subset [OF f] x have "fst x \<in> set ?plan" by auto
    with c have "fst x \<in> set ?chunks" by auto
    from geobuf_cmds_shape [OF this c]
    show "g = gc \<and> items = geobuf_items idc gc (run_properties exec t idc gc w)"
      unfolding props .
  qed
  with r show ?thesis by blast
qed

lemma geojson_export_collections:
  assumes "0 < C"
    and "exitCode (fst (exec (Psql (CountRows t)) w)) = 0 \<longrightarrow> count_of exec t w = Num R"
  shows "\<exists>r. tableToGeojsonChunks exec t gc idc (Num C) fp (init w) = Some r \<and>
           (\<forall>x \<in> set (trace (state_of r)). \<forall>g rows f.
              fst x = PsqlToFile (GeojsonCollection g rows) f \<longrightarrow> g = gc)"
proof -
  let ?chunks = "concat (map (geojson_cmds t gc idc (Num C) (split_first ''.geojson'' fp))
                   (offsets_from 0 R C))"
  let ?plan = "Psql (CountRows t) # ?chunks"
  have cnt': "exitCode (fst (exec (Psql (CountRows t)) (replay exec w []))) = 0
                \<longrightarrow> count_of exec t (replay exec w []) = Num R"
    using assms(2) by (simp add: replay_def)
  from follows_geojson_export [OF good_init assms(1) cnt' refl, where P = "\<lambda>_. False"]
  obtain r where r: "tableToGeojsonChunks exec t gc idc (Num C) fp (init w) = Some r"
    and f: "follows exec (diagnostic TableToGeojsonChunks t fp) (\<lambda>_. False) w [] ?plan r"
    by blast
  have "\<forall>x \<in> set (trace (state_of r)). \<forall>g rows f.
              fst x = PsqlToFile (GeojsonCollection g rows) f \<longrightarrow> g = gc"
  proof (intro ballI allI impI)
    fix x g rows f
    assume x: "x \<in> set (trace (state_of r))"
      and c: "fst x = PsqlToFile (GeojsonCollection g rows) f"
    from follows_trace_subset [OF f] x have "fst x \<in> set ?plan" by auto
    with c have "fst x \<in> set ?chunks" by auto
    from geojson_cmds_shape [OF this c] show "g = gc" .
  qed
  with r show ?thesis by blast
qed

lemma geobuf_export_trace_all_succeed:
  assumes "0 < C"
    and ok: "\<forall>c w. exitCode (fst (exec c w)) = 0"
    and cnt: "count_of exec t w = Num R"
  shows "\<exists>a s'. tableToGeobufChunks exec t idc gc (Num C) fp (init w) = Some (Return a s') \<and>
           trace s' = map (\<lambda>c. (c, 0))
             (Psql (CountRows t) # Psql (ColumnNames t) #
              concat (map (geobuf_cmds t idc gc (Num C) (split_first ''.gbf'' fp)
                             (run_properties exec t idc gc w))
                        (offsets_from 0 R C)))"
proof -
  let ?props = "properties_of idc gc (columns_of exec t (replay exec w ([] @ [Psql (CountRows t)])))"
  have props: "?props = run_properties exec t idc gc w"
    by (simp add: run_properties_def replay_def)
  have cnt': "exitCode (fst (exec (Psql (CountRows t)) (replay exec w []))) = 0
                \<longrightarrow> count_of exec t (replay exec w []) = Num R"
    using cnt by (simp add: replay_def)
  from follows_geobuf_export [OF good_init assms(1) cnt' refl refl, where P = "\<lambda>_. False"]
  obtain r where r: "tableToGeobufChunks exec t idc gc (Num C) fp (init w) = Some r"
    and f: "follows exec (diagnostic TableToGeobufChunks t fp) (\<lambda>_. False) w []
              (Psql (CountRows t) # Psql (ColumnNames t) #
                 concat (map (geobuf_cmds t idc gc (Num C) (split_first ''.gbf'' fp) ?props)
                   (offsets_from 0 R C))) r"
    by blast
  from follows_all_succeed [OF f ok] r show ?thesis
    unfolding props by auto
qed

lemma run_properties_example:
  "run_properties (sim 0 cols_example (\<lambda>_. False)) ''table'' ''id'' ''geom'' [] = [''name'']"
  by (simp add: run_properties_def properties_of_def columns_of_def sim_def succeeded_def
      cols_example_def trim_def is_space_def)

text \<open>
  Claim C2 says that the attributes of a feature are the columns of the table without the
  identifier and the geometry. On a table with the columns \<open>id\<close>, \<open>geom\<close> and
  \<open>name\<close> the Geobuf exporter issues a statement that selects the geometry, \<open>id\<close> and
  \<open>name\<close>, so a feature carries \<open>id\<close> and \<open>name\<close>; and the properties of the SQL
  exporter, the row without \<open>geom\<close>, are \<open>id\<close> and \<open>name\<close> as well. Without the
  identifier and the geometry only \<open>name\<close> would be left.
\<close>

theorem property_set_counterexample:
  "(PsqlXxdToFile
      (GeobufHex ''geom'' [Transformed ''geom'', Column ''id'', Column ''name'']
         (page_query ''table'' ''id'' (Num 4) (Num 0)))
      ''layer_0.gbf'', 0)
     \<in> set (trace (state_of (the (tableToGeobufChunks (sim 0 cols_example no_failure)
                 ''table'' ''id'' ''geom'' (Num 4) ''layer.gbf'' (init []))))) \<and>
   feature_properties cols_example
     (GeobufHex ''geom'' [Transformed ''geom'', Column ''id'', Column ''name'']
        (page_query ''table'' ''id'' (Num 4) (Num 0)))
     = [''id'', ''name''] \<and>
   feature_properties cols_example
     (GeojsonCollection ''geom'' (page_query ''table'' ''id'' (Num 4) (Num 0)))
     = [''id'', ''name''] \<and>
   removeAll ''id'' (removeAll ''geom'' cols_example) = [''name'']"
proof -
  have c: "(0::int) < 4" by simp
  from geobuf_export_trace_all_succeed [where exec = "sim 0 cols_example (\<lambda>_. False)"
      and t = "''table''" and w = "[]" and R = 0 and idc = "''id''" and gc = "''geom''"
      and fp = "''layer.gbf''", OF c sim_never_fails count_of_sim_ok_0]
  obtain a s' where r: "tableToGeobufChunks (sim 0 cols_example (\<lambda>_. False))
                 ''table'' ''id'' ''geom'' (Num 4) ''layer.gbf'' (init []) = Some (Return a s')"
    and tr: "trace s' = map (\<lambda>c. (c, 0))
             (Psql (CountRows ''table'') # Psql (ColumnNames ''table'') #
              concat (map (geobuf_cmds ''table'' ''id'' ''geom'' (Num 4)
                             (split_first ''.gbf'' ''layer.gbf'')
                             (run_properties (sim 0 cols_example (\<lambda>_. False)) ''table'' ''id''
                                ''geom'' []))
                        (offsets_from 0 0 4)))"
    by blast
  have "trace s' =
      [(Psql (CountRows ''table''), 0), (Psql (ColumnNames ''table''), 0),
       (PsqlXxdToFile
          (GeobufHex ''geom'' [Transformed ''geom'', Column ''id'', Column ''name'']
             (page_query ''table'' ''id'' (Num 4) (Num 0)))
          ''layer_0.gbf'', 0)]"
    unfolding tr run_properties_example
    by (simp add: offsets_from_def geobuf_cmds_def geobuf_items_def chunk_path_def
        show_nat.simps digit_char_def)
  with r show ?thesis
    by (simp add: cols_example_def no_failure_def)
qed

text \<open>
  Claim C2, amended. In every run of the Geobuf exporter (chunk size positive, count a
  number when read) all chunk statements name the same geometry column and the same
  select list: the transformed geometry, the identifier, and the property list of the
  run, which is read once, before the loop, and holds the names the column statement
  printed other than the identifier and the geometry. The attributes of a feature are
  therefore the identifier and that list, without the geometry. In every run of the SQL
  GeoJSON exporter the properties of a feature are all the columns without the geometry.
  So the identifier is an attribute in both, unless it is the geometry column itself.
\<close>

theorem feature_properties_exclude_geometry_only:
  assumes "0 < C"
    and "exitCode (fst (exec (Psql (CountRows t)) w)) = 0 \<longrightarrow> count_of exec t w = Num R"
  shows "\<exists>r2 r3.
      tableToGeojsonChunks exec t gc idc (Num C) fp (init w) = Some r2 \<and>
      tableToGeobufChunks exec t idc gc (Num C) fp' (init w) = Some r3 \<and>
      (\<forall>x \<in> set (trace (state_of r3)). \<forall>g items rows f.
         fst x = PsqlXxdToFile (GeobufHex g items rows) f \<longrightarrow>
           g = gc \<and> items = geobuf_items idc gc (run_properties exec t idc gc w) \<and>
           feature_properties cols (GeobufHex g items rows)
             = filter (\<lambda>n. n \<noteq> gc) (idc # run_properties exec t idc gc w)) \<and>
      (\<forall>x \<in> set (trace (state_of r2)). \<forall>g rows f.
         fst x = PsqlToFile (GeojsonCollection g rows) f \<longrightarrow>
           g = gc \<and> feature_properties cols (GeojsonCollection g rows)
                      = filter (\<lambda>n. n \<noteq> gc) cols) \<and>
      set (run_properties exec t idc gc w)
        = set (map trim (split_lines (trim
            (columns_of exec t (snd (exec (Psql (CountRows t)) w)))))) - {idc, gc}"
proof -
  from geojson_export_collections [OF assms, where gc = gc and idc = idc and fp = fp]
  obtain r2 where r2: "tableToGeojsonChunks exec t gc idc (Num C) fp (init w) = Some r2"
    and p2: "\<forall>x \<in> set (trace (state_of r2)). \<forall>g rows f.
              fst x = PsqlToFile (GeojsonCollection g rows) f \<longrightarrow> g = gc"
    by blast
  from geobuf_export_items [OF assms, where gc = gc and idc = idc and fp = fp']
  obtain r3 where r3: "tableToGeobufChunks exec t idc gc (Num C) fp' (init w) = Some r3"
    and p3: "\<forall>x \<in> set (trace (state_of r3)). \<forall>g items rows f.
              fst x = PsqlXxdToFile (GeobufHex g items rows) f \<longrightarrow>
                g = gc \<and> items = geobuf_items idc gc (run_properties exec t idc gc w)"
    by blast
  have a: "\<forall>x \<in> set (trace (state_of r3)). \<forall>g items rows f.
         fst x = PsqlXxdToFile (GeobufHex g items rows) f \<longrightarrow>
           g = gc \<and> items = geobuf_items idc gc (run_properties exec t idc gc w) \<and>
           feature_properties cols (GeobufHex g items rows)
             = filter (\<lambda>n. n \<noteq> gc) (idc # run_properties exec t idc gc w)"
    using p3 feature_properties_geobuf by blast
  have b: "\<forall>x \<in> set (trace (state_of r2)). \<forall>g rows f.
         fst x = PsqlToFile (GeojsonCollection g rows) f \<longrightarrow>
           g = gc \<and> feature_properties cols (GeojsonCollection g rows)
                      = filter (\<lambda>n. n \<noteq> gc) cols"
    using p2 by auto
  have c: "set (run_properties exec t idc gc w)
        = set (map trim (split_lines (trim
            (columns_of exec t (snd (exec (Psql (CountRows t)) w)))))) - {idc, gc}"
    unfolding run_properties_def by (rule set_properties_of)
  from r2 r3 a b c show ?thesis by blast
qed

theorem feature_properties_exclude_geometry_only_witness:
  "\<exists>r2 r3.
      tableToGeojsonChunks (sim 10 cols_example (\<lambda>_. False)) ''table'' ''geom'' ''id'' (Num 4)
        ''layer.geojson'' (init []) = Some r2 \<and>
      tableToGeobufChunks (sim 10 cols_example (\<lambda>_. False)) ''table'' ''id'' ''geom'' (Num 4)
        ''layer.gbf'' (init []) = Some r3 \<and>
      (\<forall>x \<in> set (trace (state_of r3)). \<forall>g items rows f.
         fst x = PsqlXxdToFile (GeobufHex g items rows) f \<longrightarrow>
           g = ''geom'' \<and>
           items = geobuf_items ''id'' ''geom''
                     (run_properties (sim 10 cols_example (\<lambda>_. False)) ''table'' ''id'' ''geom'' []) \<and>
           feature_properties cols_example (GeobufHex g items rows)
             = filter (\<lambda>n. n \<noteq> ''geom'')
                 (''id'' # run_properties (sim 10 cols_example (\<lambda>_. False)) ''table'' ''id''
                             ''geom'' [])) \<and>
      (\<forall>x \<in> set (trace (state_of r2)). \<forall>g rows f.
         fst x = PsqlToFile (GeojsonCollection g rows) f \<longrightarrow>
           g = ''geom'' \<and> feature_properties cols_example (GeojsonCollection g rows)
                      = filter (\<lambda>n. n \<noteq> ''geom'') cols_example) \<and>
      set (run_properties (sim 10 cols_example (\<lambda>_. False)) ''table'' ''id'' ''geom'' [])
        = set (map trim (split_lines (trim
            (columns_of (sim 10 cols_example (\<lambda>_. False)) ''table''
               (snd (sim 10 cols_example (\<lambda>_. False) (Psql (CountRows ''table'')) [])))))) 
          - {''id'', ''geom''}"
proof -
  have c: "(0::int) < 4" by simp
  have cnt: "exitCode (fst (sim 10 cols_example (\<lambda>_. False) (Psql (CountRows ''table'')) [])) = 0
             \<longrightarrow> count_of (sim 10 cols_example (\<lambda>_. False)) ''table'' [] = Num 10"
    by (simp add: count_of_sim_ok_10)
  show ?thesis
    by (rule feature_properties_exclude_geometry_only
          [where exec = "sim 10 cols_example (\<lambda>_. False)" and t = "''table''" and w = "[]"
             and R = 10 and idc = "''id''" and gc = "''geom''" and fp = "''layer.geojson''"
             and fp' = "''layer.gbf''" and cols = cols_example, OF c cnt])
qed

end
